(* ===== verification/Prelude.thy ===== *)
theory Prelude
  imports Main "HOL-Library.Word" "HOL-Library.Monad_Syntax"
begin

text \<open>
  Shared vocabulary of the development: the names of the machine types of the C++ sources, the
  out-parameters (\<open>int* status\<close>, \<open>size_t* resultLen\<close>) as optional cells, the C++ heap for the
  arrays the library hands to its callers, the steady clock, and the generic lemmas the component
  theories share.  An operation that may run into undefined behaviour (a null or dangling
  dereference, a double \<open>delete[]\<close>, locking a mutex twice) returns an \<open>option\<close>; \<open>None\<close> is that
  abnormal outcome, so a theorem that an operation returns \<open>Some\<close> says it has none.
\<close>

section \<open>Types\<close>

type_synonym byte = "8 word"
type_synonym u64 = "64 word"
type_synonym data = "byte list"
type_synonym addr = nat
type_synonym charptr = "data option"
type_synonym status = "int option"
type_synonym lenptr = "nat option"

text \<open>
  \<open>charptr\<close> is a pointer argument together with its length argument: \<open>None\<close> is the null pointer,
  \<open>Some bs\<close> points to the bytes \<open>bs\<close>.  So a null pointer comes with the length 0; a null value with another length,
  which \<^verbatim>\<open>put_\<close> would hand on to the library unchecked, is not represented.  \<open>status\<close> and \<open>lenptr\<close> are nullable out-parameters: \<open>None\<close>
  is a null pointer, \<open>Some v\<close> a cell that currently holds \<open>v\<close>.
\<close>

named_theorems out_simps \<open>writes through nullable out-parameters\<close>
named_theorems heap_simps \<open>allocation and release of arrays\<close>

definition set_len :: "nat \<Rightarrow> lenptr \<Rightarrow> lenptr" where
  "set_len n p = map_option (\<lambda>_. n) p"

definition slice_of :: "charptr \<Rightarrow> data" where
  "slice_of p = (case p of None \<Rightarrow> [] | Some bs \<Rightarrow> bs)"

section \<open>The machine: RocksDB state, heap and clock\<close>

text \<open>
  \<open>rdb\<close> is the state of the RocksDB library and of the files it manages (its type is a parameter),
  \<open>heap\<close> the live arrays made by \<open>new char[]\<close>, \<open>next_addr\<close> the allocator, \<open>clock i\<close> the value
  the \<open>i\<close>-th reading of \<open>std::chrono::steady_clock\<close> gives in nanoseconds and \<open>reads\<close> the number
  of readings made so far, \<open>cpus\<close> what \<open>std::thread::hardware_concurrency\<close> returns.
\<close>

record 'd world =
  rdb :: 'd
  heap :: "addr \<Rightarrow> data option"
  next_addr :: addr
  clock :: "nat \<Rightarrow> int"
  reads :: nat
  cpus :: "32 word"

definition new_copy :: "data \<Rightarrow> ('d, 'a) world_scheme \<Rightarrow> addr \<times> ('d, 'a) world_scheme" where
  "new_copy bs w =
     (next_addr w, w\<lparr>heap := (heap w)(next_addr w \<mapsto> bs), next_addr := Suc (next_addr w)\<rparr>)"

definition delete_array ::
  "addr option \<Rightarrow> ('d, 'a) world_scheme \<Rightarrow> ('d, 'a) world_scheme option" where
  "delete_array p w =
     (case p of
        None \<Rightarrow> Some w
      | Some a \<Rightarrow> (if a \<in> dom (heap w) then Some (w\<lparr>heap := (heap w)(a := None)\<rparr>) else None))"

definition steady_now :: "('d, 'a) world_scheme \<Rightarrow> int \<times> ('d, 'a) world_scheme" where
  "steady_now w = (clock w (reads w), w\<lparr>reads := Suc (reads w)\<rparr>)"

definition heap_fresh :: "('d, 'a) world_scheme \<Rightarrow> bool" where
  "heap_fresh w \<longleftrightarrow> (\<forall>a \<in> dom (heap w). a < next_addr w)"

section \<open>Generic lemmas\<close>

lemma set_len_simps [simp, out_simps]:
  "set_len n None = None" "set_len n (Some m) = Some n"
  by (simp_all add: set_len_def)

lemma slice_of_simps [simp]: "slice_of None = []" "slice_of (Some bs) = bs"
  by (simp_all add: slice_of_def)

lemma heap_fresh_next [simp, heap_simps]: "heap_fresh w \<Longrightarrow> heap w (next_addr w) = None"
  by (metis domIff heap_fresh_def less_irrefl)

lemma new_copy_fresh:
  assumes "heap_fresh w" and "new_copy bs w = (a, w')"
  shows "heap w a = None" and "heap w' = (heap w)(a \<mapsto> bs)" and "heap_fresh w'"
  using assms by (auto simp: new_copy_def heap_fresh_def less_Suc_eq)

lemma new_then_delete:
  "heap_fresh w \<Longrightarrow> new_copy bs w = (a, w') \<Longrightarrow>
   \<exists>w''. delete_array (Some a) w' = Some w'' \<and> heap w'' = heap w"
  by (auto simp: new_copy_def delete_array_def fun_eq_iff)

lemma delete_array_fresh:
  "heap_fresh w \<Longrightarrow> delete_array p w = Some w' \<Longrightarrow> heap_fresh w'"
  by (auto simp: delete_array_def heap_fresh_def split: option.splits if_splits)

lemma bind_SomeD [dest]: "Option.bind x f = Some y \<Longrightarrow> \<exists>z. x = Some z \<and> f z = Some y"
  by (cases x) auto

end
