(* ===== verification/Rocks_Status.thy ===== *)
theory Rocks_Status
  imports Prelude
begin

text \<open>
  Status values.  The first part models \<^verbatim>\<open>include/rocksdb/status.h\<close>, the result type of every
  RocksDB call that the store makes: the three enums, the object with its constructors, the
  factories and predicates, copy, move, comparison and \<open>UpdateIfOk\<close>.  The constructor that
  formats a message is not inline (its body is in the RocksDB library), so the factories that take
  a message have it as their argument \<open>C\<close>; so has copying the argument \<open>CopyState\<close>.  The debug
  flag \<open>checked_\<close> exists under \<open>ROCKSDB_ASSERT_STATUS_CHECKED\<close> only, which the project does not
  define.  The second part models \<^verbatim>\<open>include/api/StatusCode.h\<close> and \<open>assign\<close> of
  \<^verbatim>\<open>include/impl/utils.h\<close>: the integer codes that cross the DLL boundary.
\<close>

named_theorems status_simps \<open>the predicates and factories of rocksdb::Status\<close>

section \<open>rocksdb::Status\<close>

datatype Code =
    kOk | kNotFound | kCorruption | kNotSupported | kInvalidArgument | kIOError | kMergeInProgress
  | kIncomplete | kShutdownInProgress | kTimedOut | kAborted | kBusy | kExpired | kTryAgain
  | kCompactionTooLarge | kColumnFamilyDropped | kMaxCode

datatype SubCode =
    kNone | kMutexTimeout | kLockTimeout | kLockLimit | kNoSpace | kDeadlock | kStaleFile
  | kMemoryLimit | kSpaceLimit | kPathNotFound | KMergeOperandsInsufficientCapacity
  | kManualCompactionPaused | kOverwritten | kTxnNotPrepared | kIOFenced | kMergeOperatorFailed
  | kMergeOperandThresholdExceeded | kPrefetchLimitReached | kNotExpectedCodePath | kMaxSubCode

datatype Severity =
  kNoError | kSoftError | kHardError | kFatalError | kUnrecoverableError | kMaxSeverity

record Status =
  st_code :: Code
  st_subcode :: SubCode
  st_sev :: Severity
  st_retryable :: bool
  st_data_loss :: bool
  st_scope :: byte
  st_state :: "data option"

type_synonym StatusCtor = "Code \<Rightarrow> SubCode \<Rightarrow> data \<Rightarrow> data \<Rightarrow> Severity \<Rightarrow> Status"

text \<open>The value of the enumerator, as \<open>assign(s.code(), status)\<close> converts it.\<close>

fun Code_value :: "Code \<Rightarrow> int" where
  "Code_value kOk = 0"
| "Code_value kNotFound = 1"
| "Code_value kCorruption = 2"
| "Code_value kNotSupported = 3"
| "Code_value kInvalidArgument = 4"
| "Code_value kIOError = 5"
| "Code_value kMergeInProgress = 6"
| "Code_value kIncomplete = 7"
| "Code_value kShutdownInProgress = 8"
| "Code_value kTimedOut = 9"
| "Code_value kAborted = 10"
| "Code_value kBusy = 11"
| "Code_value kExpired = 12"
| "Code_value kTryAgain = 13"
| "Code_value kCompactionTooLarge = 14"
| "Code_value kColumnFamilyDropped = 15"
| "Code_value kMaxCode = 16"

definition Status_default :: Status where
  "Status_default = \<lparr>st_code = kOk, st_subcode = kNone, st_sev = kNoError, st_retryable = False,
     st_data_loss = False, st_scope = 0, st_state = None\<rparr>"

definition Status_OK :: Status where
  "Status_OK = Status_default"

definition Status_of :: "Code \<Rightarrow> SubCode \<Rightarrow> Status" where
  "Status_of c sc = \<lparr>st_code = c, st_subcode = sc, st_sev = kNoError, st_retryable = False,
     st_data_loss = False, st_scope = 0, st_state = None\<rparr>"

definition Status_io :: "Code \<Rightarrow> SubCode \<Rightarrow> bool \<Rightarrow> bool \<Rightarrow> byte \<Rightarrow> Status" where
  "Status_io c sc retryable data_loss scope = \<lparr>st_code = c, st_subcode = sc, st_sev = kNoError,
     st_retryable = retryable, st_data_loss = data_loss, st_scope = scope, st_state = None\<rparr>"

definition Status_sev :: "StatusCtor \<Rightarrow> Code \<Rightarrow> SubCode \<Rightarrow> Severity \<Rightarrow> data \<Rightarrow> Status" where
  "Status_sev C c sc sev msg = C c sc msg [] sev"

text \<open>\<open>s.code()\<close>, as the store reads it.\<close>

definition Status_code :: "Status \<Rightarrow> int" where
  "Status_code s = Code_value (st_code s)"

definition Status_OkOverwritten :: Status where
  "Status_OkOverwritten = Status_of kOk kOverwritten"

definition Status_OkMergeOperandThresholdExceeded :: Status where
  "Status_OkMergeOperandThresholdExceeded = Status_of kOk kMergeOperandThresholdExceeded"

definition Status_NotFound_msg :: "StatusCtor \<Rightarrow> data \<Rightarrow> data \<Rightarrow> Status" where
  "Status_NotFound_msg C msg msg2 = C kNotFound kNone msg msg2 kNoError"

definition Status_NotFound :: "SubCode \<Rightarrow> Status" where
  "Status_NotFound msg = Status_of kNotFound msg"

definition Status_NotFound_sub_msg :: "StatusCtor \<Rightarrow> SubCode \<Rightarrow> data \<Rightarrow> data \<Rightarrow> Status" where
  "Status_NotFound_sub_msg C sc msg msg2 = C kNotFound sc msg msg2 kNoError"

definition Status_Corruption_msg :: "StatusCtor \<Rightarrow> data \<Rightarrow> data \<Rightarrow> Status" where
  "Status_Corruption_msg C msg msg2 = C kCorruption kNone msg msg2 kNoError"

definition Status_Corruption :: "SubCode \<Rightarrow> Status" where
  "Status_Corruption msg = Status_of kCorruption msg"

definition Status_NotSupported_msg :: "StatusCtor \<Rightarrow> data \<Rightarrow> data \<Rightarrow> Status" where
  "Status_NotSupported_msg C msg msg2 = C kNotSupported kNone msg msg2 kNoError"

definition Status_NotSupported :: "SubCode \<Rightarrow> Status" where
  "Status_NotSupported msg = Status_of kNotSupported msg"

definition Status_InvalidArgument_msg :: "StatusCtor \<Rightarrow> data \<Rightarrow> data \<Rightarrow> Status" where
  "Status_InvalidArgument_msg C msg msg2 = C kInvalidArgument kNone msg msg2 kNoError"

definition Status_InvalidArgument :: "SubCode \<Rightarrow> Status" where
  "Status_InvalidArgument msg = Status_of kInvalidArgument msg"

definition Status_IOError_msg :: "StatusCtor \<Rightarrow> data \<Rightarrow> data \<Rightarrow> Status" where
  "Status_IOError_msg C msg msg2 = C kIOError kNone msg msg2 kNoError"

definition Status_IOError :: "SubCode \<Rightarrow> Status" where
  "Status_IOError msg = Status_of kIOError msg"

definition Status_MergeInProgress_msg :: "StatusCtor \<Rightarrow> data \<Rightarrow> data \<Rightarrow> Status" where
  "Status_MergeInProgress_msg C msg msg2 = C kMergeInProgress kNone msg msg2 kNoError"

definition Status_MergeInProgress :: "SubCode \<Rightarrow> Status" where
  "Status_MergeInProgress msg = Status_of kMergeInProgress msg"

definition Status_Incomplete_msg :: "StatusCtor \<Rightarrow> data \<Rightarrow> data \<Rightarrow> Status" where
  "Status_Incomplete_msg C msg msg2 = C kIncomplete kNone msg msg2 kNoError"

definition Status_Incomplete :: "SubCode \<Rightarrow> Status" where
  "Status_Incomplete msg = Status_of kIncomplete msg"

definition Status_ShutdownInProgress :: "SubCode \<Rightarrow> Status" where
  "Status_ShutdownInProgress msg = Status_of kShutdownInProgress msg"

definition Status_ShutdownInProgress_msg :: "StatusCtor \<Rightarrow> data \<Rightarrow> data \<Rightarrow> Status" where
  "Status_ShutdownInProgress_msg C msg msg2 = C kShutdownInProgress kNone msg msg2 kNoError"

definition Status_Aborted :: "SubCode \<Rightarrow> Status" where
  "Status_Aborted msg = Status_of kAborted msg"

definition Status_Aborted_msg :: "StatusCtor \<Rightarrow> data \<Rightarrow> data \<Rightarrow> Status" where
  "Status_Aborted_msg C msg msg2 = C kAborted kNone msg msg2 kNoError"

definition Status_Busy :: "SubCode \<Rightarrow> Status" where
  "Status_Busy msg = Status_of kBusy msg"

definition Status_Busy_msg :: "StatusCtor \<Rightarrow> data \<Rightarrow> data \<Rightarrow> Status" where
  "Status_Busy_msg C msg msg2 = C kBusy kNone msg msg2 kNoError"

definition Status_TimedOut :: "SubCode \<Rightarrow> Status" where
  "Status_TimedOut msg = Status_of kTimedOut msg"

definition Status_TimedOut_msg :: "StatusCtor \<Rightarrow> data \<Rightarrow> data \<Rightarrow> Status" where
  "Status_TimedOut_msg C msg msg2 = C kTimedOut kNone msg msg2 kNoError"

definition Status_Expired :: "SubCode \<Rightarrow> Status" where
  "Status_Expired msg = Status_of kExpired msg"

definition Status_Expired_msg :: "StatusCtor \<Rightarrow> data \<Rightarrow> data \<Rightarrow> Status" where
  "Status_Expired_msg C msg msg2 = C kExpired kNone msg msg2 kNoError"

definition Status_TryAgain :: "SubCode \<Rightarrow> Status" where
  "Status_TryAgain msg = Status_of kTryAgain msg"

definition Status_TryAgain_msg :: "StatusCtor \<Rightarrow> data \<Rightarrow> data \<Rightarrow> Status" where
  "Status_TryAgain_msg C msg msg2 = C kTryAgain kNone msg msg2 kNoError"

definition Status_CompactionTooLarge :: "SubCode \<Rightarrow> Status" where
  "Status_CompactionTooLarge msg = Status_of kCompactionTooLarge msg"

definition Status_CompactionTooLarge_msg :: "StatusCtor \<Rightarrow> data \<Rightarrow> data \<Rightarrow> Status" where
  "Status_CompactionTooLarge_msg C msg msg2 = C kCompactionTooLarge kNone msg msg2 kNoError"

definition Status_ColumnFamilyDropped :: "SubCode \<Rightarrow> Status" where
  "Status_ColumnFamilyDropped msg = Status_of kColumnFamilyDropped msg"

definition Status_ColumnFamilyDropped_msg :: "StatusCtor \<Rightarrow> data \<Rightarrow> data \<Rightarrow> Status" where
  "Status_ColumnFamilyDropped_msg C msg msg2 = C kColumnFamilyDropped kNone msg msg2 kNoError"

definition Status_NoSpace :: Status where
  "Status_NoSpace = Status_of kIOError kNoSpace"

definition Status_NoSpace_msg :: "StatusCtor \<Rightarrow> data \<Rightarrow> data \<Rightarrow> Status" where
  "Status_NoSpace_msg C msg msg2 = C kIOError kNoSpace msg msg2 kNoError"

definition Status_MemoryLimit :: Status where
  "Status_MemoryLimit = Status_of kAborted kMemoryLimit"

definition Status_MemoryLimit_msg :: "StatusCtor \<Rightarrow> data \<Rightarrow> data \<Rightarrow> Status" where
  "Status_MemoryLimit_msg C msg msg2 = C kAborted kMemoryLimit msg msg2 kNoError"

definition Status_SpaceLimit :: Status where
  "Status_SpaceLimit = Status_of kIOError kSpaceLimit"

definition Status_SpaceLimit_msg :: "StatusCtor \<Rightarrow> data \<Rightarrow> data \<Rightarrow> Status" where
  "Status_SpaceLimit_msg C msg msg2 = C kIOError kSpaceLimit msg msg2 kNoError"

definition Status_PathNotFound :: Status where
  "Status_PathNotFound = Status_of kIOError kPathNotFound"

definition Status_PathNotFound_msg :: "StatusCtor \<Rightarrow> data \<Rightarrow> data \<Rightarrow> Status" where
  "Status_PathNotFound_msg C msg msg2 = C kIOError kPathNotFound msg msg2 kNoError"

definition Status_TxnNotPrepared :: Status where
  "Status_TxnNotPrepared = Status_of kInvalidArgument kTxnNotPrepared"

definition Status_TxnNotPrepared_msg :: "StatusCtor \<Rightarrow> data \<Rightarrow> data \<Rightarrow> Status" where
  "Status_TxnNotPrepared_msg C msg msg2 = C kInvalidArgument kTxnNotPrepared msg msg2 kNoError"

definition Status_LockLimit :: Status where
  "Status_LockLimit = Status_of kAborted kLockLimit"

definition Status_PrefetchLimitReached :: Status where
  "Status_PrefetchLimitReached = Status_of kIncomplete kPrefetchLimitReached"

definition Status_ok :: "Status \<Rightarrow> bool" where
  "Status_ok s \<longleftrightarrow> st_code s = kOk"

definition Status_IsOkOverwritten :: "Status \<Rightarrow> bool" where
  "Status_IsOkOverwritten s \<longleftrightarrow> st_code s = kOk \<and> st_subcode s = kOverwritten"

definition Status_IsOkMergeOperandThresholdExceeded :: "Status \<Rightarrow> bool" where
  "Status_IsOkMergeOperandThresholdExceeded s \<longleftrightarrow>
     st_code s = kOk \<and> st_subcode s = kMergeOperandThresholdExceeded"

definition Status_IsNotFound :: "Status \<Rightarrow> bool" where
  "Status_IsNotFound s \<longleftrightarrow> st_code s = kNotFound"

definition Status_IsCorruption :: "Status \<Rightarrow> bool" where
  "Status_IsCorruption s \<longleftrightarrow> st_code s = kCorruption"

definition Status_IsNotSupported :: "Status \<Rightarrow> bool" where
  "Status_IsNotSupported s \<longleftrightarrow> st_code s = kNotSupported"

definition Status_IsInvalidArgument :: "Status \<Rightarrow> bool" where
  "Status_IsInvalidArgument s \<longleftrightarrow> st_code s = kInvalidArgument"

definition Status_IsIOError :: "Status \<Rightarrow> bool" where
  "Status_IsIOError s \<longleftrightarrow> st_code s = kIOError"

definition Status_IsMergeInProgress :: "Status \<Rightarrow> bool" where
  "Status_IsMergeInProgress s \<longleftrightarrow> st_code s = kMergeInProgress"

definition Status_IsIncomplete :: "Status \<Rightarrow> bool" where
  "Status_IsIncomplete s \<longleftrightarrow> st_code s = kIncomplete"

definition Status_IsShutdownInProgress :: "Status \<Rightarrow> bool" where
  "Status_IsShutdownInProgress s \<longleftrightarrow> st_code s = kShutdownInProgress"

definition Status_IsTimedOut :: "Status \<Rightarrow> bool" where
  "Status_IsTimedOut s \<longleftrightarrow> st_code s = kTimedOut"

definition Status_IsAborted :: "Status \<Rightarrow> bool" where
  "Status_IsAborted s \<longleftrightarrow> st_code s = kAborted"

definition Status_IsLockLimit :: "Status \<Rightarrow> bool" where
  "Status_IsLockLimit s \<longleftrightarrow>
     st_code s = kAborted \<and> st_subcode s = kLockLimit"

definition Status_IsBusy :: "Status \<Rightarrow> bool" where
  "Status_IsBusy s \<longleftrightarrow> st_code s = kBusy"

definition Status_IsDeadlock :: "Status \<Rightarrow> bool" where
  "Status_IsDeadlock s \<longleftrightarrow> st_code s = kBusy \<and> st_subcode s = kDeadlock"

definition Status_IsExpired :: "Status \<Rightarrow> bool" where
  "Status_IsExpired s \<longleftrightarrow> st_code s = kExpired"

definition Status_IsTryAgain :: "Status \<Rightarrow> bool" where
  "Status_IsTryAgain s \<longleftrightarrow> st_code s = kTryAgain"

definition Status_IsCompactionTooLarge :: "Status \<Rightarrow> bool" where
  "Status_IsCompactionTooLarge s \<longleftrightarrow> st_code s = kCompactionTooLarge"

definition Status_IsColumnFamilyDropped :: "Status \<Rightarrow> bool" where
  "Status_IsColumnFamilyDropped s \<longleftrightarrow> st_code s = kColumnFamilyDropped"

definition Status_IsNoSpace :: "Status \<Rightarrow> bool" where
  "Status_IsNoSpace s \<longleftrightarrow>
     (st_code s = kIOError) \<and> (st_subcode s = kNoSpace)"

definition Status_IsMemoryLimit :: "Status \<Rightarrow> bool" where
  "Status_IsMemoryLimit s \<longleftrightarrow>
     (st_code s = kAborted) \<and> (st_subcode s = kMemoryLimit)"

definition Status_IsPathNotFound :: "Status \<Rightarrow> bool" where
  "Status_IsPathNotFound s \<longleftrightarrow>
     (st_code s = kIOError \<or> st_code s = kNotFound) \<and> (st_subcode s = kPathNotFound)"

definition Status_IsManualCompactionPaused :: "Status \<Rightarrow> bool" where
  "Status_IsManualCompactionPaused s \<longleftrightarrow>
     (st_code s = kIncomplete) \<and> (st_subcode s = kManualCompactionPaused)"

definition Status_IsTxnNotPrepared :: "Status \<Rightarrow> bool" where
  "Status_IsTxnNotPrepared s \<longleftrightarrow>
     (st_code s = kInvalidArgument) \<and> (st_subcode s = kTxnNotPrepared)"

definition Status_IsIOFenced :: "Status \<Rightarrow> bool" where
  "Status_IsIOFenced s \<longleftrightarrow>
     (st_code s = kIOError) \<and> (st_subcode s = kIOFenced)"

definition Status_IsPrefetchLimitReached :: "Status \<Rightarrow> bool" where
  "Status_IsPrefetchLimitReached s \<longleftrightarrow>
     (st_code s = kIncomplete) \<and> (st_subcode s = kPrefetchLimitReached)"

text \<open>Copy, move, comparison and accumulation.  \<open>same\<close> says whether both operands are one object.\<close>

definition Status_copy :: "(data \<Rightarrow> data) \<Rightarrow> Status \<Rightarrow> Status" where
  "Status_copy CopyState s = \<lparr>st_code = st_code s, st_subcode = st_subcode s, st_sev = st_sev s,
     st_retryable = st_retryable s, st_data_loss = st_data_loss s, st_scope = st_scope s,
     st_state = (case st_state s of None \<Rightarrow> None | Some m \<Rightarrow> Some (CopyState m))\<rparr>"

definition Status_copy_sev :: "(data \<Rightarrow> data) \<Rightarrow> Status \<Rightarrow> Severity \<Rightarrow> Status" where
  "Status_copy_sev CopyState s sev = \<lparr>st_code = st_code s, st_subcode = st_subcode s, st_sev = sev,
     st_retryable = st_retryable s, st_data_loss = st_data_loss s, st_scope = st_scope s,
     st_state = (case st_state s of None \<Rightarrow> None | Some m \<Rightarrow> Some (CopyState m))\<rparr>"

definition Status_assign :: "(data \<Rightarrow> data) \<Rightarrow> bool \<Rightarrow> Status \<Rightarrow> Status \<Rightarrow> Status" where
  "Status_assign CopyState same this s =
     (if same then this
      else this\<lparr>st_code := st_code s, st_subcode := st_subcode s, st_sev := st_sev s,
        st_retryable := st_retryable s, st_data_loss := st_data_loss s, st_scope := st_scope s,
        st_state := (case st_state s of None \<Rightarrow> None | Some m \<Rightarrow> Some (CopyState m))\<rparr>)"

definition Status_move_assign :: "bool \<Rightarrow> Status \<Rightarrow> Status \<Rightarrow> Status \<times> Status" where
  "Status_move_assign same this s =
     (if same then (this, s)
      else (this\<lparr>st_code := st_code s, st_subcode := st_subcode s, st_sev := st_sev s,
              st_retryable := st_retryable s, st_data_loss := st_data_loss s, st_scope := st_scope s,
              st_state := st_state s\<rparr>,
            s\<lparr>st_code := kOk, st_subcode := kNone, st_sev := kNoError, st_retryable := False,
              st_data_loss := False, st_scope := 0, st_state := None\<rparr>))"

definition Status_move :: "Status \<Rightarrow> Status \<times> Status" where
  "Status_move s = Status_move_assign False Status_default s"

definition Status_eq :: "Status \<Rightarrow> Status \<Rightarrow> bool" where
  "Status_eq s rhs \<longleftrightarrow> st_code s = st_code rhs"

definition Status_neq :: "Status \<Rightarrow> Status \<Rightarrow> bool" where
  "Status_neq s rhs \<longleftrightarrow> \<not> Status_eq s rhs"

definition Status_UpdateIfOk :: "Status \<Rightarrow> Status \<Rightarrow> Status \<times> Status" where
  "Status_UpdateIfOk this s =
     (if st_code this = kOk then Status_move_assign False this s else (this, s))"

definition Status_UpdateIfOk_copy :: "(data \<Rightarrow> data) \<Rightarrow> Status \<Rightarrow> Status \<Rightarrow> Status" where
  "Status_UpdateIfOk_copy CopyState this s = fst (Status_UpdateIfOk this (Status_copy CopyState s))"

section \<open>The codes of the DLL interface\<close>

definition SC_Invalid :: int where
  [simp]: "SC_Invalid = - 5"

definition SC_NoIterator :: int where
  [simp]: "SC_NoIterator = - 4"

definition SC_AlreadyExists :: int where
  [simp]: "SC_AlreadyExists = - 3"

definition SC_NoTransaction :: int where
  [simp]: "SC_NoTransaction = - 2"

definition SC_Closed :: int where
  [simp]: "SC_Closed = - 1"

definition SC_Ok :: int where
  [simp]: "SC_Ok = 0"

definition SC_NotFound :: int where
  [simp]: "SC_NotFound = 1"

definition SC_Corruption :: int where
  [simp]: "SC_Corruption = 2"

definition SC_NotSupported :: int where
  [simp]: "SC_NotSupported = 3"

definition SC_InvalidArgument :: int where
  [simp]: "SC_InvalidArgument = 4"

definition SC_IOError :: int where
  [simp]: "SC_IOError = 5"

definition SC_MergeInProgress :: int where
  [simp]: "SC_MergeInProgress = 6"

definition SC_Incomplete :: int where
  [simp]: "SC_Incomplete = 7"

definition SC_ShutdownInProgress :: int where
  [simp]: "SC_ShutdownInProgress = 8"

definition SC_TimedOut :: int where
  [simp]: "SC_TimedOut = 9"

definition SC_Aborted :: int where
  [simp]: "SC_Aborted = 10"

definition SC_Busy :: int where
  [simp]: "SC_Busy = 11"

definition SC_Expired :: int where
  [simp]: "SC_Expired = 12"

definition SC_TryAgain :: int where
  [simp]: "SC_TryAgain = 13"

definition SC_CompactionTooLarge :: int where
  [simp]: "SC_CompactionTooLarge = 14"

definition SC_ColumnFamilyDropped :: int where
  [simp]: "SC_ColumnFamilyDropped = 15"

definition SC_Unknown :: int where
  [simp]: "SC_Unknown = 16"

definition assign :: "int \<Rightarrow> status \<Rightarrow> status" where
  "assign code status = map_option (\<lambda>_. code) status"

section \<open>Lemmas\<close>

lemmas status_ctor_defs [status_simps] =
  Status_default_def Status_OK_def Status_of_def Status_io_def Status_code_def

lemmas status_pred_defs [status_simps] =
    Status_ok_def Status_IsOkOverwritten_def Status_IsOkMergeOperandThresholdExceeded_def
  Status_IsNotFound_def Status_IsCorruption_def Status_IsNotSupported_def
  Status_IsInvalidArgument_def Status_IsIOError_def Status_IsMergeInProgress_def
  Status_IsIncomplete_def Status_IsShutdownInProgress_def Status_IsTimedOut_def
  Status_IsAborted_def Status_IsLockLimit_def Status_IsBusy_def Status_IsDeadlock_def
  Status_IsExpired_def Status_IsTryAgain_def Status_IsCompactionTooLarge_def
  Status_IsColumnFamilyDropped_def Status_IsNoSpace_def Status_IsMemoryLimit_def
  Status_IsPathNotFound_def Status_IsManualCompactionPaused_def Status_IsTxnNotPrepared_def
  Status_IsIOFenced_def Status_IsPrefetchLimitReached_def

lemma assign_simps [simp, out_simps]: "assign c None = None" "assign c (Some v) = Some c"
  by (simp_all add: assign_def)

lemma Code_value_inj [simp]: "Code_value c = Code_value c' \<longleftrightarrow> c = c'"
  by (cases c; cases c') simp_all

lemma Code_value_0 [simp]: "Code_value c = 0 \<longleftrightarrow> c = kOk"
  by (cases c) simp_all

lemma Code_value_range: "0 \<le> Code_value c \<and> Code_value c \<le> 16"
  by (cases c) simp_all

lemma Status_code_0 [simp]: "Status_code s = 0 \<longleftrightarrow> Status_ok s"
  by (simp add: Status_code_def Status_ok_def)

lemma Status_code_1: "Status_code s = 1 \<longleftrightarrow> Status_IsNotFound s"
  using Code_value_inj [of "st_code s" kNotFound]
  by (simp add: Status_code_def Status_IsNotFound_def)

lemma Status_code_range: "0 \<le> Status_code s \<and> Status_code s \<le> 16"
  by (simp add: Status_code_def Code_value_range)

lemma Status_ok_OK [simp]: "Status_ok Status_OK" "Status_ok Status_default"
  by (simp_all add: status_simps)

lemma Status_ok_of [simp]: "Status_ok (Status_of c sc) \<longleftrightarrow> c = kOk"
  by (simp add: status_simps)

lemma Status_code_of [simp]: "Status_code (Status_of c sc) = Code_value c"
  by (simp add: status_simps)

end
