(* ===== verification/Rocks_Slice.thy ===== *)
theory Rocks_Slice
  imports Prelude "HOL-Library.List_Lexorder" "HOL-Library.Sublist"
begin

text \<open>
  \<^verbatim>\<open>include/rocksdb/slice.h\<close>: \<open>Slice\<close>, \<open>OptSlice\<close>, \<open>PinnableSlice\<close> and the cleanups it inherits
  from \<^verbatim>\<open>include/rocksdb/cleanable.h\<close>.  A pointer into a buffer is the list of the bytes that can
  be read from it on (\<open>None\<close> is the null pointer), so it may be longer than the slice; reading past
  it is \<open>None\<close>, and so is a failed \<open>assert\<close>.  \<open>Slice::compare\<close> is the order of RocksDB's default
  comparator; it is shown to be the lexicographic order on the bytes.
\<close>

named_theorems slice_simps \<open>the operations of rocksdb::Slice\<close>

section \<open>Comparing memory\<close>

fun first_diff :: "data \<Rightarrow> data \<Rightarrow> int" where
  "first_diff (x # xs) (y # ys) = (if x < y then - 1 else if y < x then 1 else first_diff xs ys)"
| "first_diff _ _ = 0"

text \<open>
  Only the sign of the result of \<open>memcmp\<close> is specified: \<open>mag\<close> stands for the magnitude an implementation chooses.
\<close>

definition memcmp :: "(data \<Rightarrow> data \<Rightarrow> nat) \<Rightarrow> charptr \<Rightarrow> charptr \<Rightarrow> nat \<Rightarrow> int option" where
  "memcmp mag p q n =
     (let xs = take n (slice_of p); ys = take n (slice_of q)
      in if n \<le> length (slice_of p) \<and> n \<le> length (slice_of q)
         then Some (first_diff xs ys * (1 + int (mag xs ys))) else None)"

fun strlen :: "data \<Rightarrow> nat option" where
  "strlen [] = None"
| "strlen (c # cs) = (if c = 0 then Some 0 else map_option Suc (strlen cs))"

section \<open>Slice\<close>

record Slice =
  sl_data :: charptr
  sl_size :: nat

definition Slice_empty_ctor :: Slice where
  "Slice_empty_ctor = \<lparr>sl_data = Some [0], sl_size = 0\<rparr>"

definition Slice_of :: "charptr \<Rightarrow> nat \<Rightarrow> Slice" where
  "Slice_of d n = \<lparr>sl_data = d, sl_size = n\<rparr>"

definition Slice_of_string :: "data \<Rightarrow> Slice" where
  "Slice_of_string s = \<lparr>sl_data = Some (s @ [0]), sl_size = length s\<rparr>"

definition Slice_of_view :: "charptr \<Rightarrow> nat \<Rightarrow> Slice" where
  "Slice_of_view d n = \<lparr>sl_data = d, sl_size = n\<rparr>"

definition Slice_of_cstr :: "charptr \<Rightarrow> Slice option" where
  "Slice_of_cstr s =
     (case s of
        None \<Rightarrow> Some \<lparr>sl_data = s, sl_size = 0\<rparr>
      | Some cs \<Rightarrow> map_option (\<lambda>n. \<lparr>sl_data = s, sl_size = n\<rparr>) (strlen cs))"

definition Slice_empty :: "'a Slice_scheme \<Rightarrow> bool" where
  "Slice_empty s \<longleftrightarrow> sl_size s = 0"

definition Slice_at :: "'a Slice_scheme \<Rightarrow> nat \<Rightarrow> byte option" where
  "Slice_at s n =
     (if n < sl_size s \<and> n < length (slice_of (sl_data s)) then Some (slice_of (sl_data s) ! n)
      else None)"

definition Slice_clear :: "'a Slice_scheme \<Rightarrow> 'a Slice_scheme" where
  "Slice_clear s = s\<lparr>sl_data := Some [0], sl_size := 0\<rparr>"

definition Slice_remove_prefix :: "'a Slice_scheme \<Rightarrow> nat \<Rightarrow> 'a Slice_scheme option" where
  "Slice_remove_prefix s n =
     (if n \<le> sl_size s
      then Some (s\<lparr>sl_data := map_option (drop n) (sl_data s), sl_size := sl_size s - n\<rparr>)
      else None)"

definition Slice_remove_suffix :: "'a Slice_scheme \<Rightarrow> nat \<Rightarrow> 'a Slice_scheme option" where
  "Slice_remove_suffix s n =
     (if n \<le> sl_size s then Some (s\<lparr>sl_size := sl_size s - n\<rparr>) else None)"

definition Slice_ToStringView :: "'a Slice_scheme \<Rightarrow> charptr \<times> nat" where
  "Slice_ToStringView s = (sl_data s, sl_size s)"

definition Slice_starts_with :: "(data \<Rightarrow> data \<Rightarrow> nat) \<Rightarrow> 'a Slice_scheme \<Rightarrow> 'b Slice_scheme \<Rightarrow> bool option" where
  "Slice_starts_with mag s x =
     (if sl_size s \<ge> sl_size x
      then map_option (\<lambda>r. r = 0) (memcmp mag (sl_data s) (sl_data x) (sl_size x))
      else Some False)"

definition Slice_ends_with :: "(data \<Rightarrow> data \<Rightarrow> nat) \<Rightarrow> 'a Slice_scheme \<Rightarrow> 'b Slice_scheme \<Rightarrow> bool option" where
  "Slice_ends_with mag s x =
     (if sl_size s \<ge> sl_size x
      then map_option (\<lambda>r. r = 0)
             (memcmp mag (map_option (drop (sl_size s - sl_size x)) (sl_data s)) (sl_data x) (sl_size x))
      else Some False)"

definition Slice_equal :: "(data \<Rightarrow> data \<Rightarrow> nat) \<Rightarrow> 'a Slice_scheme \<Rightarrow> 'b Slice_scheme \<Rightarrow> bool option" where
  "Slice_equal mag x y =
     (if sl_size x = sl_size y
      then map_option (\<lambda>r. r = 0) (memcmp mag (sl_data x) (sl_data y) (sl_size x))
      else Some False)"

definition Slice_not_equal :: "(data \<Rightarrow> data \<Rightarrow> nat) \<Rightarrow> 'a Slice_scheme \<Rightarrow> 'b Slice_scheme \<Rightarrow> bool option" where
  "Slice_not_equal mag x y = map_option Not (Slice_equal mag x y)"

definition Slice_compare :: "(data \<Rightarrow> data \<Rightarrow> nat) \<Rightarrow> 'a Slice_scheme \<Rightarrow> 'b Slice_scheme \<Rightarrow> int option" where
  "Slice_compare mag s b =
     (if sl_data s = None \<or> sl_data b = None then None
      else let min_len = (if sl_size s < sl_size b then sl_size s else sl_size b)
           in do {
                r \<leftarrow> memcmp mag (sl_data s) (sl_data b) min_len;
                Some (if r = 0 then (if sl_size s < sl_size b then - 1
                                     else if sl_size s > sl_size b then 1 else r)
                      else r)
              })"

text \<open>The loop \<open>for (; off < len; off++)\<close> of \<open>difference_offset\<close>.\<close>

function diff_offset_loop :: "data \<Rightarrow> data \<Rightarrow> nat \<Rightarrow> nat \<Rightarrow> nat option" where
  "diff_offset_loop a b off len =
     (if off < len
      then (if off < length a \<and> off < length b
            then (if a ! off \<noteq> b ! off then Some off else diff_offset_loop a b (Suc off) len)
            else None)
      else Some off)"
  by pat_completeness auto
termination
  by (relation "measure (\<lambda>(a, b, off, len). len - off)") auto

definition Slice_difference_offset :: "'a Slice_scheme \<Rightarrow> 'b Slice_scheme \<Rightarrow> nat option" where
  "Slice_difference_offset s b =
     (let len = (if sl_size s < sl_size b then sl_size s else sl_size b)
      in diff_offset_loop (slice_of (sl_data s)) (slice_of (sl_data b)) 0 len)"

section \<open>OptSlice\<close>

definition SIZE_MAX :: nat where
  "SIZE_MAX = 2 ^ 64 - 1"

record OptSlice =
  os_slice :: Slice

definition OptSlice_none :: OptSlice where
  "OptSlice_none = \<lparr>os_slice = Slice_of None SIZE_MAX\<rparr>"

definition OptSlice_some :: "Slice \<Rightarrow> OptSlice" where
  "OptSlice_some s = \<lparr>os_slice = s\<rparr>"

definition OptSlice_has_value :: "OptSlice \<Rightarrow> bool" where
  "OptSlice_has_value o1 \<longleftrightarrow> sl_size (os_slice o1) \<noteq> SIZE_MAX"

definition OptSlice_value :: "OptSlice \<Rightarrow> Slice option" where
  "OptSlice_value o1 = (if OptSlice_has_value o1 then Some (os_slice o1) else None)"

definition OptSlice_AsPtr :: "OptSlice \<Rightarrow> Slice option" where
  "OptSlice_AsPtr o1 = (if OptSlice_has_value o1 then Some (os_slice o1) else None)"

definition OptSlice_CopyFromPtr :: "Slice option \<Rightarrow> OptSlice" where
  "OptSlice_CopyFromPtr p = (case p of Some s \<Rightarrow> OptSlice_some s | None \<Rightarrow> OptSlice_none)"

section \<open>Cleanable and PinnableSlice\<close>

text \<open>
  A cleanup is a function with two arguments, named here by a value of type \<open>'c\<close>.  The list of a
  \<open>Cleanable\<close> is empty when \<open>cleanup_.function\<close> is null.  Running the cleanups returns the ones
  run, in order.  \<open>RegisterCleanup\<close> is not inline; it is the argument \<open>reg\<close>.
\<close>

definition Cleanable_DoCleanup :: "'c list \<Rightarrow> 'c list" where
  "Cleanable_DoCleanup cs = (case cs of [] \<Rightarrow> [] | c # rest \<Rightarrow> c # rest)"

definition Cleanable_Reset :: "'c list \<Rightarrow> 'c list \<times> 'c list" where
  "Cleanable_Reset cs = (Cleanable_DoCleanup cs, [])"

definition Cleanable_HasCleanups :: "'c list \<Rightarrow> bool" where
  "Cleanable_HasCleanups cs \<longleftrightarrow> cs \<noteq> []"

record 'c PinnableSlice = Slice +
  ps_buf :: data
  ps_pinned :: bool
  ps_cleanups :: "'c list"

definition PinnableSlice_default :: "'c PinnableSlice" where
  "PinnableSlice_default =
     \<lparr>sl_data = Some [0], sl_size = 0, ps_buf = [], ps_pinned = False, ps_cleanups = []\<rparr>"

definition PinnableSlice_PinSlice ::
  "('c \<Rightarrow> 'c list \<Rightarrow> 'c list) \<Rightarrow> 'c PinnableSlice \<Rightarrow> Slice \<Rightarrow> 'c \<Rightarrow> 'c PinnableSlice option" where
  "PinnableSlice_PinSlice reg p s f =
     (if ps_pinned p then None
      else Some (p\<lparr>ps_pinned := True, sl_data := sl_data s, sl_size := sl_size s,
                   ps_cleanups := reg f (ps_cleanups p)\<rparr>))"

definition PinnableSlice_PinSelf :: "'c PinnableSlice \<Rightarrow> 'c PinnableSlice option" where
  "PinnableSlice_PinSelf p =
     (if ps_pinned p then None
      else Some (p\<lparr>sl_data := Some (ps_buf p @ [0]), sl_size := length (ps_buf p)\<rparr>))"

definition PinnableSlice_PinSelf_slice ::
  "'c PinnableSlice \<Rightarrow> Slice \<Rightarrow> 'c PinnableSlice option" where
  "PinnableSlice_PinSelf_slice p s =
     (if ps_pinned p then None
      else let buf = take (sl_size s) (slice_of (sl_data s))
           in Some (p\<lparr>ps_buf := buf, sl_data := Some (buf @ [0]), sl_size := length buf\<rparr>))"

definition PinnableSlice_remove_suffix :: "'c PinnableSlice \<Rightarrow> nat \<Rightarrow> 'c PinnableSlice option" where
  "PinnableSlice_remove_suffix p n =
     (if n \<le> sl_size p
      then (if ps_pinned p then Some (p\<lparr>sl_size := sl_size p - n\<rparr>)
            else PinnableSlice_PinSelf
                   (p\<lparr>ps_buf := take (sl_size p - n) (ps_buf p) @ drop (sl_size p) (ps_buf p)\<rparr>))
      else None)"

definition PinnableSlice_remove_prefix :: "'c PinnableSlice \<Rightarrow> nat \<Rightarrow> 'c PinnableSlice option" where
  "PinnableSlice_remove_prefix p n =
     (if n \<le> sl_size p
      then (if ps_pinned p
            then Some (p\<lparr>sl_data := map_option (drop n) (sl_data p), sl_size := sl_size p - n\<rparr>)
            else PinnableSlice_PinSelf (p\<lparr>ps_buf := drop n (ps_buf p)\<rparr>))
      else None)"

definition PinnableSlice_Reset :: "'c PinnableSlice \<Rightarrow> 'c list \<times> 'c PinnableSlice" where
  "PinnableSlice_Reset p =
     (let (run, cs) = Cleanable_Reset (ps_cleanups p)
      in (run, p\<lparr>ps_cleanups := cs, ps_pinned := False, sl_size := 0\<rparr>))"

section \<open>Lemmas\<close>

text \<open>The bytes a slice refers to, and the slices that refer to readable memory.\<close>

definition slice_bytes :: "'a Slice_scheme \<Rightarrow> data" where
  "slice_bytes s = take (sl_size s) (slice_of (sl_data s))"

definition slice_wf :: "'a Slice_scheme \<Rightarrow> bool" where
  "slice_wf s \<longleftrightarrow> sl_data s \<noteq> None \<and> sl_size s \<le> length (slice_of (sl_data s))"

definition lex_sign :: "data \<Rightarrow> data \<Rightarrow> int" where
  "lex_sign xs ys = (if xs < ys then - 1 else if xs = ys then 0 else 1)"

lemma length_slice_bytes [simp]: "slice_wf s \<Longrightarrow> length (slice_bytes s) = sl_size s"
  by (simp add: slice_bytes_def slice_wf_def)

lemma first_diff_0_iff: "length xs = length ys \<Longrightarrow> first_diff xs ys = 0 \<longleftrightarrow> xs = ys"
  by (induction xs ys rule: first_diff.induct) auto

lemma first_diff_refl [simp]: "first_diff xs xs = 0"
  by (induction xs) auto

lemma Nil_less_iff [simp]: "([] :: data) < ys \<longleftrightarrow> ys \<noteq> []"
  by (cases ys) auto

lemma first_diff_lex_sign:
  "first_diff xs ys =
     (if first_diff xs ys = 0 then 0 else lex_sign xs ys)"
  by (induction xs ys rule: first_diff.induct) (auto simp: lex_sign_def)

lemma first_diff_0_lex_sign:
  "first_diff xs ys = 0 \<Longrightarrow>
   lex_sign xs ys = (if length xs < length ys then - 1 else if length xs > length ys then 1 else 0)"
  by (induction xs ys rule: first_diff.induct)
     (auto simp: lex_sign_def split: if_splits)

lemma first_diff_take_min:
  "first_diff (take (min (length xs) (length ys)) xs) (take (min (length xs) (length ys)) ys)
   = first_diff xs ys"
  by (induction xs ys rule: first_diff.induct) auto

lemma sgn_first_diff [simp]: "sgn (first_diff xs ys) = first_diff xs ys"
  by (induction xs ys rule: first_diff.induct) auto

lemma memcmp_bytes:
  assumes "slice_wf s" "slice_wf b" "n \<le> sl_size s" "n \<le> sl_size b"
  shows "\<exists>r. memcmp mag (sl_data s) (sl_data b) n = Some r \<and>
    sgn r = first_diff (take n (slice_bytes s)) (take n (slice_bytes b))"
  using assms
  by (simp add: memcmp_def slice_wf_def slice_bytes_def min_absorb1 Let_def sgn_mult sgn_first_diff sgn_pos)

lemma Slice_compare_sign:
  assumes s: "slice_wf s" and b: "slice_wf b"
  shows "\<exists>r. Slice_compare mag s b = Some r \<and> sgn r = lex_sign (slice_bytes s) (slice_bytes b)"
proof -
  let ?x = "slice_bytes s" and ?y = "slice_bytes b"
  let ?m = "if sl_size s < sl_size b then sl_size s else sl_size b"
  have m: "?m = min (length ?x) (length ?y)" using s b by simp
  have "\<exists>r. memcmp mag (sl_data s) (sl_data b) ?m = Some r \<and> sgn r = first_diff (take ?m ?x) (take ?m ?y)"
    by (rule memcmp_bytes [OF s b]) auto
  then obtain r where r: "memcmp mag (sl_data s) (sl_data b) ?m = Some r" "sgn r = first_diff ?x ?y"
    by (auto simp only: m first_diff_take_min)
  have "r = 0 \<longleftrightarrow> first_diff ?x ?y = 0" using r(2) by (metis sgn_eq_0_iff)
  moreover have "sl_data s \<noteq> None" "sl_data b \<noteq> None" using s b by (simp_all add: slice_wf_def)
  ultimately show ?thesis
    using r first_diff_lex_sign [of ?x ?y] first_diff_0_lex_sign [of ?x ?y] s b
    by (auto simp: Slice_compare_def Let_def split: if_splits)
qed

declare diff_offset_loop.simps [simp del]

lemma diff_offset_loop_spec:
  assumes "off \<le> len" "len \<le> length a" "len \<le> length b" "take off a = take off b"
  shows "\<exists>r. diff_offset_loop a b off len = Some r \<and> r \<le> len \<and> take r a = take r b
    \<and> (r < len \<longrightarrow> a ! r \<noteq> b ! r)"
  using assms
proof (induction a b off len rule: diff_offset_loop.induct)
  case (1 a b off len)
  show ?case
  proof (cases "off < len \<and> a ! off = b ! off")
    case True
    then have "take (Suc off) a = take (Suc off) b"
      using "1.prems" by (simp add: take_Suc_conv_app_nth)
    with True "1" show ?thesis
      by (auto simp: diff_offset_loop.simps [of a b off len])
  next
    case False
    with "1.prems" show ?thesis
      by (auto simp: diff_offset_loop.simps [of a b off len])
  qed
qed

section \<open>Properties\<close>

text \<open>
  C35: \<^verbatim>\<open>Slice::compare\<close> on readable slices has the sign of the lexicographic comparison of the unsigned
  bytes, a proper prefix being smaller, whatever magnitudes \<^verbatim>\<open>memcmp\<close> answers with; \<^verbatim>\<open>operator==\<close> decides equality of the bytes, \<^verbatim>\<open>starts_with\<close> the
  prefix relation, and \<^verbatim>\<open>difference_offset\<close> returns the length of the longest common prefix.
\<close>

theorem slice_compare_lexicographic:
  assumes "slice_wf s" "slice_wf b"
  shows "(\<exists>r. Slice_compare mag s b = Some r \<and> sgn r = lex_sign (slice_bytes s) (slice_bytes b)) \<and>
    Slice_equal mag s b = Some (slice_bytes s = slice_bytes b) \<and>
    Slice_starts_with mag s b = Some (prefix (slice_bytes b) (slice_bytes s)) \<and>
    (\<exists>r. Slice_difference_offset s b = Some r \<and> r \<le> sl_size s \<and> r \<le> sl_size b \<and>
      take r (slice_bytes s) = take r (slice_bytes b) \<and>
      (r < sl_size s \<and> r < sl_size b \<longrightarrow> slice_bytes s ! r \<noteq> slice_bytes b ! r))"
proof (intro conjI)
  show "\<exists>r. Slice_compare mag s b = Some r \<and> sgn r = lex_sign (slice_bytes s) (slice_bytes b)"
    by (rule Slice_compare_sign [OF assms])
  show "Slice_equal mag s b = Some (slice_bytes s = slice_bytes b)"
  proof (cases "sl_size s = sl_size b")
    case True
    then have l: "length (slice_bytes s) = length (slice_bytes b)" using assms by simp
    then obtain r where "memcmp mag (sl_data s) (sl_data b) (sl_size s) = Some r"
      "sgn r = first_diff (slice_bytes s) (slice_bytes b)"
      using True memcmp_bytes [OF assms, of "sl_size s" mag] assms by auto
    moreover from this have "r = 0 \<longleftrightarrow> slice_bytes s = slice_bytes b"
      using first_diff_0_iff [OF l] by (metis sgn_eq_0_iff)
    ultimately show ?thesis using True by (simp add: Slice_equal_def)
  next
    case False
    then have "slice_bytes s \<noteq> slice_bytes b" using assms length_slice_bytes by metis
    with False show ?thesis by (simp add: Slice_equal_def)
  qed
  show "Slice_starts_with mag s b = Some (prefix (slice_bytes b) (slice_bytes s))"
  proof (cases "sl_size b \<le> sl_size s")
    case True
    let ?x = "take (sl_size b) (slice_bytes s)"
    have l: "length ?x = length (slice_bytes b)" using True assms by simp
    obtain r where "memcmp mag (sl_data s) (sl_data b) (sl_size b) = Some r"
      "sgn r = first_diff ?x (slice_bytes b)"
      using memcmp_bytes [OF assms True, of mag] assms by auto
    moreover from this have "r = 0 \<longleftrightarrow> ?x = slice_bytes b"
      using first_diff_0_iff [OF l] by (metis sgn_eq_0_iff)
    moreover have "?x = slice_bytes b \<longleftrightarrow> prefix (slice_bytes b) (slice_bytes s)"
      using length_slice_bytes [OF assms(2)]
      by (metis append_eq_conv_conj prefix_def take_is_prefix)
    ultimately show ?thesis using True by (simp add: Slice_starts_with_def)
  next
    case False
    then have "\<not> prefix (slice_bytes b) (slice_bytes s)" using prefix_length_le assms by fastforce
    with False show ?thesis by (simp add: Slice_starts_with_def)
  qed
  let ?len = "if sl_size s < sl_size b then sl_size s else sl_size b"
  let ?a = "slice_of (sl_data s)" and ?b = "slice_of (sl_data b)"
  have l: "?len \<le> length ?a" "?len \<le> length ?b" using assms by (auto simp: slice_wf_def)
  obtain r where r: "diff_offset_loop ?a ?b 0 ?len = Some r" "r \<le> ?len" "take r ?a = take r ?b"
    "r < ?len \<longrightarrow> ?a ! r \<noteq> ?b ! r"
    using diff_offset_loop_spec [OF le0 l trans [OF take_0 take_0 [symmetric]]] by blast
  then show "\<exists>r. Slice_difference_offset s b = Some r \<and> r \<le> sl_size s \<and> r \<le> sl_size b \<and>
      take r (slice_bytes s) = take r (slice_bytes b) \<and>
      (r < sl_size s \<and> r < sl_size b \<longrightarrow> slice_bytes s ! r \<noteq> slice_bytes b ! r)"
    by (intro exI [where x = r])
       (auto simp: Slice_difference_offset_def slice_bytes_def min_def split: if_splits)
qed

theorem slice_compare_lexicographic_witness:
  "\<exists>r. Slice_compare (\<lambda>_ _. 7) \<lparr>sl_data = Some [1, 2, 3], sl_size = 2\<rparr> \<lparr>sl_data = Some [1, 200], sl_size = 2\<rparr> = Some r
     \<and> sgn r = - 1"
  using slice_compare_lexicographic [of "\<lparr>sl_data = Some [1, 2, 3], sl_size = 2\<rparr>"
      "\<lparr>sl_data = Some [1, 200], sl_size = 2\<rparr>" "\<lambda>_ _. 7"]
  by (simp add: slice_wf_def slice_bytes_def lex_sign_def)

end
