(* ===== verification/Rocks_Options.thy ===== *)
theory Rocks_Options
  imports Rocks_Slice Complex_Main
begin

text \<open>
  The option structs of RocksDB that the store owns and passes on, from the vendored headers
  (\<^verbatim>\<open>options.h\<close>, \<^verbatim>\<open>compression_type.h\<close>, \<^verbatim>\<open>universal_compaction.h\<close>, \<^verbatim>\<open>table.h\<close>,
  \<^verbatim>\<open>advanced_options.h\<close>, \<^verbatim>\<open>utilities/transaction_db.h\<close>): each member with its type, and the
  in-class initialisers as \<open>_default\<close> definitions.  A large struct is a record of consecutive
  groups of its members.  Pointers to library objects are opaque references; \<open>rocks_consts\<close> holds
  the values that the headers only declare.  A \<open>double\<close> member is the rational number its
  initialiser denotes.
\<close>

section \<open>Enumerations\<close>

datatype InfoLogLevel =
    InfoLogLevel_DEBUG_LEVEL
  | InfoLogLevel_INFO_LEVEL
  | InfoLogLevel_WARN_LEVEL
  | InfoLogLevel_ERROR_LEVEL
  | InfoLogLevel_FATAL_LEVEL
  | InfoLogLevel_HEADER_LEVEL
  | InfoLogLevel_NUM_INFO_LOG_LEVELS

fun InfoLogLevel_value :: "InfoLogLevel \<Rightarrow> int" where
  "InfoLogLevel_value InfoLogLevel_DEBUG_LEVEL = 0"
| "InfoLogLevel_value InfoLogLevel_INFO_LEVEL = 1"
| "InfoLogLevel_value InfoLogLevel_WARN_LEVEL = 2"
| "InfoLogLevel_value InfoLogLevel_ERROR_LEVEL = 3"
| "InfoLogLevel_value InfoLogLevel_FATAL_LEVEL = 4"
| "InfoLogLevel_value InfoLogLevel_HEADER_LEVEL = 5"
| "InfoLogLevel_value InfoLogLevel_NUM_INFO_LOG_LEVELS = 6"

datatype IOPriority =
    IOPriority_IO_LOW
  | IOPriority_IO_MID
  | IOPriority_IO_HIGH
  | IOPriority_IO_USER
  | IOPriority_IO_TOTAL

fun IOPriority_value :: "IOPriority \<Rightarrow> int" where
  "IOPriority_value IOPriority_IO_LOW = 0"
| "IOPriority_value IOPriority_IO_MID = 1"
| "IOPriority_value IOPriority_IO_HIGH = 2"
| "IOPriority_value IOPriority_IO_USER = 3"
| "IOPriority_value IOPriority_IO_TOTAL = 4"

datatype Temperature =
    Temperature_kUnknown
  | Temperature_kHot
  | Temperature_kWarm
  | Temperature_kCool
  | Temperature_kCold
  | Temperature_kIce
  | Temperature_kLastTemperature

fun Temperature_value :: "Temperature \<Rightarrow> int" where
  "Temperature_value Temperature_kUnknown = 0"
| "Temperature_value Temperature_kHot = 4"
| "Temperature_value Temperature_kWarm = 8"
| "Temperature_value Temperature_kCool = 10"
| "Temperature_value Temperature_kCold = 12"
| "Temperature_value Temperature_kIce = 16"
| "Temperature_value Temperature_kLastTemperature = 17"

datatype FileType =
    FileType_kWalFile
  | FileType_kDBLockFile
  | FileType_kTableFile
  | FileType_kDescriptorFile
  | FileType_kCurrentFile
  | FileType_kTempFile
  | FileType_kInfoLogFile
  | FileType_kMetaDatabase
  | FileType_kIdentityFile
  | FileType_kOptionsFile
  | FileType_kBlobFile
  | FileType_kCompactionProgressFile

fun FileType_value :: "FileType \<Rightarrow> int" where
  "FileType_value FileType_kWalFile = 0"
| "FileType_value FileType_kDBLockFile = 1"
| "FileType_value FileType_kTableFile = 2"
| "FileType_value FileType_kDescriptorFile = 3"
| "FileType_value FileType_kCurrentFile = 4"
| "FileType_value FileType_kTempFile = 5"
| "FileType_value FileType_kInfoLogFile = 6"
| "FileType_value FileType_kMetaDatabase = 7"
| "FileType_value FileType_kIdentityFile = 8"
| "FileType_value FileType_kOptionsFile = 9"
| "FileType_value FileType_kBlobFile = 10"
| "FileType_value FileType_kCompactionProgressFile = 11"

datatype WALRecoveryMode =
    WALRecoveryMode_kTolerateCorruptedTailRecords
  | WALRecoveryMode_kAbsoluteConsistency
  | WALRecoveryMode_kPointInTimeRecovery
  | WALRecoveryMode_kSkipAnyCorruptedRecords

fun WALRecoveryMode_value :: "WALRecoveryMode \<Rightarrow> int" where
  "WALRecoveryMode_value WALRecoveryMode_kTolerateCorruptedTailRecords = 0"
| "WALRecoveryMode_value WALRecoveryMode_kAbsoluteConsistency = 1"
| "WALRecoveryMode_value WALRecoveryMode_kPointInTimeRecovery = 2"
| "WALRecoveryMode_value WALRecoveryMode_kSkipAnyCorruptedRecords = 3"

datatype ReadTier =
    ReadTier_kReadAllTier
  | ReadTier_kBlockCacheTier
  | ReadTier_kPersistedTier
  | ReadTier_kMemtableTier

fun ReadTier_value :: "ReadTier \<Rightarrow> int" where
  "ReadTier_value ReadTier_kReadAllTier = 0"
| "ReadTier_value ReadTier_kBlockCacheTier = 1"
| "ReadTier_value ReadTier_kPersistedTier = 2"
| "ReadTier_value ReadTier_kMemtableTier = 3"

datatype BottommostLevelCompaction =
    BottommostLevelCompaction_kSkip
  | BottommostLevelCompaction_kIfHaveCompactionFilter
  | BottommostLevelCompaction_kForce
  | BottommostLevelCompaction_kForceOptimized

fun BottommostLevelCompaction_value :: "BottommostLevelCompaction \<Rightarrow> int" where
  "BottommostLevelCompaction_value BottommostLevelCompaction_kSkip = 0"
| "BottommostLevelCompaction_value BottommostLevelCompaction_kIfHaveCompactionFilter = 1"
| "BottommostLevelCompaction_value BottommostLevelCompaction_kForce = 2"
| "BottommostLevelCompaction_value BottommostLevelCompaction_kForceOptimized = 3"

datatype BlobGarbageCollectionPolicy =
    BlobGarbageCollectionPolicy_kForce
  | BlobGarbageCollectionPolicy_kDisable
  | BlobGarbageCollectionPolicy_kUseDefault

fun BlobGarbageCollectionPolicy_value :: "BlobGarbageCollectionPolicy \<Rightarrow> int" where
  "BlobGarbageCollectionPolicy_value BlobGarbageCollectionPolicy_kForce = 0"
| "BlobGarbageCollectionPolicy_value BlobGarbageCollectionPolicy_kDisable = 1"
| "BlobGarbageCollectionPolicy_value BlobGarbageCollectionPolicy_kUseDefault = 2"

datatype CompactionStyle =
    CompactionStyle_kCompactionStyleLevel
  | CompactionStyle_kCompactionStyleUniversal
  | CompactionStyle_kCompactionStyleFIFO
  | CompactionStyle_kCompactionStyleNone

fun CompactionStyle_value :: "CompactionStyle \<Rightarrow> int" where
  "CompactionStyle_value CompactionStyle_kCompactionStyleLevel = 0"
| "CompactionStyle_value CompactionStyle_kCompactionStyleUniversal = 1"
| "CompactionStyle_value CompactionStyle_kCompactionStyleFIFO = 2"
| "CompactionStyle_value CompactionStyle_kCompactionStyleNone = 3"

datatype CompactionPri =
    CompactionPri_kByCompensatedSize
  | CompactionPri_kOldestLargestSeqFirst
  | CompactionPri_kOldestSmallestSeqFirst
  | CompactionPri_kMinOverlappingRatio
  | CompactionPri_kRoundRobin

fun CompactionPri_value :: "CompactionPri \<Rightarrow> int" where
  "CompactionPri_value CompactionPri_kByCompensatedSize = 0"
| "CompactionPri_value CompactionPri_kOldestLargestSeqFirst = 1"
| "CompactionPri_value CompactionPri_kOldestSmallestSeqFirst = 2"
| "CompactionPri_value CompactionPri_kMinOverlappingRatio = 3"
| "CompactionPri_value CompactionPri_kRoundRobin = 4"

datatype CacheTier =
    CacheTier_kVolatileTier
  | CacheTier_kVolatileCompressedTier
  | CacheTier_kNonVolatileBlockTier

fun CacheTier_value :: "CacheTier \<Rightarrow> int" where
  "CacheTier_value CacheTier_kVolatileTier = 0"
| "CacheTier_value CacheTier_kVolatileCompressedTier = 1"
| "CacheTier_value CacheTier_kNonVolatileBlockTier = 2"

datatype UpdateStatus =
    UpdateStatus_UPDATE_FAILED
  | UpdateStatus_UPDATED_INPLACE
  | UpdateStatus_UPDATED

fun UpdateStatus_value :: "UpdateStatus \<Rightarrow> int" where
  "UpdateStatus_value UpdateStatus_UPDATE_FAILED = 0"
| "UpdateStatus_value UpdateStatus_UPDATED_INPLACE = 1"
| "UpdateStatus_value UpdateStatus_UPDATED = 2"

datatype PrepopulateBlobCache =
    PrepopulateBlobCache_kDisable
  | PrepopulateBlobCache_kFlushOnly

fun PrepopulateBlobCache_value :: "PrepopulateBlobCache \<Rightarrow> int" where
  "PrepopulateBlobCache_value PrepopulateBlobCache_kDisable = 0"
| "PrepopulateBlobCache_value PrepopulateBlobCache_kFlushOnly = 1"

datatype CompactionStopStyle =
    CompactionStopStyle_kCompactionStopStyleSimilarSize
  | CompactionStopStyle_kCompactionStopStyleTotalSize

fun CompactionStopStyle_value :: "CompactionStopStyle \<Rightarrow> int" where
  "CompactionStopStyle_value CompactionStopStyle_kCompactionStopStyleSimilarSize = 0"
| "CompactionStopStyle_value CompactionStopStyle_kCompactionStopStyleTotalSize = 1"

datatype ChecksumType =
    ChecksumType_kNoChecksum
  | ChecksumType_kCRC32c
  | ChecksumType_kxxHash
  | ChecksumType_kxxHash64
  | ChecksumType_kXXH3

fun ChecksumType_value :: "ChecksumType \<Rightarrow> int" where
  "ChecksumType_value ChecksumType_kNoChecksum = 0"
| "ChecksumType_value ChecksumType_kCRC32c = 1"
| "ChecksumType_value ChecksumType_kxxHash = 2"
| "ChecksumType_value ChecksumType_kxxHash64 = 3"
| "ChecksumType_value ChecksumType_kXXH3 = 4"

datatype PinningTier =
    PinningTier_kFallback
  | PinningTier_kNone
  | PinningTier_kFlushedAndSimilar
  | PinningTier_kAll

fun PinningTier_value :: "PinningTier \<Rightarrow> int" where
  "PinningTier_value PinningTier_kFallback = 0"
| "PinningTier_value PinningTier_kNone = 1"
| "PinningTier_value PinningTier_kFlushedAndSimilar = 2"
| "PinningTier_value PinningTier_kAll = 3"

datatype Decision =
    Decision_kEnabled
  | Decision_kDisabled
  | Decision_kFallback

fun Decision_value :: "Decision \<Rightarrow> int" where
  "Decision_value Decision_kEnabled = 0"
| "Decision_value Decision_kDisabled = 1"
| "Decision_value Decision_kFallback = 2"

datatype IndexType =
    IndexType_kBinarySearch
  | IndexType_kHashSearch
  | IndexType_kTwoLevelIndexSearch
  | IndexType_kBinarySearchWithFirstKey

fun IndexType_value :: "IndexType \<Rightarrow> int" where
  "IndexType_value IndexType_kBinarySearch = 0"
| "IndexType_value IndexType_kHashSearch = 1"
| "IndexType_value IndexType_kTwoLevelIndexSearch = 2"
| "IndexType_value IndexType_kBinarySearchWithFirstKey = 3"

datatype DataBlockIndexType =
    DataBlockIndexType_kDataBlockBinarySearch
  | DataBlockIndexType_kDataBlockBinaryAndHash

fun DataBlockIndexType_value :: "DataBlockIndexType \<Rightarrow> int" where
  "DataBlockIndexType_value DataBlockIndexType_kDataBlockBinarySearch = 0"
| "DataBlockIndexType_value DataBlockIndexType_kDataBlockBinaryAndHash = 1"

datatype IndexShorteningMode =
    IndexShorteningMode_kNoShortening
  | IndexShorteningMode_kShortenSeparators
  | IndexShorteningMode_kShortenSeparatorsAndSuccessor

fun IndexShorteningMode_value :: "IndexShorteningMode \<Rightarrow> int" where
  "IndexShorteningMode_value IndexShorteningMode_kNoShortening = 0"
| "IndexShorteningMode_value IndexShorteningMode_kShortenSeparators = 1"
| "IndexShorteningMode_value IndexShorteningMode_kShortenSeparatorsAndSuccessor = 2"

datatype PrepopulateBlockCache =
    PrepopulateBlockCache_kDisable
  | PrepopulateBlockCache_kFlushOnly

fun PrepopulateBlockCache_value :: "PrepopulateBlockCache \<Rightarrow> int" where
  "PrepopulateBlockCache_value PrepopulateBlockCache_kDisable = 0"
| "PrepopulateBlockCache_value PrepopulateBlockCache_kFlushOnly = 1"

datatype CacheEntryRole =
    CacheEntryRole_kDataBlock
  | CacheEntryRole_kFilterBlock
  | CacheEntryRole_kFilterMetaBlock
  | CacheEntryRole_kDeprecatedFilterBlock
  | CacheEntryRole_kIndexBlock
  | CacheEntryRole_kOtherBlock
  | CacheEntryRole_kWriteBuffer
  | CacheEntryRole_kCompressionDictionaryBuildingBuffer
  | CacheEntryRole_kFilterConstruction
  | CacheEntryRole_kBlockBasedTableReader
  | CacheEntryRole_kFileMetadata
  | CacheEntryRole_kBlobValue
  | CacheEntryRole_kBlobCache
  | CacheEntryRole_kMisc

fun CacheEntryRole_value :: "CacheEntryRole \<Rightarrow> int" where
  "CacheEntryRole_value CacheEntryRole_kDataBlock = 0"
| "CacheEntryRole_value CacheEntryRole_kFilterBlock = 1"
| "CacheEntryRole_value CacheEntryRole_kFilterMetaBlock = 2"
| "CacheEntryRole_value CacheEntryRole_kDeprecatedFilterBlock = 3"
| "CacheEntryRole_value CacheEntryRole_kIndexBlock = 4"
| "CacheEntryRole_value CacheEntryRole_kOtherBlock = 5"
| "CacheEntryRole_value CacheEntryRole_kWriteBuffer = 6"
| "CacheEntryRole_value CacheEntryRole_kCompressionDictionaryBuildingBuffer = 7"
| "CacheEntryRole_value CacheEntryRole_kFilterConstruction = 8"
| "CacheEntryRole_value CacheEntryRole_kBlockBasedTableReader = 9"
| "CacheEntryRole_value CacheEntryRole_kFileMetadata = 10"
| "CacheEntryRole_value CacheEntryRole_kBlobValue = 11"
| "CacheEntryRole_value CacheEntryRole_kBlobCache = 12"
| "CacheEntryRole_value CacheEntryRole_kMisc = 13"

datatype TxnDBWritePolicy =
    TxnDBWritePolicy_WRITE_COMMITTED
  | TxnDBWritePolicy_WRITE_PREPARED
  | TxnDBWritePolicy_WRITE_UNPREPARED

fun TxnDBWritePolicy_value :: "TxnDBWritePolicy \<Rightarrow> int" where
  "TxnDBWritePolicy_value TxnDBWritePolicy_WRITE_COMMITTED = 0"
| "TxnDBWritePolicy_value TxnDBWritePolicy_WRITE_PREPARED = 1"
| "TxnDBWritePolicy_value TxnDBWritePolicy_WRITE_UNPREPARED = 2"

text \<open>
  Enumerations with a fixed underlying type and user-defined values are kept as machine words.
\<close>

type_synonym CompressionType = byte
type_synonym IOActivity = byte
type_synonym VerifyOutputFlags = "32 word"
type_synonym ref = nat

definition kNoCompression :: CompressionType where
  "kNoCompression = 0x00"

definition kDisableCompressionOption :: CompressionType where
  "kDisableCompressionOption = 0xff"

definition IOActivity_kUnknown :: IOActivity where
  "IOActivity_kUnknown = 0xFF"

definition kVerifyNone :: VerifyOutputFlags where
  "kVerifyNone = 0x0"

definition kVerifyBlockChecksum :: VerifyOutputFlags where
  "kVerifyBlockChecksum = push_bit 0 1"

definition kVerifyIteration :: VerifyOutputFlags where
  "kVerifyIteration = push_bit 1 1"

definition kEnableForLocalCompaction :: VerifyOutputFlags where
  "kEnableForLocalCompaction = push_bit 10 1"

definition kEnableForRemoteCompaction :: VerifyOutputFlags where
  "kEnableForRemoteCompaction = push_bit 11 1"

definition kVerifyAll :: VerifyOutputFlags where
  "kVerifyAll = 0xFFFFFFFF"

definition VerifyOutputFlags_or :: "VerifyOutputFlags \<Rightarrow> VerifyOutputFlags \<Rightarrow> VerifyOutputFlags" where
  "VerifyOutputFlags_or lhs rhs = or lhs rhs"

definition VerifyOutputFlags_and :: "VerifyOutputFlags \<Rightarrow> VerifyOutputFlags \<Rightarrow> VerifyOutputFlags" where
  "VerifyOutputFlags_and lhs rhs = and lhs rhs"

definition VerifyOutputFlags_not :: "VerifyOutputFlags \<Rightarrow> bool" where
  "VerifyOutputFlags_not flag \<longleftrightarrow> flag = kVerifyNone"

section \<open>Small structs\<close>

record DbPath =
  dbp_path :: string
  dbp_target_size :: u64

definition DbPath_default :: DbPath where
  "DbPath_default = \<lparr>
     dbp_path = '''',
     dbp_target_size = 0\<rparr>"

record CompressionOptions =
  co_window_bits :: int
  co_level :: int
  co_strategy :: int
  co_max_dict_bytes :: "32 word"
  co_zstd_max_train_bytes :: "32 word"
  co_parallel_threads :: "32 word"
  co_enabled :: bool
  co_max_dict_buffer_bytes :: u64
  co_use_zstd_dict_trainer :: bool
  co_max_compressed_bytes_per_kb :: int
  co_checksum :: bool

definition CompressionOptions_default :: CompressionOptions where
  "CompressionOptions_default = \<lparr>
     co_window_bits = - 14,
     co_level = 32767,
     co_strategy = 0,
     co_max_dict_bytes = 0,
     co_zstd_max_train_bytes = 0,
     co_parallel_threads = 1,
     co_enabled = False,
     co_max_dict_buffer_bytes = 0,
     co_use_zstd_dict_trainer = True,
     co_max_compressed_bytes_per_kb = 896,
     co_checksum = False\<rparr>"

record CompactionOptionsUniversal =
  cou_size_ratio :: "32 word"
  cou_min_merge_width :: "32 word"
  cou_max_merge_width :: "32 word"
  cou_max_size_amplification_percent :: "32 word"
  cou_compression_size_percent :: int
  cou_max_read_amp :: int
  cou_stop_style :: CompactionStopStyle
  cou_allow_trivial_move :: bool
  cou_incremental :: bool
  cou_reduce_file_locking :: bool

definition CompactionOptionsUniversal_default :: CompactionOptionsUniversal where
  "CompactionOptionsUniversal_default = \<lparr>
     cou_size_ratio = 1,
     cou_min_merge_width = 2,
     cou_max_merge_width = - 1,
     cou_max_size_amplification_percent = 200,
     cou_compression_size_percent = - 1,
     cou_max_read_amp = - 1,
     cou_stop_style = CompactionStopStyle_kCompactionStopStyleTotalSize,
     cou_allow_trivial_move = False,
     cou_incremental = False,
     cou_reduce_file_locking = False\<rparr>"

record FileTemperatureAge =
  fta_temperature :: Temperature
  fta_age :: u64

definition FileTemperatureAge_default :: FileTemperatureAge where
  "FileTemperatureAge_default = \<lparr>
     fta_temperature = Temperature_kUnknown,
     fta_age = 0\<rparr>"

record CompactionOptionsFIFO =
  cof_max_table_files_size :: u64
  cof_allow_compaction :: bool
  cof_age_for_warm :: u64
  cof_file_temperature_age_thresholds :: "FileTemperatureAge list"
  cof_allow_trivial_copy_when_change_temperature :: bool
  cof_trivial_copy_buffer_size :: u64

definition CompactionOptionsFIFO_default :: CompactionOptionsFIFO where
  "CompactionOptionsFIFO_default = \<lparr>
     cof_max_table_files_size = 1 * 1024 * 1024 * 1024,
     cof_allow_compaction = False,
     cof_age_for_warm = 0,
     cof_file_temperature_age_thresholds = [],
     cof_allow_trivial_copy_when_change_temperature = False,
     cof_trivial_copy_buffer_size = 4096\<rparr>"

record MetadataCacheOptions =
  mco_top_level_index_pinning :: PinningTier
  mco_partition_pinning :: PinningTier
  mco_unpartitioned_pinning :: PinningTier

definition MetadataCacheOptions_default :: MetadataCacheOptions where
  "MetadataCacheOptions_default = \<lparr>
     mco_top_level_index_pinning = PinningTier_kFallback,
     mco_partition_pinning = PinningTier_kFallback,
     mco_unpartitioned_pinning = PinningTier_kFallback\<rparr>"

record CacheEntryRoleOptions =
  cero_charged :: Decision

definition CacheEntryRoleOptions_default :: CacheEntryRoleOptions where
  "CacheEntryRoleOptions_default = \<lparr>
     cero_charged = Decision_kFallback\<rparr>"

record CacheUsageOptions =
  cuo_options :: CacheEntryRoleOptions
  cuo_options_overrides :: "(CacheEntryRole \<times> CacheEntryRoleOptions) list"

definition CacheUsageOptions_default :: CacheUsageOptions where
  "CacheUsageOptions_default = \<lparr>
     cuo_options = CacheEntryRoleOptions_default,
     cuo_options_overrides = []\<rparr>"

record rocks_consts =
  Env_Default :: "ref option"
  kDefaultLogLevel :: InfoLogLevel
  kHostnameForDbHostId :: string
  BytewiseComparator :: "ref option"
  SkipListFactory_new :: "ref option"
  indeterminate_compression :: CompressionType

type_synonym rocks_lib = rocks_consts

section \<open>Options of reads, writes and transactions\<close>

record ReadOptions_A =
  ro_snapshot :: "ref option"
  ro_timestamp :: "Slice option"
  ro_iter_start_ts :: "Slice option"
  ro_deadline :: int
  ro_io_timeout :: int
  ro_read_tier :: ReadTier
  ro_rate_limiter_priority :: IOPriority
  ro_value_size_soft_limit :: u64
  ro_merge_operand_count_threshold :: "u64 option"
  ro_verify_checksums :: bool
  ro_fill_cache :: bool
  ro_ignore_range_deletions :: bool
  ro_async_io :: bool
  ro_optimize_multiget_for_io :: bool
  ro_readahead_size :: u64

definition ReadOptions_A_default :: ReadOptions_A where
  "ReadOptions_A_default = \<lparr>
     ro_snapshot = None,
     ro_timestamp = None,
     ro_iter_start_ts = None,
     ro_deadline = 0,
     ro_io_timeout = 0,
     ro_read_tier = ReadTier_kReadAllTier,
     ro_rate_limiter_priority = IOPriority_IO_TOTAL,
     ro_value_size_soft_limit = - 1,
     ro_merge_operand_count_threshold = None,
     ro_verify_checksums = True,
     ro_fill_cache = True,
     ro_ignore_range_deletions = False,
     ro_async_io = False,
     ro_optimize_multiget_for_io = True,
     ro_readahead_size = 0\<rparr>"

record ReadOptions_B =
  ro_max_skippable_internal_keys :: u64
  ro_iterate_lower_bound :: "Slice option"
  ro_iterate_upper_bound :: "Slice option"
  ro_tailing :: bool
  ro_managed :: bool
  ro_total_order_seek :: bool
  ro_auto_prefix_mode :: bool
  ro_prefix_same_as_start :: bool
  ro_pin_data :: bool
  ro_adaptive_readahead :: bool

definition ReadOptions_B_default :: ReadOptions_B where
  "ReadOptions_B_default = \<lparr>
     ro_max_skippable_internal_keys = 0,
     ro_iterate_lower_bound = None,
     ro_iterate_upper_bound = None,
     ro_tailing = False,
     ro_managed = False,
     ro_total_order_seek = False,
     ro_auto_prefix_mode = False,
     ro_prefix_same_as_start = False,
     ro_pin_data = False,
     ro_adaptive_readahead = False\<rparr>"

record ReadOptions_C =
  ro_background_purge_on_iterator_cleanup :: bool
  ro_table_filter :: "ref option"
  ro_auto_readahead_size :: bool
  ro_allow_unprepared_value :: bool
  ro_auto_refresh_iterator_with_snapshot :: bool
  ro_table_index_factory :: "ref option"
  ro_io_activity :: IOActivity
  ro_request_id :: "string option"

definition ReadOptions_C_default :: ReadOptions_C where
  "ReadOptions_C_default = \<lparr>
     ro_background_purge_on_iterator_cleanup = False,
     ro_table_filter = None,
     ro_auto_readahead_size = True,
     ro_allow_unprepared_value = False,
     ro_auto_refresh_iterator_with_snapshot = False,
     ro_table_index_factory = None,
     ro_io_activity = IOActivity_kUnknown,
     ro_request_id = None\<rparr>"

record ReadOptions =
  ro_A :: ReadOptions_A
  ro_B :: ReadOptions_B
  ro_C :: ReadOptions_C

definition ReadOptions_default :: ReadOptions where
  "ReadOptions_default = \<lparr>ro_A = ReadOptions_A_default, ro_B = ReadOptions_B_default, ro_C = ReadOptions_C_default\<rparr>"

record WriteOptions =
  wo_sync :: bool
  wo_disableWAL :: bool
  wo_ignore_missing_column_families :: bool
  wo_no_slowdown :: bool
  wo_low_pri :: bool
  wo_memtable_insert_hint_per_batch :: bool
  wo_rate_limiter_priority :: IOPriority
  wo_protection_bytes_per_key :: u64
  wo_io_activity :: IOActivity

definition WriteOptions_default :: WriteOptions where
  "WriteOptions_default = \<lparr>
     wo_sync = False,
     wo_disableWAL = False,
     wo_ignore_missing_column_families = False,
     wo_no_slowdown = False,
     wo_low_pri = False,
     wo_memtable_insert_hint_per_batch = False,
     wo_rate_limiter_priority = IOPriority_IO_TOTAL,
     wo_protection_bytes_per_key = 0,
     wo_io_activity = IOActivity_kUnknown\<rparr>"

record CompactRangeOptions =
  cro_exclusive_manual_compaction :: bool
  cro_change_level :: bool
  cro_target_level :: int
  cro_target_path_id :: "32 word"
  cro_bottommost_level_compaction :: BottommostLevelCompaction
  cro_allow_write_stall :: bool
  cro_max_subcompactions :: "32 word"
  cro_full_history_ts_low :: "Slice option"
  cro_canceled :: "ref option"
  cro_blob_garbage_collection_policy :: BlobGarbageCollectionPolicy
  cro_blob_garbage_collection_age_cutoff :: rat

definition CompactRangeOptions_default :: CompactRangeOptions where
  "CompactRangeOptions_default = \<lparr>
     cro_exclusive_manual_compaction = False,
     cro_change_level = False,
     cro_target_level = - 1,
     cro_target_path_id = 0,
     cro_bottommost_level_compaction = BottommostLevelCompaction_kIfHaveCompactionFilter,
     cro_allow_write_stall = False,
     cro_max_subcompactions = 0,
     cro_full_history_ts_low = None,
     cro_canceled = None,
     cro_blob_garbage_collection_policy = BlobGarbageCollectionPolicy_kUseDefault,
     cro_blob_garbage_collection_age_cutoff = - 1\<rparr>"

record TransactionDBOptions =
  tdo_max_num_locks :: int
  tdo_max_num_deadlocks :: "32 word"
  tdo_num_stripes :: u64
  tdo_transaction_lock_timeout :: int
  tdo_default_lock_timeout :: int
  tdo_custom_mutex_factory :: "ref option"
  tdo_write_policy :: TxnDBWritePolicy
  tdo_rollback_merge_operands :: bool
  tdo_lock_mgr_handle :: "ref option"
  tdo_use_per_key_point_lock_mgr :: bool
  tdo_skip_concurrency_control :: bool
  tdo_default_write_batch_flush_threshold :: int
  tdo_rollback_deletion_type_callback :: "ref option"
  tdo_enable_udt_validation :: bool
  tdo_secondary_indices :: "ref list"
  tdo_txn_commit_bypass_memtable_threshold :: "32 word"
  tdo_wp_snapshot_cache_bits :: u64
  tdo_wp_commit_cache_bits :: u64
  tdo_autogenerate_name :: bool

definition TransactionDBOptions_default :: TransactionDBOptions where
  "TransactionDBOptions_default = \<lparr>
     tdo_max_num_locks = - 1,
     tdo_max_num_deadlocks = 5,
     tdo_num_stripes = 16,
     tdo_transaction_lock_timeout = 1000,
     tdo_default_lock_timeout = 1000,
     tdo_custom_mutex_factory = None,
     tdo_write_policy = TxnDBWritePolicy_WRITE_COMMITTED,
     tdo_rollback_merge_operands = False,
     tdo_lock_mgr_handle = None,
     tdo_use_per_key_point_lock_mgr = False,
     tdo_skip_concurrency_control = False,
     tdo_default_write_batch_flush_threshold = 0,
     tdo_rollback_deletion_type_callback = None,
     tdo_enable_udt_validation = True,
     tdo_secondary_indices = [],
     tdo_txn_commit_bypass_memtable_threshold = - 1,
     tdo_wp_snapshot_cache_bits = 7,
     tdo_wp_commit_cache_bits = 23,
     tdo_autogenerate_name = False\<rparr>"

record TransactionOptions_A =
  txo_set_snapshot :: bool
  txo_deadlock_detect :: bool
  txo_use_only_the_last_commit_time_batch_for_recovery :: bool
  txo_lock_timeout :: int
  txo_deadlock_timeout_us :: int
  txo_expiration :: int
  txo_deadlock_detect_depth :: int
  txo_max_write_batch_size :: u64
  txo_skip_concurrency_control :: bool
  txo_skip_prepare :: bool
  txo_write_batch_flush_threshold :: int
  txo_write_batch_track_timestamp_size :: bool

definition TransactionOptions_A_default :: TransactionOptions_A where
  "TransactionOptions_A_default = \<lparr>
     txo_set_snapshot = False,
     txo_deadlock_detect = False,
     txo_use_only_the_last_commit_time_batch_for_recovery = False,
     txo_lock_timeout = - 1,
     txo_deadlock_timeout_us = 500,
     txo_expiration = - 1,
     txo_deadlock_detect_depth = 50,
     txo_max_write_batch_size = 0,
     txo_skip_concurrency_control = False,
     txo_skip_prepare = True,
     txo_write_batch_flush_threshold = - 1,
     txo_write_batch_track_timestamp_size = False\<rparr>"

record TransactionOptions_B =
  txo_commit_bypass_memtable :: bool
  txo_large_txn_commit_optimize_threshold :: "32 word"
  txo_large_txn_commit_optimize_byte_threshold :: u64

definition TransactionOptions_B_default :: TransactionOptions_B where
  "TransactionOptions_B_default = \<lparr>
     txo_commit_bypass_memtable = False,
     txo_large_txn_commit_optimize_threshold = 0,
     txo_large_txn_commit_optimize_byte_threshold = 0\<rparr>"

record TransactionOptions =
  txo_A :: TransactionOptions_A
  txo_B :: TransactionOptions_B

definition TransactionOptions_default :: TransactionOptions where
  "TransactionOptions_default = \<lparr>txo_A = TransactionOptions_A_default, txo_B = TransactionOptions_B_default\<rparr>"

end
