(* ===== verification/Rocks_Enum_Set.thy ===== *)
theory Rocks_Enum_Set
  imports Prelude
begin

unbundle bit_operations_syntax

text \<open>
  \<^verbatim>\<open>SmallEnumSet\<close> (\<^verbatim>\<open>include/rocksdb/data_structure.h\<close>), the bit sets of enumerators in the option structs
  (\<^verbatim>\<open>FileTypeSet\<close>, \<^verbatim>\<open>CacheEntryRoleSet\<close>).  An enumerator is its number; the template argument \<open>MAX_ENUMERATOR\<close> is the
  argument \<open>M\<close> of every operation.  A failed \<^verbatim>\<open>assert\<close>, or an access beyond the array of pieces, is \<open>None\<close>.  The
  two functions of the namespace \<^verbatim>\<open>detail\<close> have no body in the repository: they are the arguments \<open>ctz\<close> (count
  trailing zero bits) and \<open>ones\<close> (bits set to one), specified by the locale \<open>bit_counts\<close>.
\<close>

section \<open>Representation\<close>

definition kPieceBits :: nat where
  "kPieceBits = 64"

definition kPieceMask :: nat where
  "kPieceMask = 63"

definition kPieceShift :: nat where
  "kPieceShift = 6"

definition kPieceCount :: "nat \<Rightarrow> nat" where
  "kPieceCount M = M div kPieceBits + 1"

record SmallEnumSet =
  pieces :: "u64 list"

definition SmallEnumSet_empty_ctor :: "nat \<Rightarrow> SmallEnumSet" where
  "SmallEnumSet_empty_ctor M = \<lparr>pieces = replicate (kPieceCount M) 0\<rparr>"

text \<open>The index of the piece of a position, the same for \<^verbatim>\<open>GetPiece\<close> and \<^verbatim>\<open>RefPiece\<close>.\<close>

definition piece_index :: "nat \<Rightarrow> nat \<Rightarrow> nat" where
  "piece_index M pos = (if kPieceCount M = 1 then 0 else drop_bit kPieceShift pos)"

definition GetPiece :: "nat \<Rightarrow> nat \<Rightarrow> SmallEnumSet \<Rightarrow> u64 option" where
  "GetPiece M pos s = (let i = piece_index M pos in if i < length (pieces s) then Some (pieces s ! i) else None)"

definition RefPiece :: "nat \<Rightarrow> nat \<Rightarrow> u64 \<Rightarrow> SmallEnumSet \<Rightarrow> SmallEnumSet" where
  "RefPiece M pos p s = s\<lparr>pieces := (pieces s)[piece_index M pos := p]\<rparr>"

definition piece_bit :: "nat \<Rightarrow> u64" where
  "piece_bit v = push_bit (v AND kPieceMask) 1"

section \<open>Operations\<close>

definition SmallEnumSet_All :: "nat \<Rightarrow> SmallEnumSet" where
  "SmallEnumSet_All M = \<lparr>pieces = replicate (kPieceCount M - 1) (NOT 0) @
     [if (M + 1) AND kPieceMask \<noteq> 0 then push_bit ((M + 1) AND kPieceMask) 1 - 1 else NOT 0]\<rparr>"

definition SmallEnumSet_equal :: "SmallEnumSet \<Rightarrow> SmallEnumSet \<Rightarrow> bool" where
  "SmallEnumSet_equal s t \<longleftrightarrow> pieces s = pieces t"

definition SmallEnumSet_not_equal :: "SmallEnumSet \<Rightarrow> SmallEnumSet \<Rightarrow> bool" where
  "SmallEnumSet_not_equal s t \<longleftrightarrow> \<not> SmallEnumSet_equal s t"

definition SmallEnumSet_Contains :: "nat \<Rightarrow> nat \<Rightarrow> SmallEnumSet \<Rightarrow> bool option" where
  "SmallEnumSet_Contains M v s =
     (if v \<le> M then do { p \<leftarrow> GetPiece M v s; Some (p AND piece_bit v \<noteq> 0) } else None)"

definition SmallEnumSet_empty :: "SmallEnumSet \<Rightarrow> bool" where
  "SmallEnumSet_empty s \<longleftrightarrow> (\<forall>p \<in> set (pieces s). p = 0)"

definition SmallEnumSet_count :: "(u64 \<Rightarrow> nat) \<Rightarrow> SmallEnumSet \<Rightarrow> nat" where
  "SmallEnumSet_count ones s = sum_list (map ones (pieces s))"

definition SmallEnumSet_Add :: "nat \<Rightarrow> nat \<Rightarrow> SmallEnumSet \<Rightarrow> (bool \<times> SmallEnumSet) option" where
  "SmallEnumSet_Add M v s =
     (if v \<le> M then do {
        old_piece \<leftarrow> GetPiece M v s;
        let piece = old_piece OR piece_bit v;
        Some (old_piece \<noteq> piece, RefPiece M v piece s)
      } else None)"

definition SmallEnumSet_Remove :: "nat \<Rightarrow> nat \<Rightarrow> SmallEnumSet \<Rightarrow> (bool \<times> SmallEnumSet) option" where
  "SmallEnumSet_Remove M v s =
     (if v \<le> M then do {
        old_piece \<leftarrow> GetPiece M v s;
        let piece = old_piece AND NOT (piece_bit v);
        Some (old_piece \<noteq> piece, RefPiece M v piece s)
      } else None)"

text \<open>The applicative operations, with one argument and with several.\<close>

definition SmallEnumSet_With :: "nat \<Rightarrow> nat \<Rightarrow> SmallEnumSet \<Rightarrow> SmallEnumSet option" where
  "SmallEnumSet_With M v s = map_option snd (SmallEnumSet_Add M v s)"

definition SmallEnumSet_Without :: "nat \<Rightarrow> nat \<Rightarrow> SmallEnumSet \<Rightarrow> SmallEnumSet option" where
  "SmallEnumSet_Without M v s = map_option snd (SmallEnumSet_Remove M v s)"

fun SmallEnumSet_Withs :: "nat \<Rightarrow> nat list \<Rightarrow> SmallEnumSet \<Rightarrow> SmallEnumSet option" where
  "SmallEnumSet_Withs M [] s = Some s"
| "SmallEnumSet_Withs M (v # vs) s = do { s \<leftarrow> SmallEnumSet_With M v s; SmallEnumSet_Withs M vs s }"

fun SmallEnumSet_Withouts :: "nat \<Rightarrow> nat list \<Rightarrow> SmallEnumSet \<Rightarrow> SmallEnumSet option" where
  "SmallEnumSet_Withouts M [] s = Some s"
| "SmallEnumSet_Withouts M (v # vs) s = do { s \<leftarrow> SmallEnumSet_Without M v s; SmallEnumSet_Withouts M vs s }"

fun SmallEnumSet_ctor :: "nat \<Rightarrow> nat list \<Rightarrow> SmallEnumSet option" where
  "SmallEnumSet_ctor M [] = Some (SmallEnumSet_empty_ctor M)"
| "SmallEnumSet_ctor M (v # vs) = do { s \<leftarrow> SmallEnumSet_ctor M vs; SmallEnumSet_With M v s }"

section \<open>Iteration\<close>

text \<open>\<^verbatim>\<open>& ~kPieceMask\<close> clears the low six bits.\<close>

definition next_piece :: "nat \<Rightarrow> nat" where
  "next_piece pos = push_bit kPieceShift (drop_bit kPieceShift (pos + kPieceBits))"

lemma next_piece_eq: "next_piece pos = pos div 64 * 64 + 64"
proof -
  have "(pos + 64) div 64 = pos div 64 + 1" by simp
  then show ?thesis by (simp add: next_piece_def kPieceShift_def kPieceBits_def push_bit_eq_mult drop_bit_eq_div)
qed

function SkipUnset :: "(u64 \<Rightarrow> nat) \<Rightarrow> nat \<Rightarrow> nat \<Rightarrow> SmallEnumSet \<Rightarrow> nat option" where
  "SkipUnset ctz M pos s =
     (if pos \<le> M
      then do {
        p \<leftarrow> GetPiece M pos s;
        let remainder = drop_bit (pos AND kPieceMask) p;
        if remainder \<noteq> 0 then Some (pos + ctz remainder) else SkipUnset ctz M (next_piece pos) s
      }
      else Some (M + 1))"
  by pat_completeness auto
termination
  by (relation "measure (\<lambda>(ctz, M, pos, s). M + 1 - pos)") (auto simp: next_piece_eq)

declare SkipUnset.simps [simp del]

text \<open>The iterator is its position; the set it points to is an argument.\<close>

definition SmallEnumSet_begin :: "(u64 \<Rightarrow> nat) \<Rightarrow> nat \<Rightarrow> SmallEnumSet \<Rightarrow> nat option" where
  "SmallEnumSet_begin ctz M s = SkipUnset ctz M 0 s"

definition SmallEnumSet_end :: "nat \<Rightarrow> nat" where
  "SmallEnumSet_end M = M + 1"

definition const_iterator_next :: "(u64 \<Rightarrow> nat) \<Rightarrow> nat \<Rightarrow> SmallEnumSet \<Rightarrow> nat \<Rightarrow> nat option" where
  "const_iterator_next ctz M s pos = (if pos < M then SkipUnset ctz M (pos + 1) s else Some (M + 1))"

definition const_iterator_deref :: "nat \<Rightarrow> nat \<Rightarrow> nat option" where
  "const_iterator_deref M pos = (if pos \<le> M then Some pos else None)"

text \<open>A range-based \<^verbatim>\<open>for\<close> over the set, from an iterator on; \<open>n\<close> bounds the number of rounds.\<close>

fun for_each :: "(u64 \<Rightarrow> nat) \<Rightarrow> nat \<Rightarrow> SmallEnumSet \<Rightarrow> nat \<Rightarrow> nat \<Rightarrow> nat list option" where
  "for_each ctz M s 0 pos = None"
| "for_each ctz M s (Suc n) pos =
     (if pos = SmallEnumSet_end M then Some []
      else do {
        v \<leftarrow> const_iterator_deref M pos;
        pos \<leftarrow> const_iterator_next ctz M s pos;
        vs \<leftarrow> for_each ctz M s n pos;
        Some (v # vs)
      })"

definition elements :: "(u64 \<Rightarrow> nat) \<Rightarrow> nat \<Rightarrow> SmallEnumSet \<Rightarrow> nat list option" where
  "elements ctz M s = do { pos \<leftarrow> SmallEnumSet_begin ctz M s; for_each ctz M s (M + 2) pos }"

section \<open>Abstraction\<close>

definition elems :: "SmallEnumSet \<Rightarrow> nat set" where
  "elems s = {v. v div 64 < length (pieces s) \<and> bit (pieces s ! (v div 64)) (v mod 64)}"

definition enum_set_wf :: "nat \<Rightarrow> SmallEnumSet \<Rightarrow> bool" where
  "enum_set_wf M s \<longleftrightarrow> length (pieces s) = kPieceCount M \<and> elems s \<subseteq> {..M}"

lemma piece_index_eq: "v \<le> M \<Longrightarrow> piece_index M v = v div 64"
  by (auto simp: piece_index_def kPieceCount_def kPieceBits_def kPieceShift_def drop_bit_eq_div)

lemma and_kPieceMask: "v AND kPieceMask = v mod 64"
proof -
  have "v AND mask 6 = take_bit 6 v" by (rule take_bit_eq_mask [symmetric])
  then show ?thesis by (simp add: kPieceMask_def take_bit_eq_mod mask_eq_exp_minus_1)
qed

lemma u64_bit_less: "bit (x :: u64) i \<Longrightarrow> i < 64"
  using bit_imp_le_length [of x i] by simp

lemma u64_eqI: "(\<And>i. i < 64 \<Longrightarrow> bit (x :: u64) i \<longleftrightarrow> bit y i) \<Longrightarrow> x = y"
  by (rule bit_word_eqI) simp

lemma bit_piece_bit: "bit (piece_bit v) i \<longleftrightarrow> i = v mod 64"
  by (auto simp: piece_bit_def and_kPieceMask bit_exp_iff possible_bit_word)

lemma piece_bit_or: "p \<noteq> p OR piece_bit v \<longleftrightarrow> \<not> bit p (v mod 64)"
  by (metis bit_or_iff bit_piece_bit u64_eqI)

lemma piece_bit_and: "p AND piece_bit v = 0 \<longleftrightarrow> \<not> bit p (v mod 64)"
proof
  assume "p AND piece_bit v = 0"
  then have "\<not> bit (p AND piece_bit v) (v mod 64)" by simp
  then show "\<not> bit p (v mod 64)" by (simp add: bit_and_iff bit_piece_bit)
next
  assume "\<not> bit p (v mod 64)"
  then show "p AND piece_bit v = 0" by (intro u64_eqI) (auto simp: bit_and_iff bit_piece_bit)
qed

lemma bit_and_not_piece_bit: "bit (p AND NOT (piece_bit v)) i \<longleftrightarrow> bit p i \<and> i \<noteq> v mod 64"
  using u64_bit_less [of p i] by (auto simp: bit_and_iff bit_not_iff bit_piece_bit possible_bit_word)

lemma piece_bit_and_not: "p \<noteq> p AND NOT (piece_bit v) \<longleftrightarrow> bit p (v mod 64)"
  by (metis bit_and_not_piece_bit u64_eqI)

lemma wf_piece: "enum_set_wf M s \<Longrightarrow> v \<le> M \<Longrightarrow> v div 64 < length (pieces s)"
  by (auto simp: enum_set_wf_def kPieceCount_def kPieceBits_def less_Suc_eq_le div_le_mono)

lemma wf_elems: "enum_set_wf M s \<Longrightarrow> v \<le> M \<Longrightarrow> v \<in> elems s \<longleftrightarrow> bit (pieces s ! (v div 64)) (v mod 64)"
  using wf_piece by (auto simp: elems_def)

lemma wf_finite: "enum_set_wf M s \<Longrightarrow> finite (elems s)"
  by (auto simp: enum_set_wf_def intro: finite_subset)

lemma GetPiece_wf: "enum_set_wf M s \<Longrightarrow> v \<le> M \<Longrightarrow> GetPiece M v s = Some (pieces s ! (v div 64))"
  by (simp add: GetPiece_def piece_index_eq wf_piece)

lemma elems_RefPiece:
  assumes "enum_set_wf M s" "v \<le> M" "\<And>i. bit p i \<longleftrightarrow> (if i = v mod 64 then b else bit (pieces s ! (v div 64)) i)"
  shows "elems (RefPiece M v p s) = (if b then insert v (elems s) else elems s - {v})"
    "enum_set_wf M (RefPiece M v p s)"
proof -
  note l = wf_piece [OF assms(1,2)]
  have eq: "w div 64 = v div 64 \<Longrightarrow> w mod 64 = v mod 64 \<Longrightarrow> w = v" for w :: nat
    using div_mult_mod_eq [of w 64] div_mult_mod_eq [of v 64] by linarith
  show e: "elems (RefPiece M v p s) = (if b then insert v (elems s) else elems s - {v})"
    using l assms(3) eq
    by (auto simp: elems_def RefPiece_def piece_index_eq [OF assms(2)] nth_list_update split: if_splits)
  then show "enum_set_wf M (RefPiece M v p s)"
    using assms(1,2) by (auto simp: enum_set_wf_def RefPiece_def split: if_splits)
qed

lemma Contains_spec: "enum_set_wf M s \<Longrightarrow> v \<le> M \<Longrightarrow> SmallEnumSet_Contains M v s = Some (v \<in> elems s)"
  by (simp add: SmallEnumSet_Contains_def GetPiece_wf piece_bit_and wf_elems)

lemma Add_spec:
  assumes "enum_set_wf M s" "v \<le> M"
  shows "\<exists>s'. SmallEnumSet_Add M v s = Some (v \<notin> elems s, s') \<and> enum_set_wf M s' \<and> elems s' = insert v (elems s)"
proof -
  let ?p = "pieces s ! (v div 64)"
  have b: "bit (?p OR piece_bit v) i \<longleftrightarrow> (if i = v mod 64 then True else bit ?p i)" for i
    by (simp add: bit_or_iff bit_piece_bit)
  show ?thesis
    using elems_RefPiece [OF assms b] GetPiece_wf [OF assms] assms(2) piece_bit_or [of ?p v] wf_elems [OF assms]
    by (simp add: SmallEnumSet_Add_def Let_def)
qed

lemma Remove_spec:
  assumes "enum_set_wf M s" "v \<le> M"
  shows "\<exists>s'. SmallEnumSet_Remove M v s = Some (v \<in> elems s, s') \<and> enum_set_wf M s' \<and> elems s' = elems s - {v}"
proof -
  let ?p = "pieces s ! (v div 64)"
  have b: "bit (?p AND NOT (piece_bit v)) i \<longleftrightarrow> (if i = v mod 64 then False else bit ?p i)" for i
    by (simp add: bit_and_not_piece_bit)
  show ?thesis
    using elems_RefPiece [OF assms b] GetPiece_wf [OF assms] assms(2) piece_bit_and_not [of ?p v] wf_elems [OF assms]
    by (simp add: SmallEnumSet_Remove_def Let_def)
qed

lemma With_spec:
  assumes "enum_set_wf M s" "v \<le> M"
  shows "\<exists>s'. SmallEnumSet_With M v s = Some s' \<and> enum_set_wf M s' \<and> elems s' = insert v (elems s)"
  using Add_spec [OF assms] by (auto simp: SmallEnumSet_With_def)

lemma Without_spec:
  assumes "enum_set_wf M s" "v \<le> M"
  shows "\<exists>s'. SmallEnumSet_Without M v s = Some s' \<and> enum_set_wf M s' \<and> elems s' = elems s - {v}"
  using Remove_spec [OF assms] by (auto simp: SmallEnumSet_Without_def)

lemma Withs_spec:
  "enum_set_wf M s \<Longrightarrow> set vs \<subseteq> {..M} \<Longrightarrow>
     \<exists>s'. SmallEnumSet_Withs M vs s = Some s' \<and> enum_set_wf M s' \<and> elems s' = elems s \<union> set vs"
proof (induction vs arbitrary: s)
  case (Cons v vs)
  then show ?case using With_spec [of M s v] by fastforce
qed simp

lemma Withouts_spec:
  "enum_set_wf M s \<Longrightarrow> set vs \<subseteq> {..M} \<Longrightarrow>
     \<exists>s'. SmallEnumSet_Withouts M vs s = Some s' \<and> enum_set_wf M s' \<and> elems s' = elems s - set vs"
proof (induction vs arbitrary: s)
  case (Cons v vs)
  then show ?case using Without_spec [of M s v] by fastforce
qed simp

lemma empty_ctor_spec: "enum_set_wf M (SmallEnumSet_empty_ctor M)" "elems (SmallEnumSet_empty_ctor M) = {}"
  by (auto simp: enum_set_wf_def elems_def SmallEnumSet_empty_ctor_def)

lemma ctor_spec:
  "set vs \<subseteq> {..M} \<Longrightarrow> \<exists>s. SmallEnumSet_ctor M vs = Some s \<and> enum_set_wf M s \<and> elems s = set vs"
proof (induction vs)
  case (Cons v vs)
  then obtain s where "SmallEnumSet_ctor M vs = Some s" "enum_set_wf M s" "elems s = set vs" by auto
  with Cons.prems With_spec [of M s v] show ?case by auto
qed (simp add: empty_ctor_spec)

lemma elems_position:
  assumes "k < length (pieces s)" "i < 64"
  shows "64 * k + i \<in> elems s \<longleftrightarrow> bit (pieces s ! k) i"
  using assms by (simp add: elems_def)

lemma empty_spec: "SmallEnumSet_empty s \<longleftrightarrow> elems s = {}"
proof
  assume e: "elems s = {}"
  have "pieces s ! k = 0" if "k < length (pieces s)" for k
    using elems_position [OF that] e by (intro u64_eqI) simp
  then show "SmallEnumSet_empty s" by (auto simp: SmallEnumSet_empty_def in_set_conv_nth)
next
  assume "SmallEnumSet_empty s"
  then have "pieces s ! k = 0" if "k < length (pieces s)" for k
    using that by (simp add: SmallEnumSet_empty_def)
  then show "elems s = {}" by (auto simp: elems_def)
qed

lemma equal_spec:
  assumes "enum_set_wf M s" "enum_set_wf M t"
  shows "SmallEnumSet_equal s t \<longleftrightarrow> elems s = elems t"
proof
  assume e: "elems s = elems t"
  have l: "length (pieces s) = length (pieces t)" using assms by (simp add: enum_set_wf_def)
  have "pieces s ! k = pieces t ! k" if "k < length (pieces s)" for k
    using elems_position [of k s] elems_position [of k t] that l e by (intro u64_eqI) simp
  with l show "SmallEnumSet_equal s t" by (simp add: SmallEnumSet_equal_def list_eq_iff_nth_eq)
qed (simp add: SmallEnumSet_equal_def elems_def)

lemma bit_all_ones: "bit (NOT 0 :: u64) i \<longleftrightarrow> i < 64"
  by (simp add: bit_not_iff possible_bit_word)

lemma bit_low_ones: "n < 64 \<Longrightarrow> bit (push_bit n 1 - 1 :: u64) i \<longleftrightarrow> i < n"
  using bit_mask_iff [where ?'a = u64, of n i] by (auto simp: mask_eq_exp_minus_1 push_bit_eq_mult possible_bit_word)

lemma piece_position_le:
  fixes v M :: nat
  shows "v div 64 \<le> M div 64 \<and> (v div 64 < M div 64 \<or> (M + 1) mod 64 = 0 \<or> v mod 64 < (M + 1) mod 64) \<longleftrightarrow> v \<le> M"
proof -
  define a b c d where "a = v div 64" and "b = v mod 64" and "c = M div 64" and "d = M mod 64"
  have v: "v = 64 * a + b" "b < 64" and M: "M = 64 * c + d" "d < 64" by (simp_all add: a_def b_def c_def d_def)
  have m: "(M + 1) mod 64 = (if d = 63 then 0 else d + 1)"
    by (simp add: d_def mod_Suc)
  have "a \<le> c \<and> (a < c \<or> d = 63 \<or> b \<le> d) \<longleftrightarrow> v \<le> M"
    using v M by linarith
  then show ?thesis
    unfolding m a_def [symmetric] b_def [symmetric] c_def [symmetric] by auto
qed

lemma All_spec: "enum_set_wf M (SmallEnumSet_All M)" "elems (SmallEnumSet_All M) = {..M}"
proof -
  let ?ps = "pieces (SmallEnumSet_All M)"
  have l: "length ?ps = M div 64 + 1"
    by (simp add: SmallEnumSet_All_def kPieceCount_def kPieceBits_def)
  have b: "bit (?ps ! k) i \<longleftrightarrow> i < 64 \<and> (k < M div 64 \<or> (M + 1) mod 64 = 0 \<or> i < (M + 1) mod 64)"
    if "k \<le> M div 64" for k i
    using that bit_low_ones [of "(M + 1) mod 64" i]
    by (auto simp: SmallEnumSet_All_def kPieceCount_def kPieceBits_def and_kPieceMask nth_append bit_all_ones)
  have "v \<in> elems (SmallEnumSet_All M) \<longleftrightarrow> v \<le> M" for v
  proof -
    have "v \<in> elems (SmallEnumSet_All M) \<longleftrightarrow> v div 64 \<le> M div 64 \<and>
        (v div 64 < M div 64 \<or> (M + 1) mod 64 = 0 \<or> v mod 64 < (M + 1) mod 64)"
      using b by (auto simp: elems_def l less_Suc_eq_le)
    also have "\<dots> \<longleftrightarrow> v \<le> M" by (rule piece_position_le)
    finally show ?thesis .
  qed
  then show "elems (SmallEnumSet_All M) = {..M}" by auto
  then show "enum_set_wf M (SmallEnumSet_All M)"
    by (simp add: enum_set_wf_def l kPieceCount_def kPieceBits_def)
qed

section \<open>Counting and iterating\<close>

text \<open>What the two functions of \<^verbatim>\<open>detail\<close> promise.\<close>

locale bit_counts =
  fixes ctz :: "u64 \<Rightarrow> nat" and ones :: "u64 \<Rightarrow> nat"
  assumes ctz_set: "x \<noteq> 0 \<Longrightarrow> bit x (ctz x)"
    and ctz_least: "x \<noteq> 0 \<Longrightarrow> i < ctz x \<Longrightarrow> \<not> bit x i"
    and ones_card: "ones x = card {i. bit x i}"

definition next_from :: "nat \<Rightarrow> nat set \<Rightarrow> nat \<Rightarrow> nat" where
  "next_from M A pos = Min (insert (M + 1) {v \<in> A. pos \<le> v})"

lemma next_from_beyond: "A \<subseteq> {..M} \<Longrightarrow> M < pos \<Longrightarrow> next_from M A pos = M + 1"
proof -
  assume "A \<subseteq> {..M}" "M < pos"
  then have "{v \<in> A. pos \<le> v} = {}" by force
  then show ?thesis unfolding next_from_def by (simp only: Min_singleton)
qed

lemma next_from_eqI:
  assumes "A \<subseteq> {..M}" "v \<in> A" "pos \<le> v" "\<And>w. w \<in> A \<Longrightarrow> pos \<le> w \<Longrightarrow> v \<le> w"
  shows "next_from M A pos = v"
proof -
  have "finite A" using assms(1) finite_subset by blast
  moreover have "v \<le> M" using assms(1,2) by auto
  ultimately show ?thesis using assms(2-4) unfolding next_from_def by (intro Min_eqI) auto
qed

lemma next_from_skip:
  assumes "\<And>v. v \<in> A \<Longrightarrow> pos \<le> v \<Longrightarrow> pos' \<le> v" "pos \<le> pos'"
  shows "next_from M A pos = next_from M A pos'"
proof -
  have "{v \<in> A. pos \<le> v} = {v \<in> A. pos' \<le> v}" using assms by force
  then show ?thesis by (simp add: next_from_def)
qed

lemma next_from_le:
  assumes "finite A" "v \<in> A" "pos \<le> v"
  shows "next_from M A pos \<le> v"
  using assms unfolding next_from_def by (intro Min_le) auto

lemma next_from_in:
  assumes "finite A"
  shows "next_from M A pos = M + 1 \<or> next_from M A pos \<in> A \<and> pos \<le> next_from M A pos"
  using Min_in [of "insert (M + 1) {v \<in> A. pos \<le> v}"] assms by (auto simp: next_from_def)

text \<open>The bits of a piece from a position on.\<close>

lemma bit_remainder:
  fixes s :: SmallEnumSet
  assumes "enum_set_wf M s" "pos \<le> M"
  shows "bit (drop_bit (pos mod 64) (pieces s ! (pos div 64))) i \<longleftrightarrow> pos mod 64 + i < 64 \<and> pos + i \<in> elems s"
proof (cases "pos mod 64 + i < 64")
  case True
  have p: "pos + i = 64 * (pos div 64) + (pos mod 64 + i)" by simp
  have "pos + i \<in> elems s \<longleftrightarrow> bit (pieces s ! (pos div 64)) (pos mod 64 + i)"
    unfolding p by (rule elems_position [OF wf_piece [OF assms] True])
  with True show ?thesis by (simp add: bit_drop_bit_eq)
next
  case False
  then show ?thesis using u64_bit_less by (auto simp: bit_drop_bit_eq)
qed

lemma sorted_list_of_set_from:
  fixes A :: "nat set"
  assumes "finite A" "k \<in> A"
  shows "sorted_list_of_set {v \<in> A. k \<le> v} = k # sorted_list_of_set {v \<in> A. k + 1 \<le> v}"
proof -
  have "Min {v \<in> A. k \<le> v} = k" using assms by (intro Min_eqI) auto
  moreover have "{v \<in> A. k \<le> v} - {k} = {v \<in> A. k + 1 \<le> v}" by auto
  ultimately show ?thesis using sorted_list_of_set_nonempty [of "{v \<in> A. k \<le> v}"] assms by auto
qed

lemma finite_bits: "finite {i. bit (p :: u64) i}"
  using u64_bit_less by (auto intro: finite_subset [of _ "{..<64}"])

lemma finite_elems: "finite (elems s)"
proof (rule finite_subset)
  show "elems s \<subseteq> {..< 64 * length (pieces s)}"
    by (auto simp: elems_def div_less_iff_less_mult mult.commute)
qed simp

lemma elems_snoc:
  "elems \<lparr>pieces = ps @ [p]\<rparr> = elems \<lparr>pieces = ps\<rparr> \<union> (+) (64 * length ps) ` {i. bit p i}"
proof -
  have "v \<in> elems \<lparr>pieces = ps @ [p]\<rparr> \<longleftrightarrow> v \<in> elems \<lparr>pieces = ps\<rparr> \<or> v \<in> (+) (64 * length ps) ` {i. bit p i}" for v
  proof (cases "v div 64 = length ps")
    case True
    then have "v = 64 * length ps + v mod 64" using mult_div_mod_eq [of 64 v] by simp
    then show ?thesis using True u64_bit_less by (auto simp: elems_def)
  next
    case False
    then show ?thesis using u64_bit_less by (auto simp: elems_def nth_append less_Suc_eq)
  qed
  then show ?thesis by blast
qed

context bit_counts
begin

lemma remainder_spec:
  assumes wf: "enum_set_wf M s" and pos: "pos \<le> M"
    and r: "r = drop_bit (pos mod 64) (pieces s ! (pos div 64))" and nz: "r \<noteq> 0"
  shows "next_from M (elems s) pos = pos + ctz r"
proof (rule next_from_eqI)
  show "elems s \<subseteq> {..M}" using wf by (simp add: enum_set_wf_def)
  show "pos + ctz r \<in> elems s" using ctz_set [OF nz] unfolding r bit_remainder [OF wf pos] by simp
  have b: "pos mod 64 + ctz r < 64" using ctz_set [OF nz] unfolding r bit_remainder [OF wf pos] by simp
  show "pos + ctz r \<le> w" if w: "w \<in> elems s" "pos \<le> w" for w
  proof (rule ccontr)
    assume "\<not> pos + ctz r \<le> w"
    then have d: "w - pos < ctz r" using w(2) by simp
    then have "\<not> bit r (w - pos)" by (rule ctz_least [OF nz])
    with w d b show False unfolding r bit_remainder [OF wf pos] by simp
  qed
qed simp

lemma SkipUnset_spec:
  assumes wf: "enum_set_wf M s"
  shows "SkipUnset ctz M pos s = Some (next_from M (elems s) pos)"
proof (induction "M + 1 - pos" arbitrary: pos rule: less_induct)
  case less
  show ?case
  proof (cases "pos \<le> M")
    case pos: True
    let ?r = "drop_bit (pos mod 64) (pieces s ! (pos div 64))"
    have unfold: "SkipUnset ctz M pos s = (if ?r \<noteq> 0 then Some (pos + ctz ?r) else SkipUnset ctz M (next_piece pos) s)"
      using pos by (subst SkipUnset.simps) (simp add: GetPiece_wf [OF wf] and_kPieceMask Let_def)
    show ?thesis
    proof (cases "?r = 0")
      case True
      have "next_piece pos \<le> v" if "v \<in> elems s" "pos \<le> v" for v
      proof -
        have "\<not> pos mod 64 + (v - pos) < 64"
          using bit_remainder [OF wf pos, of "v - pos"] that True by simp
        then show ?thesis using that mult_div_mod_eq [of 64 pos] unfolding next_piece_eq by linarith
      qed
      moreover have l: "pos < next_piece pos" unfolding next_piece_eq by linarith
      ultimately have "next_from M (elems s) pos = next_from M (elems s) (next_piece pos)"
        by (intro next_from_skip) auto
      moreover have "M + 1 - next_piece pos < M + 1 - pos" using l pos by linarith
      ultimately show ?thesis using less unfold True by simp
    qed (simp add: unfold remainder_spec [OF wf pos refl])
  next
    case False
    then show ?thesis using wf next_from_beyond [of "elems s" M pos]
      by (subst SkipUnset.simps) (simp add: enum_set_wf_def)
  qed
qed

lemma next_spec:
  assumes "enum_set_wf M s"
  shows "const_iterator_next ctz M s pos = Some (next_from M (elems s) (pos + 1))"
  using assms next_from_beyond [of "elems s" M "pos + 1"]
  by (simp add: const_iterator_next_def SkipUnset_spec enum_set_wf_def)

lemma for_each_spec:
  assumes wf: "enum_set_wf M s"
  shows "pos = M + 1 \<or> pos \<in> elems s \<Longrightarrow> M + 1 < n + pos \<Longrightarrow>
    for_each ctz M s n pos = Some (sorted_list_of_set {v \<in> elems s. pos \<le> v})"
proof (induction n arbitrary: pos)
  case 0
  then show ?case using wf by (auto simp: enum_set_wf_def)
next
  case (Suc n)
  have le: "elems s \<subseteq> {..M}" using wf by (simp add: enum_set_wf_def)
  show ?case
  proof (cases "pos = M + 1")
    case True
    then have "{v \<in> elems s. pos \<le> v} = {}" using le by force
    then have "sorted_list_of_set {v \<in> elems s. pos \<le> v} = []" by (simp only: sorted_list_of_set_empty)
    with True show ?thesis by (simp add: SmallEnumSet_end_def)
  next
    case False
    let ?n = "next_from M (elems s) (pos + 1)"
    have pos: "pos \<in> elems s" "pos \<le> M" using False Suc.prems le by auto
    have n: "?n = M + 1 \<or> ?n \<in> elems s \<and> pos + 1 \<le> ?n" by (rule next_from_in [OF wf_finite [OF wf]])
    have rest: "{v \<in> elems s. pos + 1 \<le> v} = {v \<in> elems s. ?n \<le> v}"
      using n next_from_le [OF wf_finite [OF wf]] le by fastforce
    have "for_each ctz M s n ?n = Some (sorted_list_of_set {v \<in> elems s. ?n \<le> v})"
      using n Suc.prems pos by (intro Suc.IH) auto
    moreover have "sorted_list_of_set {v \<in> elems s. pos \<le> v} = pos # sorted_list_of_set {v \<in> elems s. ?n \<le> v}"
      unfolding rest [symmetric] by (rule sorted_list_of_set_from [OF wf_finite [OF wf] pos(1)])
    ultimately show ?thesis
      using False pos by (simp add: next_spec [OF wf] const_iterator_deref_def SmallEnumSet_end_def)
  qed
qed

lemma elements_spec:
  assumes wf: "enum_set_wf M s"
  shows "elements ctz M s = Some (sorted_list_of_set (elems s))"
proof -
  let ?n = "next_from M (elems s) 0"
  have n: "?n = M + 1 \<or> ?n \<in> elems s" using next_from_in [OF wf_finite [OF wf]] by blast
  have "{v \<in> elems s. ?n \<le> v} = elems s" using next_from_le [OF wf_finite [OF wf]] by auto
  then show ?thesis
    using for_each_spec [OF wf n, of "M + 2"] by (simp add: elements_def SmallEnumSet_begin_def SkipUnset_spec [OF wf])
qed

lemma count_spec: "SmallEnumSet_count ones s = card (elems s)"
proof -
  have "sum_list (map ones ps) = card (elems \<lparr>pieces = ps\<rparr>)" for ps
  proof (induction ps rule: rev_induct)
    case (snoc p ps)
    have "elems \<lparr>pieces = ps @ [p]\<rparr> = elems \<lparr>pieces = ps\<rparr> \<union> (+) (64 * length ps) ` {i. bit p i}"
      by (rule elems_snoc)
    moreover have "elems \<lparr>pieces = ps\<rparr> \<inter> (+) (64 * length ps) ` {i. bit p i} = {}"
      by (auto simp: elems_def)
    moreover have "card ((+) (64 * length ps) ` {i. bit p i}) = ones p"
      by (simp add: card_image ones_card)
    ultimately show ?case
      using snoc by (simp add: card_Un_disjoint finite_elems finite_bits)
  qed (simp add: elems_def)
  moreover have "\<lparr>pieces = pieces s\<rparr> = s" by simp
  ultimately show ?thesis by (metis SmallEnumSet_count_def)
qed

end

text \<open>Both functions computed bit by bit.\<close>

definition first_bit :: "u64 \<Rightarrow> nat" where
  "first_bit x = length (takeWhile (\<lambda>i. \<not> bit x i) [0..<64])"

definition bit_total :: "u64 \<Rightarrow> nat" where
  "bit_total x = length (filter (bit x) [0..<64])"

lemma takeWhile_upt_least:
  assumes "P k" "k < n" "\<And>i. i < k \<Longrightarrow> \<not> P i"
  shows "length (takeWhile (\<lambda>i. \<not> P i) [0..<n]) = k"
proof -
  have "takeWhile (\<lambda>i. \<not> P i) [0..<n] = take k [0..<n]"
    using assms by (intro takeWhile_eq_take_P_nth) auto
  then show ?thesis using assms(2) by simp
qed

interpretation bit_by_bit: bit_counts first_bit bit_total
proof
  fix x :: u64 and i :: nat
  show "bit_total x = card {i. bit x i}"
  proof -
    have "{i. bit x i} = set (filter (bit x) [0..<64])" using u64_bit_less by auto
    then show ?thesis by (simp only: bit_total_def distinct_card distinct_filter distinct_upt)
  qed
  assume nz: "x \<noteq> 0"
  define k where "k = (LEAST i. bit x i)"
  obtain j where "bit x j" using nz by (auto simp: bit_eq_iff)
  then have k: "bit x k" "\<And>i. i < k \<Longrightarrow> \<not> bit x i" unfolding k_def by (auto intro: LeastI dest: not_less_Least)
  have "first_bit x = k"
    unfolding first_bit_def using k u64_bit_less by (intro takeWhile_upt_least) auto
  with k show "bit x (first_bit x)" "i < first_bit x \<Longrightarrow> \<not> bit x i" by auto
qed

section \<open>The set of enumerators\<close>

text \<open>
  C40: \<open>SmallEnumSet\<close> is the set of the enumerators \<open>0\<close> to \<open>M\<close> it was given.  For well-formed sets (the constructors
  return one, every operation keeps it) and enumerators within the bound: \<open>Contains\<close> is membership; \<open>Add\<close> and \<open>Remove\<close>
  insert and delete and report whether the set changed; \<open>With\<close>, \<open>Without\<close> and the constructor on several enumerators
  are union, difference and the set of the arguments; \<open>All\<close> is every enumerator; \<open>empty\<close> and \<open>==\<close> are those of sets;
  \<open>count\<close> is the number of elements; and a \<open>for\<close> loop ends within \<open>M + 2\<close> rounds, having visited the elements once each
  in increasing order, also across the boundaries of the 64-bit pieces.  An enumerator beyond \<open>M\<close> fails the assertion
  of each operation.
\<close>

theorem enum_set_refines:
  assumes detail: "bit_counts ctz ones" and s: "enum_set_wf M s" and t: "enum_set_wf M t"
    and v: "v \<le> M" and vs: "set vs \<subseteq> {..M}" and w: "M < w"
  shows "SmallEnumSet_Contains M v s = Some (v \<in> elems s) \<and>
    (\<exists>s'. SmallEnumSet_Add M v s = Some (v \<notin> elems s, s') \<and> enum_set_wf M s' \<and> elems s' = insert v (elems s)) \<and>
    (\<exists>s'. SmallEnumSet_Remove M v s = Some (v \<in> elems s, s') \<and> enum_set_wf M s' \<and> elems s' = elems s - {v}) \<and>
    (\<exists>s'. SmallEnumSet_Withs M vs s = Some s' \<and> enum_set_wf M s' \<and> elems s' = elems s \<union> set vs) \<and>
    (\<exists>s'. SmallEnumSet_Withouts M vs s = Some s' \<and> enum_set_wf M s' \<and> elems s' = elems s - set vs) \<and>
    (\<exists>s'. SmallEnumSet_ctor M vs = Some s' \<and> enum_set_wf M s' \<and> elems s' = set vs) \<and>
    enum_set_wf M (SmallEnumSet_All M) \<and> elems (SmallEnumSet_All M) = {..M} \<and>
    (SmallEnumSet_empty s \<longleftrightarrow> elems s = {}) \<and>
    (SmallEnumSet_equal s t \<longleftrightarrow> elems s = elems t) \<and>
    SmallEnumSet_count ones s = card (elems s) \<and>
    elements ctz M s = Some (sorted_list_of_set (elems s)) \<and>
    SmallEnumSet_Contains M w s = None \<and> SmallEnumSet_Add M w s = None \<and> SmallEnumSet_Remove M w s = None"
  by (intro conjI Contains_spec [OF s v] Add_spec [OF s v] Remove_spec [OF s v] Withs_spec [OF s vs]
      Withouts_spec [OF s vs] ctor_spec [OF vs] All_spec empty_spec equal_spec [OF s t]
      bit_counts.count_spec [OF detail] bit_counts.elements_spec [OF detail s])
    (use w in \<open>simp_all add: SmallEnumSet_Contains_def SmallEnumSet_Add_def SmallEnumSet_Remove_def\<close>)

theorem enum_set_refines_witness:
  "elements first_bit 70 (SmallEnumSet_All 70) = Some (sorted_list_of_set (elems (SmallEnumSet_All 70))) \<and>
   SmallEnumSet_count bit_total (SmallEnumSet_All 70) = 71 \<and>
   SmallEnumSet_Contains 70 65 (SmallEnumSet_All 70) = Some True \<and> SmallEnumSet_Contains 70 71 (SmallEnumSet_All 70) = None"
  using enum_set_refines [OF bit_by_bit.bit_counts_axioms All_spec(1) [of 70] empty_ctor_spec(1) [of 70], of 65 "[]" 71]
  by (simp add: All_spec(2))

end
