(* ===== verification/Rocks_DB_Options.thy ===== *)
theory Rocks_DB_Options
  imports Rocks_Options Rocks_Enum_Set
begin

text \<open>
  \<^verbatim>\<open>rocksdb::DBOptions\<close> (\<^verbatim>\<open>options.h\<close>) with its in-class initialisers, as a record of groups.
\<close>

section \<open>Database options\<close>

record DBOptions_A =
  dbo_create_if_missing :: bool
  dbo_create_missing_column_families :: bool
  dbo_error_if_exists :: bool
  dbo_paranoid_checks :: bool
  dbo_flush_verify_memtable_count :: bool
  dbo_compaction_verify_record_count :: bool
  dbo_track_and_verify_wals_in_manifest :: bool
  dbo_track_and_verify_wals :: bool
  dbo_verify_sst_unique_id_in_manifest :: bool

definition DBOptions_A_default :: "rocks_lib \<Rightarrow> DBOptions_A" where
  "DBOptions_A_default lib = \<lparr>
     dbo_create_if_missing = False,
     dbo_create_missing_column_families = False,
     dbo_error_if_exists = False,
     dbo_paranoid_checks = True,
     dbo_flush_verify_memtable_count = True,
     dbo_compaction_verify_record_count = True,
     dbo_track_and_verify_wals_in_manifest = False,
     dbo_track_and_verify_wals = False,
     dbo_verify_sst_unique_id_in_manifest = True\<rparr>"

record DBOptions_B =
  dbo_env :: "ref option"
  dbo_rate_limiter :: "ref option"
  dbo_sst_file_manager :: "ref option"
  dbo_info_log :: "ref option"
  dbo_info_log_level :: InfoLogLevel
  dbo_max_open_files :: int
  dbo_max_file_opening_threads :: int
  dbo_max_total_wal_size :: u64
  dbo_statistics :: "ref option"
  dbo_use_fsync :: bool
  dbo_db_paths :: "DbPath list"
  dbo_db_log_dir :: string

definition DBOptions_B_default :: "rocks_lib \<Rightarrow> DBOptions_B" where
  "DBOptions_B_default lib = \<lparr>
     dbo_env = Env_Default lib,
     dbo_rate_limiter = None,
     dbo_sst_file_manager = None,
     dbo_info_log = None,
     dbo_info_log_level = kDefaultLogLevel lib,
     dbo_max_open_files = - 1,
     dbo_max_file_opening_threads = 16,
     dbo_max_total_wal_size = 0,
     dbo_statistics = None,
     dbo_use_fsync = False,
     dbo_db_paths = [],
     dbo_db_log_dir = ''''\<rparr>"

record DBOptions_C =
  dbo_wal_dir :: string
  dbo_delete_obsolete_files_period_micros :: u64
  dbo_max_background_jobs :: int
  dbo_max_background_compactions :: int
  dbo_max_subcompactions :: "32 word"
  dbo_max_background_flushes :: int
  dbo_max_log_file_size :: u64
  dbo_log_file_time_to_roll :: u64
  dbo_keep_log_file_num :: u64
  dbo_recycle_log_file_num :: u64
  dbo_max_manifest_file_size :: u64

definition DBOptions_C_default :: "rocks_lib \<Rightarrow> DBOptions_C" where
  "DBOptions_C_default lib = \<lparr>
     dbo_wal_dir = '''',
     dbo_delete_obsolete_files_period_micros = 21600000000,
     dbo_max_background_jobs = 2,
     dbo_max_background_compactions = - 1,
     dbo_max_subcompactions = 1,
     dbo_max_background_flushes = - 1,
     dbo_max_log_file_size = 0,
     dbo_log_file_time_to_roll = 0,
     dbo_keep_log_file_num = 1000,
     dbo_recycle_log_file_num = 0,
     dbo_max_manifest_file_size = 1073741824\<rparr>"

record DBOptions_D =
  dbo_max_manifest_space_amp_pct :: int
  dbo_table_cache_numshardbits :: int
  dbo_WAL_ttl_seconds :: u64
  dbo_WAL_size_limit_MB :: u64
  dbo_manifest_preallocation_size :: u64
  dbo_allow_mmap_reads :: bool
  dbo_allow_mmap_writes :: bool
  dbo_use_direct_reads :: bool
  dbo_use_direct_io_for_flush_and_compaction :: bool
  dbo_allow_fallocate :: bool
  dbo_is_fd_close_on_exec :: bool
  dbo_stats_dump_period_sec :: "32 word"
  dbo_stats_persist_period_sec :: "32 word"
  dbo_persist_stats_to_disk :: bool
  dbo_stats_history_buffer_size :: u64
  dbo_advise_random_on_open :: bool
  dbo_db_write_buffer_size :: u64
  dbo_write_buffer_manager :: "ref option"

definition DBOptions_D_default :: "rocks_lib \<Rightarrow> DBOptions_D" where
  "DBOptions_D_default lib = \<lparr>
     dbo_max_manifest_space_amp_pct = 500,
     dbo_table_cache_numshardbits = 6,
     dbo_WAL_ttl_seconds = 0,
     dbo_WAL_size_limit_MB = 0,
     dbo_manifest_preallocation_size = 4194304,
     dbo_allow_mmap_reads = False,
     dbo_allow_mmap_writes = False,
     dbo_use_direct_reads = False,
     dbo_use_direct_io_for_flush_and_compaction = False,
     dbo_allow_fallocate = True,
     dbo_is_fd_close_on_exec = True,
     dbo_stats_dump_period_sec = 600,
     dbo_stats_persist_period_sec = 600,
     dbo_persist_stats_to_disk = False,
     dbo_stats_history_buffer_size = 1048576,
     dbo_advise_random_on_open = True,
     dbo_db_write_buffer_size = 0,
     dbo_write_buffer_manager = None\<rparr>"

record DBOptions_E =
  dbo_compaction_readahead_size :: u64
  dbo_writable_file_max_buffer_size :: u64
  dbo_use_adaptive_mutex :: bool
  dbo_bytes_per_sync :: u64
  dbo_wal_bytes_per_sync :: u64
  dbo_strict_bytes_per_sync :: bool
  dbo_listeners :: "ref list"
  dbo_enable_thread_tracking :: bool
  dbo_delayed_write_rate :: u64
  dbo_enable_pipelined_write :: bool

definition DBOptions_E_default :: "rocks_lib \<Rightarrow> DBOptions_E" where
  "DBOptions_E_default lib = \<lparr>
     dbo_compaction_readahead_size = 2097152,
     dbo_writable_file_max_buffer_size = 1048576,
     dbo_use_adaptive_mutex = False,
     dbo_bytes_per_sync = 0,
     dbo_wal_bytes_per_sync = 0,
     dbo_strict_bytes_per_sync = False,
     dbo_listeners = [],
     dbo_enable_thread_tracking = False,
     dbo_delayed_write_rate = 0,
     dbo_enable_pipelined_write = False\<rparr>"

record DBOptions_F =
  dbo_unordered_write :: bool
  dbo_allow_concurrent_memtable_write :: bool
  dbo_enable_write_thread_adaptive_yield :: bool
  dbo_max_write_batch_group_size_bytes :: u64
  dbo_write_thread_max_yield_usec :: u64
  dbo_write_thread_slow_yield_usec :: u64
  dbo_skip_stats_update_on_db_open :: bool
  dbo_skip_checking_sst_file_sizes_on_db_open :: bool
  dbo_wal_recovery_mode :: WALRecoveryMode
  dbo_allow_2pc :: bool
  dbo_row_cache :: "ref option"
  dbo_wal_filter :: "ref option"
  dbo_dump_malloc_stats :: bool
  dbo_avoid_flush_during_recovery :: bool
  dbo_avoid_flush_during_shutdown :: bool
  dbo_allow_ingest_behind :: bool
  dbo_two_write_queues :: bool
  dbo_manual_wal_flush :: bool
  dbo_wal_compression :: CompressionType
  dbo_background_close_inactive_wals :: bool

definition DBOptions_F_default :: "rocks_lib \<Rightarrow> DBOptions_F" where
  "DBOptions_F_default lib = \<lparr>
     dbo_unordered_write = False,
     dbo_allow_concurrent_memtable_write = True,
     dbo_enable_write_thread_adaptive_yield = True,
     dbo_max_write_batch_group_size_bytes = 1048576,
     dbo_write_thread_max_yield_usec = 100,
     dbo_write_thread_slow_yield_usec = 3,
     dbo_skip_stats_update_on_db_open = False,
     dbo_skip_checking_sst_file_sizes_on_db_open = False,
     dbo_wal_recovery_mode = WALRecoveryMode_kPointInTimeRecovery,
     dbo_allow_2pc = False,
     dbo_row_cache = None,
     dbo_wal_filter = None,
     dbo_dump_malloc_stats = False,
     dbo_avoid_flush_during_recovery = False,
     dbo_avoid_flush_during_shutdown = False,
     dbo_allow_ingest_behind = False,
     dbo_two_write_queues = False,
     dbo_manual_wal_flush = False,
     dbo_wal_compression = kNoCompression,
     dbo_background_close_inactive_wals = False\<rparr>"

record DBOptions_G =
  dbo_atomic_flush :: bool
  dbo_avoid_unnecessary_blocking_io :: bool
  dbo_write_dbid_to_manifest :: bool
  dbo_write_identity_file :: bool
  dbo_prefix_seek_opt_in_only :: bool
  dbo_log_readahead_size :: u64
  dbo_file_checksum_gen_factory :: "ref option"
  dbo_best_efforts_recovery :: bool
  dbo_max_bgerror_resume_count :: int
  dbo_bgerror_resume_retry_interval :: u64
  dbo_allow_data_in_errors :: bool

definition DBOptions_G_default :: "rocks_lib \<Rightarrow> DBOptions_G" where
  "DBOptions_G_default lib = \<lparr>
     dbo_atomic_flush = False,
     dbo_avoid_unnecessary_blocking_io = False,
     dbo_write_dbid_to_manifest = True,
     dbo_write_identity_file = True,
     dbo_prefix_seek_opt_in_only = False,
     dbo_log_readahead_size = 0,
     dbo_file_checksum_gen_factory = None,
     dbo_best_efforts_recovery = False,
     dbo_max_bgerror_resume_count = 2147483647,
     dbo_bgerror_resume_retry_interval = 1000000,
     dbo_allow_data_in_errors = False\<rparr>"

text \<open>The bounds of \<^verbatim>\<open>FileTypeSet\<close> and \<^verbatim>\<open>CompactionStyleSet\<close>, two instances of \<open>SmallEnumSet\<close>.\<close>

definition FileTypeSet_max :: nat where
  "FileTypeSet_max = nat (FileType_value FileType_kBlobFile)"

definition CompactionStyleSet_max :: nat where
  "CompactionStyleSet_max = nat (CompactionStyle_value CompactionStyle_kCompactionStyleNone)"

record DBOptions_H =
  dbo_db_host_id :: string
  dbo_checksum_handoff_file_types :: SmallEnumSet
  dbo_compaction_service :: "ref option"
  dbo_lowest_used_cache_tier :: CacheTier
  dbo_enforce_single_del_contracts :: bool
  dbo_daily_offpeak_time_utc :: string
  dbo_follower_refresh_catchup_period_ms :: u64
  dbo_follower_catchup_retry_count :: u64
  dbo_follower_catchup_retry_wait_ms :: u64
  dbo_metadata_write_temperature :: Temperature
  dbo_wal_write_temperature :: Temperature
  dbo_calculate_sst_write_lifetime_hint_set :: SmallEnumSet

definition DBOptions_H_default :: "rocks_lib \<Rightarrow> DBOptions_H" where
  "DBOptions_H_default lib = \<lparr>
     dbo_db_host_id = kHostnameForDbHostId lib,
     dbo_checksum_handoff_file_types = SmallEnumSet_empty_ctor FileTypeSet_max,
     dbo_compaction_service = None,
     dbo_lowest_used_cache_tier = CacheTier_kNonVolatileBlockTier,
     dbo_enforce_single_del_contracts = True,
     dbo_daily_offpeak_time_utc = '''',
     dbo_follower_refresh_catchup_period_ms = 10000,
     dbo_follower_catchup_retry_count = 10,
     dbo_follower_catchup_retry_wait_ms = 100,
     dbo_metadata_write_temperature = Temperature_kUnknown,
     dbo_wal_write_temperature = Temperature_kUnknown,
     dbo_calculate_sst_write_lifetime_hint_set =
       the (SmallEnumSet_ctor CompactionStyleSet_max [nat (CompactionStyle_value CompactionStyle_kCompactionStyleLevel)])\<rparr>"

lemma DBOptions_H_default_sets:
  "elems (dbo_checksum_handoff_file_types (DBOptions_H_default lib)) = {}"
  "elems (dbo_calculate_sst_write_lifetime_hint_set (DBOptions_H_default lib)) = {0}"
proof -
  show "elems (dbo_checksum_handoff_file_types (DBOptions_H_default lib)) = {}"
    by (simp add: DBOptions_H_default_def empty_ctor_spec)
  show "elems (dbo_calculate_sst_write_lifetime_hint_set (DBOptions_H_default lib)) = {0}"
  proof -
    obtain s where "SmallEnumSet_ctor CompactionStyleSet_max [0] = Some s" "elems s = {0}"
      using ctor_spec [of "[0]" CompactionStyleSet_max] by fastforce
    then show ?thesis by (simp add: DBOptions_H_default_def del: SmallEnumSet_ctor.simps)
  qed
qed

record DBOptions =
  dbo_A :: DBOptions_A
  dbo_B :: DBOptions_B
  dbo_C :: DBOptions_C
  dbo_D :: DBOptions_D
  dbo_E :: DBOptions_E
  dbo_F :: DBOptions_F
  dbo_G :: DBOptions_G
  dbo_H :: DBOptions_H

definition DBOptions_default :: "rocks_lib \<Rightarrow> DBOptions" where
  "DBOptions_default lib = \<lparr>dbo_A = DBOptions_A_default lib, dbo_B = DBOptions_B_default lib, dbo_C = DBOptions_C_default lib, dbo_D = DBOptions_D_default lib, dbo_E = DBOptions_E_default lib, dbo_F = DBOptions_F_default lib, dbo_G = DBOptions_G_default lib, dbo_H = DBOptions_H_default lib\<rparr>"

end
