(* ===== verification/Rocks_CF_Options.thy ===== *)
theory Rocks_CF_Options
  imports Rocks_DB_Options
begin

text \<open>
  \<^verbatim>\<open>rocksdb::ColumnFamilyOptions\<close> with its base \<^verbatim>\<open>AdvancedColumnFamilyOptions\<close> and
  \<^verbatim>\<open>rocksdb::BlockBasedTableOptions\<close>, with their in-class initialisers, and the table configuration
  of the library (\<^verbatim>\<open>include/impl/BlockBasedTableConfig.h\<close>).
\<close>

section \<open>Column family options\<close>

record AdvancedColumnFamilyOptions_A =
  acfo_max_write_buffer_number :: int
  acfo_min_write_buffer_number_to_merge :: int
  acfo_max_write_buffer_size_to_maintain :: int
  acfo_inplace_update_support :: bool
  acfo_inplace_update_num_locks :: u64
  acfo_experimental_mempurge_threshold :: rat

definition AdvancedColumnFamilyOptions_A_default :: "rocks_lib \<Rightarrow> AdvancedColumnFamilyOptions_A" where
  "AdvancedColumnFamilyOptions_A_default lib = \<lparr>
     acfo_max_write_buffer_number = 2,
     acfo_min_write_buffer_number_to_merge = 1,
     acfo_max_write_buffer_size_to_maintain = 0,
     acfo_inplace_update_support = False,
     acfo_inplace_update_num_locks = 10000,
     acfo_experimental_mempurge_threshold = 0\<rparr>"

record AdvancedColumnFamilyOptions_B =
  acfo_inplace_callback :: "ref option"
  acfo_memtable_prefix_bloom_size_ratio :: rat
  acfo_memtable_whole_key_filtering :: bool
  acfo_memtable_huge_page_size :: u64
  acfo_memtable_insert_with_hint_prefix_extractor :: "ref option"
  acfo_bloom_locality :: "32 word"
  acfo_arena_block_size :: u64

definition AdvancedColumnFamilyOptions_B_default :: "rocks_lib \<Rightarrow> AdvancedColumnFamilyOptions_B" where
  "AdvancedColumnFamilyOptions_B_default lib = \<lparr>
     acfo_inplace_callback = None,
     acfo_memtable_prefix_bloom_size_ratio = 0,
     acfo_memtable_whole_key_filtering = False,
     acfo_memtable_huge_page_size = 0,
     acfo_memtable_insert_with_hint_prefix_extractor = None,
     acfo_bloom_locality = 0,
     acfo_arena_block_size = 0\<rparr>"

record AdvancedColumnFamilyOptions_C =
  acfo_compression_per_level :: "CompressionType list"
  acfo_num_levels :: int
  acfo_level0_slowdown_writes_trigger :: int
  acfo_level0_stop_writes_trigger :: int
  acfo_target_file_size_base :: u64
  acfo_target_file_size_multiplier :: int
  acfo_target_file_size_is_upper_bound :: bool

definition AdvancedColumnFamilyOptions_C_default :: "rocks_lib \<Rightarrow> AdvancedColumnFamilyOptions_C" where
  "AdvancedColumnFamilyOptions_C_default lib = \<lparr>
     acfo_compression_per_level = [],
     acfo_num_levels = 7,
     acfo_level0_slowdown_writes_trigger = 20,
     acfo_level0_stop_writes_trigger = 36,
     acfo_target_file_size_base = 67108864,
     acfo_target_file_size_multiplier = 1,
     acfo_target_file_size_is_upper_bound = False\<rparr>"

record AdvancedColumnFamilyOptions_D =
  acfo_level_compaction_dynamic_level_bytes :: bool
  acfo_max_bytes_for_level_multiplier :: rat
  acfo_max_bytes_for_level_multiplier_additional :: "int list"
  acfo_max_compaction_bytes :: u64
  acfo_soft_pending_compaction_bytes_limit :: u64
  acfo_hard_pending_compaction_bytes_limit :: u64
  acfo_compaction_style :: CompactionStyle
  acfo_compaction_pri :: CompactionPri
  acfo_compaction_options_universal :: CompactionOptionsUniversal
  acfo_compaction_options_fifo :: CompactionOptionsFIFO

definition AdvancedColumnFamilyOptions_D_default :: "rocks_lib \<Rightarrow> AdvancedColumnFamilyOptions_D" where
  "AdvancedColumnFamilyOptions_D_default lib = \<lparr>
     acfo_level_compaction_dynamic_level_bytes = True,
     acfo_max_bytes_for_level_multiplier = 10,
     acfo_max_bytes_for_level_multiplier_additional = replicate 7 1,
     acfo_max_compaction_bytes = 0,
     acfo_soft_pending_compaction_bytes_limit = 68719476736,
     acfo_hard_pending_compaction_bytes_limit = 274877906944,
     acfo_compaction_style = CompactionStyle_kCompactionStyleLevel,
     acfo_compaction_pri = CompactionPri_kMinOverlappingRatio,
     acfo_compaction_options_universal = CompactionOptionsUniversal_default,
     acfo_compaction_options_fifo = CompactionOptionsFIFO_default\<rparr>"

record AdvancedColumnFamilyOptions_E =
  acfo_max_sequential_skip_in_iterations :: u64
  acfo_memtable_factory :: "ref option"
  acfo_table_properties_collector_factories :: "ref list"
  acfo_max_successive_merges :: u64
  acfo_strict_max_successive_merges :: bool
  acfo_optimize_filters_for_hits :: bool
  acfo_paranoid_file_checks :: bool
  acfo_verify_output_flags :: VerifyOutputFlags

definition AdvancedColumnFamilyOptions_E_default :: "rocks_lib \<Rightarrow> AdvancedColumnFamilyOptions_E" where
  "AdvancedColumnFamilyOptions_E_default lib = \<lparr>
     acfo_max_sequential_skip_in_iterations = 8,
     acfo_memtable_factory = SkipListFactory_new lib,
     acfo_table_properties_collector_factories = [],
     acfo_max_successive_merges = 0,
     acfo_strict_max_successive_merges = False,
     acfo_optimize_filters_for_hits = False,
     acfo_paranoid_file_checks = False,
     acfo_verify_output_flags = kVerifyNone\<rparr>"

record AdvancedColumnFamilyOptions_F =
  acfo_force_consistency_checks :: bool
  acfo_report_bg_io_stats :: bool
  acfo_disallow_memtable_writes :: bool
  acfo_ttl :: u64
  acfo_periodic_compaction_seconds :: u64
  acfo_sample_for_compression :: u64
  acfo_last_level_temperature :: Temperature
  acfo_default_write_temperature :: Temperature
  acfo_default_temperature :: Temperature

definition AdvancedColumnFamilyOptions_F_default :: "rocks_lib \<Rightarrow> AdvancedColumnFamilyOptions_F" where
  "AdvancedColumnFamilyOptions_F_default lib = \<lparr>
     acfo_force_consistency_checks = True,
     acfo_report_bg_io_stats = False,
     acfo_disallow_memtable_writes = False,
     acfo_ttl = 18446744073709551614,
     acfo_periodic_compaction_seconds = 18446744073709551614,
     acfo_sample_for_compression = 0,
     acfo_last_level_temperature = Temperature_kUnknown,
     acfo_default_write_temperature = Temperature_kUnknown,
     acfo_default_temperature = Temperature_kUnknown\<rparr>"

record AdvancedColumnFamilyOptions_G =
  acfo_preclude_last_level_data_seconds :: u64
  acfo_preserve_internal_time_seconds :: u64
  acfo_enable_blob_files :: bool
  acfo_min_blob_size :: u64
  acfo_blob_file_size :: u64
  acfo_blob_compression_type :: CompressionType
  acfo_enable_blob_garbage_collection :: bool
  acfo_blob_garbage_collection_age_cutoff :: rat
  acfo_blob_garbage_collection_force_threshold :: rat
  acfo_blob_compaction_readahead_size :: u64
  acfo_blob_file_starting_level :: int

definition AdvancedColumnFamilyOptions_G_default :: "rocks_lib \<Rightarrow> AdvancedColumnFamilyOptions_G" where
  "AdvancedColumnFamilyOptions_G_default lib = \<lparr>
     acfo_preclude_last_level_data_seconds = 0,
     acfo_preserve_internal_time_seconds = 0,
     acfo_enable_blob_files = False,
     acfo_min_blob_size = 0,
     acfo_blob_file_size = 268435456,
     acfo_blob_compression_type = kNoCompression,
     acfo_enable_blob_garbage_collection = False,
     acfo_blob_garbage_collection_age_cutoff = 1 / 4,
     acfo_blob_garbage_collection_force_threshold = 1,
     acfo_blob_compaction_readahead_size = 0,
     acfo_blob_file_starting_level = 0\<rparr>"

record AdvancedColumnFamilyOptions_H =
  acfo_blob_cache :: "ref option"
  acfo_prepopulate_blob_cache :: PrepopulateBlobCache
  acfo_memtable_protection_bytes_per_key :: "32 word"
  acfo_persist_user_defined_timestamps :: bool
  acfo_block_protection_bytes_per_key :: byte
  acfo_bottommost_file_compaction_delay :: "32 word"
  acfo_paranoid_memory_checks :: bool
  acfo_memtable_veirfy_per_key_checksum_on_seek :: bool
  acfo_memtable_op_scan_flush_trigger :: "32 word"

definition AdvancedColumnFamilyOptions_H_default :: "rocks_lib \<Rightarrow> AdvancedColumnFamilyOptions_H" where
  "AdvancedColumnFamilyOptions_H_default lib = \<lparr>
     acfo_blob_cache = None,
     acfo_prepopulate_blob_cache = PrepopulateBlobCache_kDisable,
     acfo_memtable_protection_bytes_per_key = 0,
     acfo_persist_user_defined_timestamps = True,
     acfo_block_protection_bytes_per_key = 0,
     acfo_bottommost_file_compaction_delay = 0,
     acfo_paranoid_memory_checks = False,
     acfo_memtable_veirfy_per_key_checksum_on_seek = False,
     acfo_memtable_op_scan_flush_trigger = 0\<rparr>"

record AdvancedColumnFamilyOptions_I =
  acfo_memtable_avg_op_scan_flush_trigger :: "32 word"
  acfo_cf_allow_ingest_behind :: bool

definition AdvancedColumnFamilyOptions_I_default :: "rocks_lib \<Rightarrow> AdvancedColumnFamilyOptions_I" where
  "AdvancedColumnFamilyOptions_I_default lib = \<lparr>
     acfo_memtable_avg_op_scan_flush_trigger = 0,
     acfo_cf_allow_ingest_behind = False\<rparr>"

record AdvancedColumnFamilyOptions =
  acfo_A :: AdvancedColumnFamilyOptions_A
  acfo_B :: AdvancedColumnFamilyOptions_B
  acfo_C :: AdvancedColumnFamilyOptions_C
  acfo_D :: AdvancedColumnFamilyOptions_D
  acfo_E :: AdvancedColumnFamilyOptions_E
  acfo_F :: AdvancedColumnFamilyOptions_F
  acfo_G :: AdvancedColumnFamilyOptions_G
  acfo_H :: AdvancedColumnFamilyOptions_H
  acfo_I :: AdvancedColumnFamilyOptions_I

definition AdvancedColumnFamilyOptions_default :: "rocks_lib \<Rightarrow> AdvancedColumnFamilyOptions" where
  "AdvancedColumnFamilyOptions_default lib = \<lparr>acfo_A = AdvancedColumnFamilyOptions_A_default lib, acfo_B = AdvancedColumnFamilyOptions_B_default lib, acfo_C = AdvancedColumnFamilyOptions_C_default lib, acfo_D = AdvancedColumnFamilyOptions_D_default lib, acfo_E = AdvancedColumnFamilyOptions_E_default lib, acfo_F = AdvancedColumnFamilyOptions_F_default lib, acfo_G = AdvancedColumnFamilyOptions_G_default lib, acfo_H = AdvancedColumnFamilyOptions_H_default lib, acfo_I = AdvancedColumnFamilyOptions_I_default lib\<rparr>"

record ColumnFamilyOptions_A =
  cfo_comparator :: "ref option"
  cfo_merge_operator :: "ref option"
  cfo_compaction_filter :: "ref option"
  cfo_compaction_filter_factory :: "ref option"
  cfo_write_buffer_size :: u64
  cfo_compression :: CompressionType

definition ColumnFamilyOptions_A_default :: "rocks_lib \<Rightarrow> ColumnFamilyOptions_A" where
  "ColumnFamilyOptions_A_default lib = \<lparr>
     cfo_comparator = BytewiseComparator lib,
     cfo_merge_operator = None,
     cfo_compaction_filter = None,
     cfo_compaction_filter_factory = None,
     cfo_write_buffer_size = 67108864,
     cfo_compression = indeterminate_compression lib\<rparr>"

record ColumnFamilyOptions_B =
  cfo_bottommost_compression :: CompressionType
  cfo_bottommost_compression_opts :: CompressionOptions
  cfo_compression_opts :: CompressionOptions
  cfo_compression_manager :: "ref option"
  cfo_level0_file_num_compaction_trigger :: int
  cfo_prefix_extractor :: "ref option"
  cfo_max_bytes_for_level_base :: u64
  cfo_snap_refresh_nanos :: u64
  cfo_disable_auto_compactions :: bool
  cfo_table_factory :: "ref option"

definition ColumnFamilyOptions_B_default :: "rocks_lib \<Rightarrow> ColumnFamilyOptions_B" where
  "ColumnFamilyOptions_B_default lib = \<lparr>
     cfo_bottommost_compression = kDisableCompressionOption,
     cfo_bottommost_compression_opts = CompressionOptions_default,
     cfo_compression_opts = CompressionOptions_default,
     cfo_compression_manager = None,
     cfo_level0_file_num_compaction_trigger = 4,
     cfo_prefix_extractor = None,
     cfo_max_bytes_for_level_base = 268435456,
     cfo_snap_refresh_nanos = 0,
     cfo_disable_auto_compactions = False,
     cfo_table_factory = None\<rparr>"

record ColumnFamilyOptions_C =
  cfo_cf_paths :: "DbPath list"
  cfo_compaction_thread_limiter :: "ref option"
  cfo_sst_partitioner_factory :: "ref option"
  cfo_memtable_max_range_deletions :: "32 word"
  cfo_uncache_aggressiveness :: "32 word"

definition ColumnFamilyOptions_C_default :: "rocks_lib \<Rightarrow> ColumnFamilyOptions_C" where
  "ColumnFamilyOptions_C_default lib = \<lparr>
     cfo_cf_paths = [],
     cfo_compaction_thread_limiter = None,
     cfo_sst_partitioner_factory = None,
     cfo_memtable_max_range_deletions = 0,
     cfo_uncache_aggressiveness = 0\<rparr>"

record ColumnFamilyOptions =
  cfo_base :: AdvancedColumnFamilyOptions
  cfo_A :: ColumnFamilyOptions_A
  cfo_B :: ColumnFamilyOptions_B
  cfo_C :: ColumnFamilyOptions_C

definition ColumnFamilyOptions_default :: "rocks_lib \<Rightarrow> ColumnFamilyOptions" where
  "ColumnFamilyOptions_default lib = \<lparr>cfo_base = AdvancedColumnFamilyOptions_default lib, cfo_A = ColumnFamilyOptions_A_default lib, cfo_B = ColumnFamilyOptions_B_default lib, cfo_C = ColumnFamilyOptions_C_default lib\<rparr>"

section \<open>Block-based tables\<close>

record BlockBasedTableOptions_A =
  bbto_flush_block_policy_factory :: "ref option"
  bbto_cache_index_and_filter_blocks :: bool
  bbto_cache_index_and_filter_blocks_with_high_priority :: bool
  bbto_pin_l0_filter_and_index_blocks_in_cache :: bool
  bbto_pin_top_level_index_and_filter :: bool
  bbto_metadata_cache_options :: MetadataCacheOptions

definition BlockBasedTableOptions_A_default :: BlockBasedTableOptions_A where
  "BlockBasedTableOptions_A_default = \<lparr>
     bbto_flush_block_policy_factory = None,
     bbto_cache_index_and_filter_blocks = False,
     bbto_cache_index_and_filter_blocks_with_high_priority = True,
     bbto_pin_l0_filter_and_index_blocks_in_cache = False,
     bbto_pin_top_level_index_and_filter = True,
     bbto_metadata_cache_options = MetadataCacheOptions_default\<rparr>"

record BlockBasedTableOptions_B =
  bbto_persistent_cache :: "ref option"
  bbto_block_size :: u64
  bbto_block_size_deviation :: int
  bbto_block_restart_interval :: int
  bbto_index_block_restart_interval :: int
  bbto_metadata_block_size :: u64

definition BlockBasedTableOptions_B_default :: BlockBasedTableOptions_B where
  "BlockBasedTableOptions_B_default = \<lparr>
     bbto_persistent_cache = None,
     bbto_block_size = 4096,
     bbto_block_size_deviation = 10,
     bbto_block_restart_interval = 16,
     bbto_index_block_restart_interval = 1,
     bbto_metadata_block_size = 4096\<rparr>"

record BlockBasedTableOptions_C =
  bbto_cache_usage_options :: CacheUsageOptions
  bbto_partition_filters :: bool
  bbto_decouple_partitioned_filters :: bool
  bbto_optimize_filters_for_memory :: bool

definition BlockBasedTableOptions_C_default :: BlockBasedTableOptions_C where
  "BlockBasedTableOptions_C_default = \<lparr>
     bbto_cache_usage_options = CacheUsageOptions_default,
     bbto_partition_filters = False,
     bbto_decouple_partitioned_filters = True,
     bbto_optimize_filters_for_memory = True\<rparr>"

record BlockBasedTableOptions_D =
  bbto_use_delta_encoding :: bool
  bbto_filter_policy :: "ref option"
  bbto_user_defined_index_factory :: "ref option"
  bbto_fail_if_no_udi_on_open :: bool
  bbto_whole_key_filtering :: bool
  bbto_detect_filter_construct_corruption :: bool
  bbto_verify_compression :: bool
  bbto_read_amp_bytes_per_bit :: "32 word"
  bbto_format_version :: "32 word"

definition BlockBasedTableOptions_D_default :: BlockBasedTableOptions_D where
  "BlockBasedTableOptions_D_default = \<lparr>
     bbto_use_delta_encoding = True,
     bbto_filter_policy = None,
     bbto_user_defined_index_factory = None,
     bbto_fail_if_no_udi_on_open = False,
     bbto_whole_key_filtering = True,
     bbto_detect_filter_construct_corruption = False,
     bbto_verify_compression = False,
     bbto_read_amp_bytes_per_bit = 0,
     bbto_format_version = 6\<rparr>"

record BlockBasedTableOptions_E =
  bbto_enable_index_compression :: bool
  bbto_block_align :: bool
  bbto_super_block_alignment_size :: u64
  bbto_super_block_alignment_space_overhead_ratio :: u64

definition BlockBasedTableOptions_E_default :: BlockBasedTableOptions_E where
  "BlockBasedTableOptions_E_default = \<lparr>
     bbto_enable_index_compression = True,
     bbto_block_align = False,
     bbto_super_block_alignment_size = 0,
     bbto_super_block_alignment_space_overhead_ratio = 128\<rparr>"

record BlockBasedTableOptions =
  bbto_A :: BlockBasedTableOptions_A
  bbto_B :: BlockBasedTableOptions_B
  bbto_C :: BlockBasedTableOptions_C
  bbto_D :: BlockBasedTableOptions_D
  bbto_E :: BlockBasedTableOptions_E

definition BlockBasedTableOptions_default :: BlockBasedTableOptions where
  "BlockBasedTableOptions_default = \<lparr>bbto_A = BlockBasedTableOptions_A_default, bbto_B = BlockBasedTableOptions_B_default, bbto_C = BlockBasedTableOptions_C_default, bbto_D = BlockBasedTableOptions_D_default, bbto_E = BlockBasedTableOptions_E_default\<rparr>"

definition BlockBasedTableConfig_options :: BlockBasedTableOptions where
  "BlockBasedTableConfig_options = (let opts = BlockBasedTableOptions_default in
     opts\<lparr>bbto_B := (bbto_B opts)\<lparr>bbto_block_size := 16 * 1024\<rparr>,
          bbto_D := (bbto_D opts)\<lparr>bbto_format_version := 6\<rparr>\<rparr>)"

end
