(* ===== verification/Rocks_Engine.thy ===== *)
theory Rocks_Engine
  imports Rocks_Status Rocks_Slice Rocks_CF_Options
begin

text \<open>
  The boundary to the RocksDB library, whose code is linked as a binary and is not part of the
  repository.  It enters the model as a parameter: a record of the calls the store makes, over an
  arbitrary state type \<open>'d\<close>.  The locale \<open>rocksdb_spec\<close> states, as named laws over an
  observation of that state, the behaviour that the RocksDB headers document
  (\<^verbatim>\<open>db.h\<close>, \<^verbatim>\<open>utilities/transaction.h\<close>, \<^verbatim>\<open>utilities/transaction_db.h\<close>, \<^verbatim>\<open>iterator_base.h\<close>,
  \<^verbatim>\<open>write_batch.h\<close>).  \<open>mem_engine\<close> is an in-memory engine with a script of injected failures; it
  satisfies all laws and is what closed examples run on.  The two option structs that the store
  fills in itself and the inline forwarders of \<open>DB\<close> are modelled from the headers.
\<close>

section \<open>Observable contents\<close>

text \<open>
  A key of a column family is \<open>Absent\<close> (nothing was written since the last \<open>SingleDelete\<close>),
  \<open>Single v\<close> (one \<open>Put\<close> since then) or \<open>Multi r\<close> (overwritten or deleted with \<open>Delete\<close>, with
  visible value \<open>r\<close>).  \<open>SingleDelete\<close> is documented only for the first two.
\<close>

type_synonym handle = nat
type_synonym dbptr = nat
type_synonym txptr = nat
type_synonym iterptr = nat

datatype cell = Absent | Single data | Multi "data option"

fun cell_value :: "cell \<Rightarrow> data option" where
  "cell_value Absent = None"
| "cell_value (Single v) = Some v"
| "cell_value (Multi r) = r"

fun cell_put :: "data \<Rightarrow> cell \<Rightarrow> cell" where
  "cell_put v Absent = Single v"
| "cell_put v _ = Multi (Some v)"

fun single_ok :: "cell \<Rightarrow> bool" where
  "single_ok (Multi _) = False"
| "single_ok _ = True"

text \<open>
  What can be observed of the open database: its column families, the contents of each, their names
  and the path of the database.
\<close>

record dbobs =
  cells :: "handle \<Rightarrow> data \<Rightarrow> cell"
  cfs :: "handle set"
  names :: "handle \<Rightarrow> string option"
  location :: string

datatype wop =
    WPut handle data data
  | WDelete handle data
  | WSingleDelete handle data
  | WDeleteRange handle data data

definition upd_cell :: "handle \<Rightarrow> data \<Rightarrow> cell \<Rightarrow> dbobs \<Rightarrow> dbobs" where
  "upd_cell h k c m = m\<lparr>cells := (cells m)(h := (cells m h)(k := c))\<rparr>"

fun op_effect :: "wop \<Rightarrow> dbobs \<Rightarrow> dbobs \<Rightarrow> bool" where
  "op_effect (WPut h k v) m m' \<longleftrightarrow> m' = upd_cell h k (cell_put v (cells m h k)) m"
| "op_effect (WDelete h k) m m' \<longleftrightarrow> m' = upd_cell h k (Multi None) m"
| "op_effect (WSingleDelete h k) m m' \<longleftrightarrow>
     (\<exists>c. m' = upd_cell h k c m \<and> (single_ok (cells m h k) \<longrightarrow> c = Absent))"
| "op_effect (WDeleteRange h a b) m m' \<longleftrightarrow>
     (\<exists>f. m' = m\<lparr>cells := (cells m)(h := (\<lambda>k. if a \<le> k \<and> k < b then f k else cells m h k))\<rparr> \<and>
          (\<forall>k. a \<le> k \<and> k < b \<longrightarrow> cell_value (f k) = None))"

fun batch_effect :: "wop list \<Rightarrow> dbobs \<Rightarrow> dbobs \<Rightarrow> bool" where
  "batch_effect [] m m' \<longleftrightarrow> m' = m"
| "batch_effect (x # xs) m m' \<longleftrightarrow> (\<exists>m1. op_effect x m m1 \<and> batch_effect xs m1 m')"

definition present :: "dbobs \<Rightarrow> handle \<Rightarrow> data set" where
  "present m h = {k. cell_value (cells m h k) \<noteq> None}"

section \<open>Option structs and the calls\<close>

record FlushOptions =
  fo_wait :: bool
  fo_allow_write_stall :: bool

definition FlushOptions_default :: FlushOptions where
  "FlushOptions_default = \<lparr>fo_wait = True, fo_allow_write_stall = False\<rparr>"

record TransactionDBWriteOptimizations =
  skip_concurrency_control :: bool
  skip_duplicate_key_check :: bool

definition TransactionDBWriteOptimizations_default :: TransactionDBWriteOptimizations where
  "TransactionDBWriteOptimizations_default =
     \<lparr>skip_concurrency_control = False, skip_duplicate_key_check = False\<rparr>"

text \<open>
  The constructors of \<open>DBOptions\<close> and \<open>ColumnFamilyOptions\<close> are only declared in the headers; the
  fields \<open>DBOptions_ctor\<close> and \<open>ColumnFamilyOptions_ctor\<close> are what they do after the in-class
  initialisers.
\<close>

record 'd rocksdb =
  lib_consts :: rocks_consts
  DBOptions_ctor :: "DBOptions \<Rightarrow> DBOptions"
  ColumnFamilyOptions_ctor :: "ColumnFamilyOptions \<Rightarrow> ColumnFamilyOptions"
  DBOptions_OptimizeForSmallDb :: "DBOptions \<Rightarrow> DBOptions"
  DBOptions_IncreaseParallelism :: "int \<Rightarrow> DBOptions \<Rightarrow> DBOptions"
  ColumnFamilyOptions_OptimizeForSmallDb :: "ColumnFamilyOptions \<Rightarrow> ColumnFamilyOptions"
  ColumnFamilyOptions_OptimizeLevelStyleCompaction ::
    "u64 \<Rightarrow> ColumnFamilyOptions \<Rightarrow> ColumnFamilyOptions"
  NewSstFileManager :: "ref \<Rightarrow> 'd \<Rightarrow> ref option \<times> 'd"
  NewBlockBasedTableFactory :: "BlockBasedTableOptions \<Rightarrow> 'd \<Rightarrow> ref option \<times> 'd"
  ListColumnFamilies :: "DBOptions \<Rightarrow> string \<Rightarrow> 'd \<Rightarrow> Status \<times> string list \<times> 'd"
  TransactionDB_Open ::
    "DBOptions \<Rightarrow> TransactionDBOptions \<Rightarrow> string \<Rightarrow> (string \<times> ColumnFamilyOptions) list \<Rightarrow> 'd \<Rightarrow>
     Status \<times> handle list \<times> dbptr option \<times> 'd"
  EnableFileDeletions :: "dbptr \<Rightarrow> 'd \<Rightarrow> Status \<times> 'd"
  CreateColumnFamily :: "dbptr \<Rightarrow> ColumnFamilyOptions \<Rightarrow> string \<Rightarrow> 'd \<Rightarrow> Status \<times> handle \<times> 'd"
  BeginTransaction :: "dbptr \<Rightarrow> WriteOptions \<Rightarrow> TransactionOptions \<Rightarrow> txptr option \<Rightarrow> 'd \<Rightarrow> txptr option \<times> 'd"
  Tx_Put :: "txptr \<Rightarrow> handle \<Rightarrow> data \<Rightarrow> data \<Rightarrow> 'd \<Rightarrow> Status \<times> 'd"
  Tx_Delete :: "txptr \<Rightarrow> handle \<Rightarrow> data \<Rightarrow> 'd \<Rightarrow> Status \<times> 'd"
  Tx_SingleDelete :: "txptr \<Rightarrow> handle \<Rightarrow> data \<Rightarrow> 'd \<Rightarrow> Status \<times> 'd"
  Tx_Commit :: "txptr \<Rightarrow> 'd \<Rightarrow> Status \<times> 'd"
  Tx_destroy :: "txptr \<Rightarrow> 'd \<Rightarrow> 'd"
  WriteBatch_DeleteRange :: "handle \<Rightarrow> data \<Rightarrow> data \<Rightarrow> wop list \<Rightarrow> Status \<times> wop list"
  TransactionDB_Write ::
    "dbptr \<Rightarrow> WriteOptions \<Rightarrow> TransactionDBWriteOptimizations \<Rightarrow> wop list \<Rightarrow> 'd \<Rightarrow> Status \<times> 'd"
  DB_Get_ts :: "dbptr \<Rightarrow> ReadOptions \<Rightarrow> handle \<Rightarrow> data \<Rightarrow> data option \<Rightarrow> 'd \<Rightarrow> Status \<times> data \<times> 'd"
  NewIterator :: "dbptr \<Rightarrow> ReadOptions \<Rightarrow> handle \<Rightarrow> 'd \<Rightarrow> iterptr option \<times> 'd"
  It_SeekToFirst :: "iterptr \<Rightarrow> 'd \<Rightarrow> 'd"
  It_SeekToLast :: "iterptr \<Rightarrow> 'd \<Rightarrow> 'd"
  It_Valid :: "iterptr \<Rightarrow> 'd \<Rightarrow> bool"
  It_key :: "iterptr \<Rightarrow> 'd \<Rightarrow> data"
  It_status :: "iterptr \<Rightarrow> 'd \<Rightarrow> Status"
  It_destroy :: "iterptr \<Rightarrow> 'd \<Rightarrow> 'd"
  FlushWAL :: "dbptr \<Rightarrow> bool \<Rightarrow> 'd \<Rightarrow> Status \<times> 'd"
  DB_Flush_cf :: "dbptr \<Rightarrow> FlushOptions \<Rightarrow> handle \<Rightarrow> 'd \<Rightarrow> Status \<times> 'd"
  DefaultColumnFamily :: "dbptr \<Rightarrow> 'd \<Rightarrow> handle"
  CompactRange :: "dbptr \<Rightarrow> CompactRangeOptions \<Rightarrow> handle \<Rightarrow> 'd \<Rightarrow> Status \<times> 'd"
  Handle_destroy :: "handle \<Rightarrow> 'd \<Rightarrow> 'd"
  DB_destroy :: "dbptr \<Rightarrow> 'd \<Rightarrow> 'd"
  GetRocksVersionAsString :: string
  GetRocksBuildProperties :: "string \<Rightarrow> string option"

text \<open>The inline forwarders of \<open>DB\<close> that the store calls.\<close>

definition DB_Get :: "'d rocksdb \<Rightarrow> dbptr \<Rightarrow> ReadOptions \<Rightarrow> handle \<Rightarrow> data \<Rightarrow> 'd \<Rightarrow> Status \<times> data \<times> 'd" where
  "DB_Get eng p ro h k d = DB_Get_ts eng p ro h k None d"

definition DB_Flush :: "'d rocksdb \<Rightarrow> dbptr \<Rightarrow> FlushOptions \<Rightarrow> 'd \<Rightarrow> Status \<times> 'd" where
  "DB_Flush eng p fo d = DB_Flush_cf eng p fo (DefaultColumnFamily eng p d) d"

section \<open>The documented behaviour\<close>

text \<open>
  Every call that answers with a status may fail, and so may the seek of an iterator: it is reported by
  \<open>It_status\<close> (\<^verbatim>\<open>Iterator::status\<close>) only, and an iterator whose status is not ok is never valid.  After a seek
  that did not fail the iterator is valid exactly if the column family has a key.
\<close>

locale rocksdb_spec =
  fixes eng :: "'d rocksdb"
    and obs :: "'d \<Rightarrow> dbobs"
    and pending :: "'d \<Rightarrow> txptr \<Rightarrow> wop list"
  assumes begin_obs: "BeginTransaction eng p wo to old d = (ot, d') \<Longrightarrow> obs d' = obs d"
    and begin_pending: "BeginTransaction eng p wo to old d = (Some t, d') \<Longrightarrow> pending d' t = []"
    and begin_reuse: "BeginTransaction eng p wo to (Some u) d = (Some t, d') \<Longrightarrow> t = u"
    and put_obs: "Tx_Put eng t h k v d = (s, d') \<Longrightarrow> obs d' = obs d"
    and put_pending: "Tx_Put eng t h k v d = (s, d') \<Longrightarrow> Status_ok s \<Longrightarrow>
      pending d' t = pending d t @ [WPut h k v]"
    and delete_obs: "Tx_Delete eng t h k d = (s, d') \<Longrightarrow> obs d' = obs d"
    and delete_pending: "Tx_Delete eng t h k d = (s, d') \<Longrightarrow> Status_ok s \<Longrightarrow>
      pending d' t = pending d t @ [WDelete h k]"
    and sdelete_obs: "Tx_SingleDelete eng t h k d = (s, d') \<Longrightarrow> obs d' = obs d"
    and sdelete_pending: "Tx_SingleDelete eng t h k d = (s, d') \<Longrightarrow> Status_ok s \<Longrightarrow>
      pending d' t = pending d t @ [WSingleDelete h k]"
    and commit_ok: "Tx_Commit eng t d = (s, d') \<Longrightarrow> Status_ok s \<Longrightarrow>
      batch_effect (pending d t) (obs d) (obs d')"
    and commit_fail: "Tx_Commit eng t d = (s, d') \<Longrightarrow> \<not> Status_ok s \<Longrightarrow> obs d' = obs d"
    and tx_destroy_obs: "obs (Tx_destroy eng t d) = obs d"
    and wb_range: "WriteBatch_DeleteRange eng h a b wb = (s, wb') \<Longrightarrow> Status_ok s \<Longrightarrow>
      wb' = wb @ [WDeleteRange h a b]"
    and write_ok: "TransactionDB_Write eng p wo opt wb d = (s, d') \<Longrightarrow> skip_concurrency_control opt \<Longrightarrow>
      Status_ok s \<Longrightarrow> batch_effect wb (obs d) (obs d')"
    and write_fail: "TransactionDB_Write eng p wo opt wb d = (s, d') \<Longrightarrow> skip_concurrency_control opt \<Longrightarrow>
      \<not> Status_ok s \<Longrightarrow> obs d' = obs d"
    and get_obs: "DB_Get_ts eng p ro h k ts d = (s, v, d') \<Longrightarrow> obs d' = obs d"
    and get_ok: "DB_Get_ts eng p ReadOptions_default h k ts d = (s, v, d') \<Longrightarrow> Status_ok s \<Longrightarrow>
      cell_value (cells (obs d) h k) = Some v"
    and get_not_found: "DB_Get_ts eng p ReadOptions_default h k ts d = (s, v, d') \<Longrightarrow> Status_IsNotFound s \<Longrightarrow>
      cell_value (cells (obs d) h k) = None"
    and newit_obs: "NewIterator eng p ro h d = (oi, d') \<Longrightarrow> obs d' = obs d"
    and first_obs: "obs (It_SeekToFirst eng i d) = obs d"
    and last_obs: "obs (It_SeekToLast eng i d) = obs d"
    and it_destroy_obs: "obs (It_destroy eng i d) = obs d"
    and first_valid: "NewIterator eng p ReadOptions_default h d = (Some i, d') \<Longrightarrow>
      It_Valid eng i (It_SeekToFirst eng i d') \<longleftrightarrow>
      Status_ok (It_status eng i (It_SeekToFirst eng i d')) \<and> present (obs d) h \<noteq> {}"
    and last_valid: "NewIterator eng p ReadOptions_default h d = (Some i, d') \<Longrightarrow>
      It_Valid eng i (It_SeekToLast eng i d') \<longleftrightarrow>
      Status_ok (It_status eng i (It_SeekToLast eng i d')) \<and> present (obs d) h \<noteq> {}"
    and first_key: "NewIterator eng p ReadOptions_default h d = (Some i, d') \<Longrightarrow>
      It_Valid eng i (It_SeekToFirst eng i d') \<Longrightarrow> k \<in> present (obs d) h \<Longrightarrow>
      It_key eng i (It_SeekToFirst eng i d') \<in> present (obs d) h \<and>
      It_key eng i (It_SeekToFirst eng i d') \<le> k"
    and last_key: "NewIterator eng p ReadOptions_default h d = (Some i, d') \<Longrightarrow>
      It_Valid eng i (It_SeekToLast eng i d') \<Longrightarrow> k \<in> present (obs d) h \<Longrightarrow>
      It_key eng i (It_SeekToLast eng i d') \<in> present (obs d) h \<and>
      k \<le> It_key eng i (It_SeekToLast eng i d')"
    and flushwal_obs: "FlushWAL eng p sync d = (s, d') \<Longrightarrow> obs d' = obs d"
    and flush_obs: "DB_Flush_cf eng p fo h d = (s, d') \<Longrightarrow> obs d' = obs d"
    and compact_obs: "CompactRange eng p co h d = (s, d') \<Longrightarrow> obs d' = obs d"
    and create_ok: "CreateColumnFamily eng p cfo n d = (s, h, d') \<Longrightarrow> Status_ok s \<Longrightarrow>
      h \<notin> cfs (obs d) \<and> cfs (obs d') = insert h (cfs (obs d)) \<and>
      cells (obs d') = (cells (obs d))(h := (\<lambda>_. Absent)) \<and>
      names (obs d') = (names (obs d))(h \<mapsto> n) \<and> location (obs d') = location (obs d) \<and>
      (\<forall>h' \<in> cfs (obs d). names (obs d) h' \<noteq> Some n)"
    and create_fail: "CreateColumnFamily eng p cfo n d = (s, h, d') \<Longrightarrow> \<not> Status_ok s \<Longrightarrow>
      obs d' = obs d"
    and open_ok: "TransactionDB_Open eng dbo tdo path ns d = (s, hs, q, d') \<Longrightarrow> Status_ok s \<Longrightarrow>
      q \<noteq> None \<and> length hs = length ns \<and> distinct hs \<and> set hs = cfs (obs d') \<and>
      map (names (obs d')) hs = map (\<lambda>x. Some (fst x)) ns \<and> location (obs d') = path"
    and open_fail: "TransactionDB_Open eng dbo tdo path ns d = (s, hs, q, d') \<Longrightarrow> \<not> Status_ok s \<Longrightarrow>
      q = None"
    and enable_obs: "EnableFileDeletions eng p d = (s, d') \<Longrightarrow> obs d' = obs d"
    and sst_obs: "NewSstFileManager eng env d = (r, d') \<Longrightarrow> obs d' = obs d"
    and factory_obs: "NewBlockBasedTableFactory eng bo d = (r, d') \<Longrightarrow> obs d' = obs d"
    and list_obs: "ListColumnFamilies eng dbo path d = (s, fams, d') \<Longrightarrow> obs d' = obs d"

text \<open>
  What the database keeps when it is closed: \<open>disk d path\<close> maps the names of the column families of
  the database at \<open>path\<close> to their contents.  Deleting a handle does not drop its column family;
  deleting the database object leaves on disk what was observed before; opening gives it back.  This is
  the behaviour for writes with the WAL enabled (\<open>disableWAL\<close> and \<open>manual_wal_flush\<close> are false, as the
  store leaves them) while the machine keeps running.
\<close>

locale rocksdb_durable = rocksdb_spec eng obs pending
  for eng :: "'d rocksdb" and obs :: "'d \<Rightarrow> dbobs" and pending :: "'d \<Rightarrow> txptr \<Rightarrow> wop list" +
  fixes disk :: "'d \<Rightarrow> string \<Rightarrow> string \<Rightarrow> (data \<Rightarrow> cell) option"
  assumes handle_destroy_obs: "obs (Handle_destroy eng h d) = obs d"
    and destroy_disk: "inj_on (names (obs d)) (cfs (obs d)) \<Longrightarrow>
      disk (DB_destroy eng p d) (location (obs d)) n = Some c \<longleftrightarrow>
      (\<exists>h \<in> cfs (obs d). names (obs d) h = Some n \<and> c = cells (obs d) h)"
    and sst_disk: "NewSstFileManager eng env d = (r, d') \<Longrightarrow> disk d' = disk d"
    and factory_disk: "NewBlockBasedTableFactory eng bo d = (r, d') \<Longrightarrow> disk d' = disk d"
    and list_disk: "ListColumnFamilies eng dbo path d = (s, fams, d') \<Longrightarrow>
      disk d' = disk d \<and> distinct fams \<and> (Status_ok s \<longrightarrow> set fams = dom (disk d path)) \<and>
      (Status_IsPathNotFound s \<longrightarrow> disk d path = (\<lambda>_. None))"
    and open_disk: "TransactionDB_Open eng dbo tdo path ns d = (s, hs, q, d') \<Longrightarrow> Status_ok s \<Longrightarrow>
      distinct (map fst ns) \<Longrightarrow> i < length ns \<Longrightarrow>
      cells (obs d') (hs ! i) = (case disk d path (fst (ns ! i)) of None \<Rightarrow> (\<lambda>_. Absent) | Some c \<Rightarrow> c)"

section \<open>An in-memory engine with injected failures\<close>

text \<open>
  \<open>m_faults\<close> scripts the statuses of the next fallible calls, seeks included (an empty script succeeds), \<open>m_nulls\<close>
  the null results of the next \<open>BeginTransaction\<close> and \<open>NewIterator\<close> calls.
\<close>

record memdb =
  m_tab :: "handle \<Rightarrow> (data \<times> cell) list"
  m_cfs :: "handle list"
  m_names :: "(string \<times> handle) list"
  m_path :: string
  m_disk :: "string \<Rightarrow> (string \<times> (data \<times> cell) list) list"
  m_pend :: "txptr \<Rightarrow> wop list"
  m_iter :: "iterptr \<Rightarrow> handle \<times> data option \<times> Status"
  m_next :: nat
  m_faults :: "Status list"
  m_nulls :: "bool list"

definition mem_empty :: memdb where
  "mem_empty = \<lparr>m_tab = (\<lambda>_. []), m_cfs = [], m_names = [], m_path = [], m_disk = (\<lambda>_. []), m_pend = (\<lambda>_. []),
     m_iter = (\<lambda>_. (0, None, Status_OK)), m_next = 0, m_faults = [], m_nulls = []\<rparr>"

definition mem_cell :: "memdb \<Rightarrow> handle \<Rightarrow> data \<Rightarrow> cell" where
  "mem_cell d h k = (case map_of (m_tab d h) k of None \<Rightarrow> Absent | Some c \<Rightarrow> c)"

definition mem_obs :: "memdb \<Rightarrow> dbobs" where
  "mem_obs d = \<lparr>cells = mem_cell d, cfs = set (m_cfs d), names = map_of (map prod.swap (m_names d)),
     location = m_path d\<rparr>"

definition mem_table :: "(data \<times> cell) list \<Rightarrow> data \<Rightarrow> cell" where
  "mem_table tab k = (case map_of tab k of None \<Rightarrow> Absent | Some c \<Rightarrow> c)"

definition mem_disk :: "memdb \<Rightarrow> string \<Rightarrow> string \<Rightarrow> (data \<Rightarrow> cell) option" where
  "mem_disk d path n = map_option mem_table (map_of (m_disk d path) n)"

definition mem_fault :: "memdb \<Rightarrow> Status \<times> memdb" where
  "mem_fault d = (case m_faults d of [] \<Rightarrow> (Status_OK, d) | s # r \<Rightarrow> (s, d\<lparr>m_faults := r\<rparr>))"

definition mem_null :: "memdb \<Rightarrow> bool \<times> memdb" where
  "mem_null d = (case m_nulls d of [] \<Rightarrow> (False, d) | b # r \<Rightarrow> (b, d\<lparr>m_nulls := r\<rparr>))"

definition mem_set :: "handle \<Rightarrow> data \<Rightarrow> cell \<Rightarrow> memdb \<Rightarrow> memdb" where
  "mem_set h k c d = d\<lparr>m_tab := (m_tab d)(h := (k, c) # m_tab d h)\<rparr>"

fun mem_apply :: "wop \<Rightarrow> memdb \<Rightarrow> memdb" where
  "mem_apply (WPut h k v) d = mem_set h k (cell_put v (mem_cell d h k)) d"
| "mem_apply (WDelete h k) d = mem_set h k (Multi None) d"
| "mem_apply (WSingleDelete h k) d = mem_set h k Absent d"
| "mem_apply (WDeleteRange h a b) d = d\<lparr>m_tab := (m_tab d)(h :=
     map (\<lambda>(k, c). (k, if a \<le> k \<and> k < b then Multi None else c)) (m_tab d h))\<rparr>"

definition mem_push :: "txptr \<Rightarrow> wop \<Rightarrow> memdb \<Rightarrow> Status \<times> memdb" where
  "mem_push t x d =
     (let (s, d1) = mem_fault d
      in (s, if Status_ok s then d1\<lparr>m_pend := (m_pend d1)(t := m_pend d1 t @ [x])\<rparr> else d1))"

definition mem_write :: "wop list \<Rightarrow> memdb \<Rightarrow> Status \<times> memdb" where
  "mem_write xs d =
     (let (s, d1) = mem_fault d in (s, if Status_ok s then fold mem_apply xs d1 else d1))"

definition mem_begin :: "txptr option \<Rightarrow> memdb \<Rightarrow> txptr option \<times> memdb" where
  "mem_begin old d =
     (let (b, d1) = mem_null d
      in if b then (None, d1)
         else (case old of
                 Some u \<Rightarrow> (Some u, d1\<lparr>m_pend := (m_pend d1)(u := [])\<rparr>)
               | None \<Rightarrow> (Some (m_next d1),
                   d1\<lparr>m_pend := (m_pend d1)(m_next d1 := []), m_next := Suc (m_next d1)\<rparr>)))"

definition mem_get :: "handle \<Rightarrow> data \<Rightarrow> memdb \<Rightarrow> Status \<times> data \<times> memdb" where
  "mem_get h k d =
     (let (s, d1) = mem_fault d
      in if Status_ok s \<or> Status_IsNotFound s
         then (case cell_value (mem_cell d1 h k) of
                 None \<Rightarrow> (Status_NotFound kNone, [], d1)
               | Some v \<Rightarrow> (Status_OK, v, d1))
         else (s, [], d1))"

definition mem_keys :: "memdb \<Rightarrow> handle \<Rightarrow> data list" where
  "mem_keys d h = filter (\<lambda>k. cell_value (mem_cell d h k) \<noteq> None) (map fst (m_tab d h))"

definition mem_first :: "memdb \<Rightarrow> handle \<Rightarrow> data option" where
  "mem_first d h = (case mem_keys d h of [] \<Rightarrow> None | k # ks \<Rightarrow> Some (fold min ks k))"

definition mem_last :: "memdb \<Rightarrow> handle \<Rightarrow> data option" where
  "mem_last d h = (case mem_keys d h of [] \<Rightarrow> None | k # ks \<Rightarrow> Some (fold max ks k))"

definition mem_newit :: "handle \<Rightarrow> memdb \<Rightarrow> iterptr option \<times> memdb" where
  "mem_newit h d =
     (let (b, d1) = mem_null d
      in if b then (None, d1)
         else (Some (m_next d1),
               d1\<lparr>m_iter := (m_iter d1)(m_next d1 := (h, None, Status_OK)), m_next := Suc (m_next d1)\<rparr>))"

definition mem_seek :: "(memdb \<Rightarrow> handle \<Rightarrow> data option) \<Rightarrow> iterptr \<Rightarrow> memdb \<Rightarrow> memdb" where
  "mem_seek f i d =
     (let (s, d1) = mem_fault d; h = fst (m_iter d1 i)
      in d1\<lparr>m_iter := (m_iter d1)(i := (h, if Status_ok s then f d1 h else None, s))\<rparr>)"

definition mem_fresh :: "memdb \<Rightarrow> handle" where
  "mem_fresh d = Suc (fold max (m_cfs d) (m_next d))"

definition mem_add_cf :: "string \<Rightarrow> (data \<times> cell) list \<Rightarrow> memdb \<Rightarrow> handle \<times> memdb" where
  "mem_add_cf n tab d =
     (let h = mem_fresh d
      in (h, d\<lparr>m_tab := (m_tab d)(h := tab), m_cfs := h # m_cfs d, m_names := (n, h) # m_names d\<rparr>))"

definition mem_create :: "string \<Rightarrow> memdb \<Rightarrow> Status \<times> handle \<times> memdb" where
  "mem_create n d =
     (let (s, d1) = mem_fault d
      in if \<not> Status_ok s then (s, 0, d1)
         else if n \<in> fst ` set (m_names d1) then (Status_of kInvalidArgument kNone, 0, d1)
         else (let (h, d2) = mem_add_cf n [] d1 in (s, h, d2)))"

fun mem_open_cfs :: "string list \<Rightarrow> memdb \<Rightarrow> handle list \<times> memdb" where
  "mem_open_cfs [] d = ([], d)"
| "mem_open_cfs (n # ns) d =
     (let tab = (case map_of (m_disk d (m_path d)) n of None \<Rightarrow> [] | Some tab \<Rightarrow> tab);
          (hs, d1) = mem_open_cfs ns d;
          (h, d2) = mem_add_cf n tab d1
      in (h # hs, d2))"

definition mem_open :: "string \<Rightarrow> string list \<Rightarrow> memdb \<Rightarrow> Status \<times> handle list \<times> dbptr option \<times> memdb" where
  "mem_open path ns d =
     (let (s, d1) = mem_fault d
      in if Status_ok s
         then (let (hs, d2) = mem_open_cfs ns (d1\<lparr>m_cfs := [], m_names := [], m_path := path\<rparr>)
               in (s, hs, Some 0, d2))
         else (s, [], None, d1))"

definition mem_list :: "string \<Rightarrow> memdb \<Rightarrow> Status \<times> string list \<times> memdb" where
  "mem_list path d =
     (let (s, d1) = mem_fault d;
          fams = remdups (map fst (m_disk d1 path))
      in if Status_ok s then (s, fams, d1)
         else if Status_IsPathNotFound s \<and> fams \<noteq> [] then (Status_OK, fams, d1)
         else (s, [], d1))"

definition mem_close :: "memdb \<Rightarrow> memdb" where
  "mem_close d = d\<lparr>m_disk := (m_disk d)(m_path d := List.map_filter (\<lambda>h.
     map_option (\<lambda>n. (n, m_tab d h)) (map_of (map prod.swap (m_names d)) h)) (m_cfs d))\<rparr>"

definition mem_consts :: rocks_consts where
  "mem_consts = \<lparr>Env_Default = Some 1, kDefaultLogLevel = InfoLogLevel_INFO_LEVEL,
     kHostnameForDbHostId = ''__hostname__'', BytewiseComparator = Some 2, SkipListFactory_new = Some 3,
     indeterminate_compression = 0\<rparr>"

definition mem_engine :: "memdb rocksdb" where
  "mem_engine = \<lparr>
     lib_consts = mem_consts,
     DBOptions_ctor = (\<lambda>o1. o1),
     ColumnFamilyOptions_ctor = (\<lambda>o1. o1),
     DBOptions_OptimizeForSmallDb = (\<lambda>o1. o1),
     DBOptions_IncreaseParallelism = (\<lambda>n o1. o1),
     ColumnFamilyOptions_OptimizeForSmallDb = (\<lambda>o1. o1),
     ColumnFamilyOptions_OptimizeLevelStyleCompaction = (\<lambda>n o1. o1),
     NewSstFileManager = (\<lambda>env d. (Some 4, d)),
     NewBlockBasedTableFactory = (\<lambda>bo d. (Some 5, d)),
     ListColumnFamilies = (\<lambda>dbo path d. mem_list path d),
     TransactionDB_Open = (\<lambda>dbo tdo path ns d. mem_open path (map fst ns) d),
     EnableFileDeletions = (\<lambda>p d. (Status_OK, d)),
     CreateColumnFamily = (\<lambda>p cfo n d. mem_create n d),
     BeginTransaction = (\<lambda>p wo to old d. mem_begin old d),
     Tx_Put = (\<lambda>t h k v d. mem_push t (WPut h k v) d),
     Tx_Delete = (\<lambda>t h k d. mem_push t (WDelete h k) d),
     Tx_SingleDelete = (\<lambda>t h k d. mem_push t (WSingleDelete h k) d),
     Tx_Commit = (\<lambda>t d. mem_write (m_pend d t) d),
     Tx_destroy = (\<lambda>t d. d),
     WriteBatch_DeleteRange = (\<lambda>h a b wb. (Status_OK, wb @ [WDeleteRange h a b])),
     TransactionDB_Write = (\<lambda>p wo opt wb d. mem_write wb d),
     DB_Get_ts = (\<lambda>p ro h k ts d. mem_get h k d),
     NewIterator = (\<lambda>p ro h d. mem_newit h d),
     It_SeekToFirst = mem_seek mem_first,
     It_SeekToLast = mem_seek mem_last,
     It_Valid = (\<lambda>i d. fst (snd (m_iter d i)) \<noteq> None),
     It_key = (\<lambda>i d. case fst (snd (m_iter d i)) of None \<Rightarrow> [] | Some k \<Rightarrow> k),
     It_status = (\<lambda>i d. snd (snd (m_iter d i))),
     It_destroy = (\<lambda>i d. d),
     FlushWAL = (\<lambda>p sync d. (Status_OK, d)),
     DB_Flush_cf = (\<lambda>p fo h d. (Status_OK, d)),
     DefaultColumnFamily = (\<lambda>p d. case map_of (m_names d) ''default'' of None \<Rightarrow> 0 | Some h \<Rightarrow> h),
     CompactRange = (\<lambda>p co h d. mem_fault d),
     Handle_destroy = (\<lambda>h d. d),
     DB_destroy = (\<lambda>p d. mem_close d),
     GetRocksVersionAsString = ''10.10.1'',
     GetRocksBuildProperties =
       [''rocksdb_build_git_sha'' \<mapsto> ''0'', ''rocksdb_build_date'' \<mapsto> ''2025-01-01'']\<rparr>"

section \<open>Lemmas\<close>

lemma mem_obs_cong:
  "m_tab d' = m_tab d \<Longrightarrow> m_cfs d' = m_cfs d \<Longrightarrow> m_names d' = m_names d \<Longrightarrow> m_path d' = m_path d \<Longrightarrow>
   mem_obs d' = mem_obs d"
  by (simp add: mem_obs_def mem_cell_def fun_eq_iff)

lemma mem_obs_upd [simp]:
  "mem_obs (d\<lparr>m_pend := x\<rparr>) = mem_obs d" "mem_obs (d\<lparr>m_next := n\<rparr>) = mem_obs d"
  "mem_obs (d\<lparr>m_iter := it\<rparr>) = mem_obs d"
  by (simp_all add: mem_obs_def mem_cell_def fun_eq_iff)

lemma mem_fault_frame:
  assumes "mem_fault d = (s, d')"
  shows "mem_obs d' = mem_obs d" "m_tab d' = m_tab d" "m_cfs d' = m_cfs d" "m_pend d' = m_pend d"
    "m_disk d' = m_disk d" "m_names d' = m_names d" "m_path d' = m_path d" "m_iter d' = m_iter d"
  using assms by (auto simp: mem_fault_def split: list.splits intro!: mem_obs_cong)

lemma mem_null_frame:
  assumes "mem_null d = (s, d')"
  shows "mem_obs d' = mem_obs d" "m_tab d' = m_tab d" "m_cfs d' = m_cfs d"
  using assms by (auto simp: mem_null_def split: list.splits intro!: mem_obs_cong)

lemma mem_cell_set [simp]: "mem_cell (mem_set h k c d) = (mem_cell d)(h := (mem_cell d h)(k := c))"
  by (auto simp: mem_cell_def mem_set_def fun_eq_iff)

lemma mem_set_obs: "mem_obs (mem_set h k c d) = upd_cell h k c (mem_obs d)"
  by (simp add: mem_obs_def upd_cell_def) (simp add: mem_set_def)

lemma map_of_map_range:
  "map_of (map (\<lambda>(k, c). (k, if P k then e else c)) xs) k =
     (if P k then map_option (\<lambda>_. e) (map_of xs k) else map_of xs k)"
  by (induction xs) auto

lemma mem_apply_effect: "op_effect x (mem_obs d) (mem_obs (mem_apply x d))"
proof (cases x)
  case (WDeleteRange h a b)
  let ?f = "\<lambda>k. case map_of (m_tab d h) k of None \<Rightarrow> Absent | Some _ \<Rightarrow> Multi None"
  show ?thesis unfolding WDeleteRange op_effect.simps
    by (rule exI [where x = ?f])
       (auto simp: mem_obs_def mem_cell_def fun_eq_iff map_of_map_range split: option.splits)
qed (auto simp: mem_set_obs, simp_all add: mem_obs_def)

lemma mem_fold_effect: "batch_effect xs (mem_obs d) (mem_obs (fold mem_apply xs d))"
  by (induction xs arbitrary: d) (use mem_apply_effect in \<open>auto\<close>)

lemma mem_push_spec:
  assumes "mem_push t x d = (s, d')"
  shows "mem_obs d' = mem_obs d" and "Status_ok s \<Longrightarrow> m_pend d' t = m_pend d t @ [x]"
  using assms
  by (auto simp: mem_push_def mem_fault_frame split: prod.splits if_splits)

lemma mem_write_spec:
  assumes "mem_write xs d = (s, d')"
  shows "Status_ok s \<Longrightarrow> batch_effect xs (mem_obs d) (mem_obs d')"
    and "\<not> Status_ok s \<Longrightarrow> mem_obs d' = mem_obs d"
  using assms mem_fold_effect [of xs "snd (mem_fault d)"]
  by (auto simp: mem_write_def mem_fault_frame split: prod.splits if_splits)

lemma mem_begin_spec:
  assumes "mem_begin old d = (r, d')"
  shows "mem_obs d' = mem_obs d" and "r = Some t \<Longrightarrow> m_pend d' t = []"
    and "old = Some u \<Longrightarrow> r = Some t \<Longrightarrow> t = u"
  using assms
  by (auto simp: mem_begin_def split: prod.splits if_splits option.splits
      dest: mem_null_frame(1))

lemma mem_get_spec:
  assumes "mem_get h k d = (s, v, d')"
  shows "mem_obs d' = mem_obs d" and "Status_ok s \<Longrightarrow> cell_value (cells (mem_obs d) h k) = Some v"
    and "Status_IsNotFound s \<Longrightarrow> cell_value (cells (mem_obs d) h k) = None"
proof -
  obtain f d1 where f: "mem_fault d = (f, d1)" by fastforce
  have c: "mem_cell d1 = mem_cell d"
    using mem_fault_frame(2) [OF f] by (simp add: mem_cell_def fun_eq_iff)
  show "mem_obs d' = mem_obs d" "Status_ok s \<Longrightarrow> cell_value (cells (mem_obs d) h k) = Some v"
    "Status_IsNotFound s \<Longrightarrow> cell_value (cells (mem_obs d) h k) = None"
    using assms f c mem_fault_frame(1) [OF f]
    by (auto simp: mem_get_def mem_obs_def status_simps Status_NotFound_def
        split: if_splits option.splits)
qed

lemma set_mem_keys: "set (mem_keys d h) = present (mem_obs d) h"
  by (auto simp: mem_keys_def present_def mem_obs_def mem_cell_def split: option.splits
      dest: map_of_SomeD intro: rev_image_eqI)

lemma mem_first_spec:
  "mem_first d h = (if present (mem_obs d) h = {} then None else Some (Min (present (mem_obs d) h)))"
  by (auto simp: mem_first_def simp flip: set_mem_keys Min.set_eq_fold split: list.splits)

lemma mem_last_spec:
  "mem_last d h = (if present (mem_obs d) h = {} then None else Some (Max (present (mem_obs d) h)))"
  by (auto simp: mem_last_def simp flip: set_mem_keys Max.set_eq_fold split: list.splits)

lemma finite_present_mem [simp]: "finite (present (mem_obs d) h)"
  by (simp flip: set_mem_keys)

lemma mem_newit_spec:
  assumes "mem_newit h d = (r, d')"
  shows "mem_obs d' = mem_obs d" and "r = Some i \<Longrightarrow> fst (m_iter d' i) = h"
  using assms
  by (auto simp: mem_newit_def split: prod.splits if_splits
      dest: mem_null_frame(1))

lemma mem_seek_spec:
  assumes "mem_fault d = (s, d1)"
  shows "mem_obs (mem_seek f i d) = mem_obs d"
    and "m_iter (mem_seek f i d) i = (fst (m_iter d i), if Status_ok s then f d1 (fst (m_iter d i)) else None, s)"
  using assms mem_fault_frame [OF assms] by (simp_all add: mem_seek_def Let_def)

lemma mem_seek_obs [simp]: "mem_obs (mem_seek f i d) = mem_obs d"
  by (cases "mem_fault d") (rule mem_seek_spec)

lemma fold_max_ge: "x \<le> fold max xs (x :: nat)" and "y \<in> set xs \<Longrightarrow> y \<le> fold max xs (x :: nat)"
  by (simp_all flip: Max.set_eq_fold)

lemma mem_fresh_notin: "x \<in> set (m_cfs d) \<Longrightarrow> x < mem_fresh d"
  by (simp add: mem_fresh_def less_Suc_eq_le flip: Max.set_eq_fold)

lemma mem_create_spec:
  assumes "mem_create n d = (s, h, d')"
  shows "Status_ok s \<Longrightarrow> h \<notin> cfs (mem_obs d) \<and> cfs (mem_obs d') = insert h (cfs (mem_obs d)) \<and>
      cells (mem_obs d') = (cells (mem_obs d))(h := (\<lambda>_. Absent)) \<and>
      names (mem_obs d') = (names (mem_obs d))(h \<mapsto> n) \<and> location (mem_obs d') = location (mem_obs d) \<and>
      (\<forall>h' \<in> cfs (mem_obs d). names (mem_obs d) h' \<noteq> Some n)"
    and "\<not> Status_ok s \<Longrightarrow> mem_obs d' = mem_obs d"
proof -
  obtain f d1 where f: "mem_fault d = (f, d1)" by fastforce
  have o1: "mem_obs d = mem_obs d1" using mem_fault_frame(1) [OF f] by simp
  have inv: "\<not> Status_ok (Status_of kInvalidArgument kNone)" by code_simp
  have n: "map_of (map prod.swap xs) h = Some n \<Longrightarrow> n \<in> fst ` set xs" for xs :: "(string \<times> handle) list" and h
    by (force dest: map_of_SomeD)
  show "\<not> Status_ok s \<Longrightarrow> mem_obs d' = mem_obs d"
    using assms f o1 by (auto simp: mem_create_def mem_add_cf_def Let_def split: if_splits)
  assume ok: "Status_ok s"
  then have new: "n \<notin> fst ` set (m_names d1)" "h = mem_fresh d1"
    "d' = d1\<lparr>m_tab := (m_tab d1)(h := []), m_cfs := h # m_cfs d1, m_names := (n, h) # m_names d1\<rparr>"
    using assms f inv by (auto simp: mem_create_def mem_add_cf_def Let_def split: if_splits)
  then show "h \<notin> cfs (mem_obs d) \<and> cfs (mem_obs d') = insert h (cfs (mem_obs d)) \<and>
      cells (mem_obs d') = (cells (mem_obs d))(h := (\<lambda>_. Absent)) \<and>
      names (mem_obs d') = (names (mem_obs d))(h \<mapsto> n) \<and> location (mem_obs d') = location (mem_obs d) \<and>
      (\<forall>h' \<in> cfs (mem_obs d). names (mem_obs d) h' \<noteq> Some n)"
    unfolding o1 using mem_fresh_notin [of _ d1] n [of "m_names d1"]
    by (auto simp: mem_obs_def mem_cell_def fun_eq_iff)
qed

lemma mem_open_cfs_spec:
  "mem_open_cfs ns d = (hs, d') \<Longrightarrow> length hs = length ns \<and> distinct hs \<and>
     set (m_cfs d') = set (m_cfs d) \<union> set hs \<and> set (m_cfs d) \<inter> set hs = {} \<and> m_path d' = m_path d \<and>
     map (names (mem_obs d')) hs = map Some ns \<and>
     (\<forall>i < length ns. mem_cell d' (hs ! i) =
        (case map_of (m_disk d (m_path d)) (ns ! i) of None \<Rightarrow> (\<lambda>_. Absent) | Some tab \<Rightarrow> mem_table tab))"
proof (induction ns arbitrary: hs d')
  case (Cons n ns)
  obtain hs1 d1 where r: "mem_open_cfs ns d = (hs1, d1)" by fastforce
  let ?tab = "case map_of (m_disk d (m_path d)) n of None \<Rightarrow> [] | Some tab \<Rightarrow> tab" and ?h = "mem_fresh d1"
  have hs: "hs = ?h # hs1"
    "d' = d1\<lparr>m_tab := (m_tab d1)(?h := ?tab), m_cfs := ?h # m_cfs d1, m_names := (n, ?h) # m_names d1\<rparr>"
    using Cons.prems r by (auto simp: mem_add_cf_def Let_def)
  note IH = Cons.IH [OF r]
  have fresh: "?h \<notin> set (m_cfs d1)" using mem_fresh_notin by blast
  then have notin: "?h \<notin> set hs1" "?h \<notin> set (m_cfs d)" using IH by auto
  have "mem_cell d' (hs ! i) = (case map_of (m_disk d (m_path d)) ((n # ns) ! i) of
      None \<Rightarrow> (\<lambda>_. Absent) | Some tab \<Rightarrow> mem_table tab)" if "i < length (n # ns)" for i
  proof (cases i)
    case 0
    then show ?thesis using hs by (auto simp: mem_cell_def mem_table_def fun_eq_iff split: option.split)
  next
    case (Suc j)
    then have "hs1 ! j \<in> set hs1" using that IH by (intro nth_mem) simp
    then have "hs1 ! j \<noteq> ?h" using notin(1) by metis
    moreover have "mem_cell d' h = mem_cell d1 h" if "h \<noteq> ?h" for h
      using that hs(2) by (simp add: mem_cell_def fun_eq_iff)
    ultimately show ?thesis using Suc that IH hs(1) by simp
  qed
  moreover have "map (names (mem_obs d')) hs1 = map (names (mem_obs d1)) hs1"
    using notin(1) hs(2) by (auto simp: mem_obs_def)
  moreover have "names (mem_obs d') ?h = Some n" using hs(2) by (simp add: mem_obs_def)
  ultimately show ?case using IH hs notin by auto
qed simp

lemma mem_open_spec:
  assumes "mem_open path (map fst ns) d = (s, hs, p, d')"
  shows "Status_ok s \<Longrightarrow> p \<noteq> None \<and> length hs = length ns \<and> distinct hs \<and> set hs = cfs (mem_obs d') \<and>
      map (names (mem_obs d')) hs = map (\<lambda>x. Some (fst x)) ns \<and> location (mem_obs d') = path"
    and "\<not> Status_ok s \<Longrightarrow> p = None"
    and "Status_ok s \<Longrightarrow> i < length ns \<Longrightarrow> cells (mem_obs d') (hs ! i) =
      (case mem_disk d path (fst (ns ! i)) of None \<Rightarrow> (\<lambda>_. Absent) | Some c \<Rightarrow> c)"
proof -
  obtain f d1 where f: "mem_fault d = (f, d1)" by fastforce
  have disk: "m_disk d1 = m_disk d" using mem_fault_frame [OF f] by simp
  have c: "cells (mem_obs d) = mem_cell d" for d by (simp add: mem_obs_def)
  have "mem_open_cfs (map fst ns) (d1\<lparr>m_cfs := [], m_names := [], m_path := path\<rparr>) = (hs, d')"
    if "Status_ok s" using assms f that by (auto simp: mem_open_def split: if_splits prod.splits)
  from mem_open_cfs_spec [OF this] disk
  show "Status_ok s \<Longrightarrow> p \<noteq> None \<and> length hs = length ns \<and> distinct hs \<and> set hs = cfs (mem_obs d') \<and>
      map (names (mem_obs d')) hs = map (\<lambda>x. Some (fst x)) ns \<and> location (mem_obs d') = path"
    "Status_ok s \<Longrightarrow> i < length ns \<Longrightarrow> cells (mem_obs d') (hs ! i) =
      (case mem_disk d path (fst (ns ! i)) of None \<Rightarrow> (\<lambda>_. Absent) | Some c \<Rightarrow> c)"
    using assms f
    by (auto simp: mem_open_def mem_disk_def c comp_def split: if_splits prod.splits option.splits)
      (simp_all add: mem_obs_def)
  show "\<not> Status_ok s \<Longrightarrow> p = None" using assms f by (auto simp: mem_open_def split: if_splits prod.splits)
qed

lemma map_of_map_filter:
  assumes "inj_on f (set hs)"
  shows "map_of (List.map_filter (\<lambda>h. map_option (\<lambda>n. (n, g h)) (f h)) hs) n = Some c \<longleftrightarrow>
    (\<exists>h \<in> set hs. f h = Some n \<and> c = g h)"
  using assms
proof (induction hs)
  case (Cons x hs)
  then have IH: "map_of (List.map_filter (\<lambda>h. map_option (\<lambda>n. (n, g h)) (f h)) hs) n = Some c \<longleftrightarrow>
      (\<exists>h \<in> set hs. f h = Some n \<and> c = g h)" by (simp add: inj_on_def)
  have u: "h = x" if "f x = Some n" "h \<in> set hs" "f h = Some n" for h
    using Cons.prems that by (auto simp: inj_on_def)
  show ?case
  proof (cases "f x = Some n")
    case True
    then show ?thesis using u by (auto simp: List.map_filter_simps)
  next
    case False
    then show ?thesis using IH by (cases "f x") (auto simp: List.map_filter_simps)
  qed
qed (simp add: List.map_filter_simps)

lemma mem_close_disk:
  assumes "inj_on (names (mem_obs d)) (cfs (mem_obs d))"
  shows "mem_disk (mem_close d) (location (mem_obs d)) n = Some c \<longleftrightarrow>
    (\<exists>h \<in> cfs (mem_obs d). names (mem_obs d) h = Some n \<and> c = cells (mem_obs d) h)"
proof -
  let ?f = "map_of (map prod.swap (m_names d))"
  have t: "mem_table (m_tab d h) = mem_cell d h" for h by (simp add: mem_table_def mem_cell_def fun_eq_iff)
  have "map_of (List.map_filter (\<lambda>h. map_option (\<lambda>n. (n, m_tab d h)) (?f h)) (m_cfs d)) n = Some tab \<longleftrightarrow>
      (\<exists>h \<in> set (m_cfs d). ?f h = Some n \<and> tab = m_tab d h)" for tab
    using assms by (intro map_of_map_filter) (simp add: mem_obs_def)
  then show ?thesis by (auto simp: mem_disk_def mem_close_def mem_obs_def t)
qed

lemma mem_list_spec:
  assumes "mem_list path d = (s, fams, d')"
  shows "mem_obs d' = mem_obs d" and "mem_disk d' = mem_disk d" and "distinct fams"
    and "Status_ok s \<Longrightarrow> set fams = dom (mem_disk d path)"
    and "Status_IsPathNotFound s \<Longrightarrow> mem_disk d path = (\<lambda>_. None)"
proof -
  obtain f d1 where f: "mem_fault d = (f, d1)" by fastforce
  note fr = mem_fault_frame [OF f]
  have dom: "dom (mem_disk d path) = set (map fst (m_disk d path))"
    using dom_map_of_conv_image_fst [of "m_disk d path"] by (simp add: mem_disk_def dom_def)
  have d': "d' = d1" using assms f by (auto simp: mem_list_def Let_def split: if_splits)
  then show "mem_obs d' = mem_obs d" "mem_disk d' = mem_disk d"
    using fr by (simp_all add: mem_disk_def fun_eq_iff)
  show "distinct fams" using assms f by (auto simp: mem_list_def Let_def split: if_splits)
  show "Status_ok s \<Longrightarrow> set fams = dom (mem_disk d path)"
    unfolding dom using assms f fr by (auto simp: mem_list_def Let_def image_iff split: if_splits; force)
  have "\<not> Status_IsPathNotFound Status_OK" by code_simp
  moreover have "Status_ok s \<Longrightarrow> \<not> Status_IsPathNotFound s" for s
    by (auto simp: status_simps)
  ultimately show "Status_IsPathNotFound s \<Longrightarrow> mem_disk d path = (\<lambda>_. None)"
    using assms f fr by (auto simp: mem_list_def Let_def mem_disk_def split: if_splits)
qed

text \<open>The in-memory engine has every documented behaviour.\<close>

interpretation mem: rocksdb_spec mem_engine mem_obs m_pend
proof
  fix p h d i d' k
  assume "NewIterator mem_engine p ReadOptions_default h d = (Some i, d')"
  then have "mem_newit h d = (Some i, d')" by (simp add: mem_engine_def)
  note it = mem_newit_spec [OF this]
  obtain s d1 where f: "mem_fault d' = (s, d1)" by fastforce
  have o1: "mem_obs d1 = mem_obs d" and h: "fst (m_iter d' i) = h" using it mem_fault_frame(1) [OF f] by simp_all
  note seek = mem_seek_spec(2) [OF f] mem_first_spec mem_last_spec o1 h
  show "It_Valid mem_engine i (It_SeekToFirst mem_engine i d') \<longleftrightarrow>
      Status_ok (It_status mem_engine i (It_SeekToFirst mem_engine i d')) \<and> present (mem_obs d) h \<noteq> {}"
    "It_Valid mem_engine i (It_SeekToLast mem_engine i d') \<longleftrightarrow>
      Status_ok (It_status mem_engine i (It_SeekToLast mem_engine i d')) \<and> present (mem_obs d) h \<noteq> {}"
    by (simp_all add: mem_engine_def seek)
  assume k: "k \<in> present (mem_obs d) h"
  show "It_key mem_engine i (It_SeekToFirst mem_engine i d') \<in> present (mem_obs d) h \<and>
      It_key mem_engine i (It_SeekToFirst mem_engine i d') \<le> k"
    if "It_Valid mem_engine i (It_SeekToFirst mem_engine i d')"
    using that k by (auto simp: mem_engine_def seek split: if_splits)
  show "It_key mem_engine i (It_SeekToLast mem_engine i d') \<in> present (mem_obs d) h \<and>
      k \<le> It_key mem_engine i (It_SeekToLast mem_engine i d')"
    if "It_Valid mem_engine i (It_SeekToLast mem_engine i d')"
    using that k by (auto simp: mem_engine_def seek split: if_splits)
qed (auto simp: mem_engine_def dest: mem_push_spec mem_write_spec mem_begin_spec mem_get_spec
    mem_newit_spec mem_create_spec mem_open_spec(1,2) mem_fault_frame(1) mem_list_spec(1) split: prod.splits)

interpretation mem: rocksdb_durable mem_engine mem_obs m_pend mem_disk
  by unfold_locales
     (auto simp: mem_engine_def mem_close_disk dest: mem_list_spec mem_open_spec(3) split: prod.splits)

end
