(* ===== verification/Store_Impl.thy ===== *)
theory Store_Impl
  imports Kind_Impl "HOL-Library.AList"
begin

text \<open>
  \<^verbatim>\<open>StoreImpl\<close> (\<^verbatim>\<open>include/impl/StoreImpl.h\<close>, \<^verbatim>\<open>src/impl/StoreImpl.cpp\<close>), the key-value store over a
  RocksDB \<open>TransactionDB\<close>.  The object is a record that extends the machine; every method takes
  and returns it.  The non-recursive mutex \<open>monitor\<close> is a flag, and locking it twice in one thread
  is undefined behaviour.  A \<open>const Kind&\<close> is a reference to the empty kind, to an element of the
  map \<open>kinds\<close> (dangling when the element is gone), to a \<open>KindImpl\<close> that another store owns, which
  \<^verbatim>\<open>toKindImpl\<close> accepts as well, or to an object of another class.  The map is kept as an
  association list; its order stands for the unspecified iteration order.  Methods whose name ends
  in an underscore in the source end in a prime here.
\<close>

section \<open>State\<close>

datatype kindref = EmptyKindRef | InKinds string | OtherStoreRef KindImpl | ForeignRef string bool

record 'd StoreImpl = "'d world" +
  open_flag :: bool
  monitor :: bool
  options :: DBOptions
  txnDbOptions :: TransactionDBOptions
  txnOpts :: TransactionOptions
  columnFamilyOptions :: ColumnFamilyOptions
  writeOptions :: WriteOptions
  readOptions :: ReadOptions
  flushOptions :: FlushOptions
  flushOptionsNoWait :: FlushOptions
  txnDb :: "dbptr option"
  reusable_tx :: "txptr option"
  sstFileManager :: "ref option"
  kinds :: "(string \<times> KindImpl) list"
  path :: string
  version :: string
  code :: int
  totalSinceLastSync :: u64
  lastSync :: int

definition FLUSH_BATCH_SIZE :: u64 where
  "FLUSH_BATCH_SIZE = 16384 - 1"

definition FLUSH_TIME_WINDOW_MILLIS :: int where
  "FLUSH_TIME_WINDOW_MILLIS = 985"

definition DefaultCF :: string where
  "DefaultCF = ''default''"

definition deref_kind :: "'d StoreImpl \<Rightarrow> kindref \<Rightarrow> kindobj option" where
  "deref_kind s k =
     (case k of
        EmptyKindRef \<Rightarrow> Some (Impl KindImpl_default)
      | InKinds n \<Rightarrow> map_option Impl (map_of (kinds s) n)
      | OtherStoreRef ki \<Rightarrow> Some (Impl ki)
      | ForeignRef n v \<Rightarrow> Some (Foreign n v))"

definition synchronize :: "'d StoreImpl \<Rightarrow> 'd StoreImpl option" where
  "synchronize s = (if monitor s then None else Some (s\<lparr>monitor := True\<rparr>))"

definition unlock :: "'d StoreImpl \<Rightarrow> 'd StoreImpl" where
  "unlock s = s\<lparr>monitor := False\<rparr>"

text \<open>\<open>std::chrono::duration_cast\<close> to milliseconds truncates towards zero.\<close>

definition to_millis :: "int \<Rightarrow> int" where
  "to_millis ns = (if 0 \<le> ns then ns div 1000000 else - ((- ns) div 1000000))"

definition since :: "int \<Rightarrow> 'd StoreImpl \<Rightarrow> int \<times> 'd StoreImpl" where
  "since start s = (let (now, s) = steady_now s in (to_millis (now - start), s))"

section \<open>Private helpers\<close>

definition toKindImpl :: "kindobj \<Rightarrow> status \<Rightarrow> KindImpl option \<times> status" where
  "toKindImpl k status =
     (case k of Impl ki \<Rightarrow> (Some ki, status) | Foreign _ _ \<Rightarrow> (None, assign SC_InvalidArgument status))"

definition StoreImpl_isOpen :: "'d StoreImpl \<Rightarrow> bool" where
  "StoreImpl_isOpen s = open_flag s"

definition StoreImpl_getCode :: "'d StoreImpl \<Rightarrow> int" where
  "StoreImpl_getCode s = code s"

definition StoreImpl_validateOpen :: "status \<Rightarrow> 'd StoreImpl \<Rightarrow> bool \<times> status \<times> 'd StoreImpl" where
  "StoreImpl_validateOpen status s =
     (if StoreImpl_isOpen s then (True, assign SC_Ok status, s)
      else (False, assign SC_Closed status, s\<lparr>code := SC_Closed\<rparr>))"

definition StoreImpl_reusableTx ::
  "'d rocksdb \<Rightarrow> 'd StoreImpl \<Rightarrow> (txptr option \<times> 'd StoreImpl) option" where
  "StoreImpl_reusableTx eng s =
     (if reusable_tx s = None
      then do {
        db \<leftarrow> txnDb s;
        let (t, d) = BeginTransaction eng db (writeOptions s) (txnOpts s) None (rdb s);
        Some (t, s\<lparr>rdb := d, reusable_tx := t\<rparr>)
      }
      else Some (reusable_tx s, s))"

definition StoreImpl_deleteIfNewTx ::
  "'d rocksdb \<Rightarrow> txptr option \<Rightarrow> 'd StoreImpl \<Rightarrow> 'd StoreImpl" where
  "StoreImpl_deleteIfNewTx eng tx s =
     (if tx \<noteq> reusable_tx s
      then (case tx of None \<Rightarrow> s | Some t \<Rightarrow> s\<lparr>rdb := Tx_destroy eng t (rdb s)\<rparr>)
      else s)"

definition StoreImpl_syncWALNoLock :: "'d rocksdb \<Rightarrow> 'd StoreImpl \<Rightarrow> 'd StoreImpl option" where
  "StoreImpl_syncWALNoLock eng s =
     (if open_flag s
      then do { db \<leftarrow> txnDb s; Some (s\<lparr>rdb := snd (FlushWAL eng db True (rdb s))\<rparr>) }
      else Some s)"

definition StoreImpl_flushNoLock ::
  "'d rocksdb \<Rightarrow> FlushOptions \<Rightarrow> 'd StoreImpl \<Rightarrow> 'd StoreImpl option" where
  "StoreImpl_flushNoLock eng flushOpts s =
     (if open_flag s
      then do { db \<leftarrow> txnDb s; Some (s\<lparr>rdb := snd (DB_Flush eng db flushOpts (rdb s))\<rparr>) }
      else Some s)"

definition StoreImpl_syncAndReset :: "'d rocksdb \<Rightarrow> 'd StoreImpl \<Rightarrow> 'd StoreImpl option" where
  "StoreImpl_syncAndReset eng s = do {
     s \<leftarrow> StoreImpl_syncWALNoLock eng s;
     let (now, s) = steady_now s;
     Some (s\<lparr>lastSync := now, totalSinceLastSync := 0\<rparr>)
   }"

definition StoreImpl_occasionalWalSync :: "'d rocksdb \<Rightarrow> 'd StoreImpl \<Rightarrow> 'd StoreImpl option" where
  "StoreImpl_occasionalWalSync eng s =
     (let s = s\<lparr>totalSinceLastSync := totalSinceLastSync s + 1\<rparr>;
          (elapsed, s) = since (lastSync s) s
      in if elapsed \<ge> FLUSH_TIME_WINDOW_MILLIS \<or>
            and (totalSinceLastSync s) FLUSH_BATCH_SIZE = 0
         then StoreImpl_syncAndReset eng s
         else Some s)"

text \<open>
  The common shape of \<open>put_\<close>, \<open>remove_\<close> and \<open>singleRemove_\<close>: the three methods differ in the
  one call \<open>call\<close> they make on the transaction.
\<close>

definition StoreImpl_in_tx ::
  "'d rocksdb \<Rightarrow> (txptr \<Rightarrow> handle \<Rightarrow> 'd \<Rightarrow> Status \<times> 'd) \<Rightarrow> status \<Rightarrow> kindref \<Rightarrow> 'd StoreImpl \<Rightarrow>
   (status \<times> 'd StoreImpl) option" where
  "StoreImpl_in_tx eng call status k s = do {
     ko \<leftarrow> deref_kind s k;
     let (kind, status) = toKindImpl ko status;
     case kind of
       None \<Rightarrow> Some (status, s)
     | Some ki \<Rightarrow> do {
         db \<leftarrow> txnDb s;
         (old, s) \<leftarrow> StoreImpl_reusableTx eng s;
         let (tx, d) = BeginTransaction eng db (writeOptions s) (txnOpts s) old (rdb s);
         let s = s\<lparr>rdb := d\<rparr>;
         (status, s) \<leftarrow>
           (case tx of
              None \<Rightarrow> Some (assign SC_NoTransaction status, s)
            | Some t \<Rightarrow> do {
                h \<leftarrow> KindImpl_handle ki;
                let (st, d) = call t h (rdb s);
                let s = s\<lparr>rdb := d\<rparr>;
                if Status_ok st
                then (let (st, d) = Tx_Commit eng t (rdb s);
                          s = s\<lparr>rdb := d\<rparr>
                      in if Status_ok st
                         then map_option (\<lambda>s. (status, s)) (StoreImpl_occasionalWalSync eng s)
                         else Some (assign (Status_code st) status, s))
                else Some (assign (Status_code st) status, s)
              });
         Some (status, StoreImpl_deleteIfNewTx eng tx s)
       }
   }"

definition StoreImpl_put' ::
  "'d rocksdb \<Rightarrow> status \<Rightarrow> kindref \<Rightarrow> data \<Rightarrow> charptr \<Rightarrow> 'd StoreImpl \<Rightarrow> (status \<times> 'd StoreImpl) option" where
  "StoreImpl_put' eng status k key val s =
     StoreImpl_in_tx eng (\<lambda>t h d. Tx_Put eng t h key (slice_of val) d) status k s"

definition StoreImpl_remove' ::
  "'d rocksdb \<Rightarrow> status \<Rightarrow> kindref \<Rightarrow> data \<Rightarrow> 'd StoreImpl \<Rightarrow> (status \<times> 'd StoreImpl) option" where
  "StoreImpl_remove' eng status k key s =
     StoreImpl_in_tx eng (\<lambda>t h d. Tx_Delete eng t h key d) status k s"

definition StoreImpl_singleRemove' ::
  "'d rocksdb \<Rightarrow> status \<Rightarrow> kindref \<Rightarrow> data \<Rightarrow> 'd StoreImpl \<Rightarrow> (status \<times> 'd StoreImpl) option" where
  "StoreImpl_singleRemove' eng status k key s =
     StoreImpl_in_tx eng (\<lambda>t h d. Tx_SingleDelete eng t h key d) status k s"

text \<open>\<open>get_\<close> returns a new array of \<open>*resultLen\<close> bytes, or null.\<close>

definition StoreImpl_get' ::
  "'d rocksdb \<Rightarrow> status \<Rightarrow> kindref \<Rightarrow> lenptr \<Rightarrow> data \<Rightarrow> 'd StoreImpl \<Rightarrow>
   (addr option \<times> status \<times> lenptr \<times> 'd StoreImpl) option" where
  "StoreImpl_get' eng status k resultLen key s = do {
     ko \<leftarrow> deref_kind s k;
     let (kind, status) = toKindImpl ko status;
     case kind of
       None \<Rightarrow> Some (None, status, resultLen, s)
     | Some ki \<Rightarrow> do {
         db \<leftarrow> txnDb s;
         h \<leftarrow> KindImpl_handle ki;
         let (st, pinnable, d) = DB_Get eng db (readOptions s) h key (rdb s);
         let s = s\<lparr>rdb := d\<rparr>;
         if Status_ok st
         then (if pinnable \<noteq> []
               then (let (a, s) = new_copy pinnable s
                     in Some (Some a, status, set_len (length pinnable) resultLen, s))
               else Some (None, status, resultLen, s))
         else Some (None, assign (Status_code st) status, resultLen, s)
       }
   }"

section \<open>Opening and closing\<close>

text \<open>The loop that fills \<open>kinds\<close>; reading a handle past the end of the vector is undefined.\<close>

fun add_kinds :: "string list \<Rightarrow> handle list \<Rightarrow> (string \<times> KindImpl) list \<Rightarrow>
    (string \<times> KindImpl) list option" where
  "add_kinds [] hs ks = Some ks"
| "add_kinds (n # ns) (h # hs) ks = add_kinds ns hs (AList.update n (KindImpl_ctor n (Some h)) ks)"
| "add_kinds (n # ns) [] ks = None"

definition StoreImpl_openDatabase :: "'d rocksdb \<Rightarrow> 'd StoreImpl \<Rightarrow> (Status \<times> 'd StoreImpl) option" where
  "StoreImpl_openDatabase eng s =
     (let (st, families, d) = ListColumnFamilies eng (options s) (path s) (rdb s);
          s = s\<lparr>rdb := d\<rparr>
      in if Status_ok st \<or> Status_IsPathNotFound st
         then (let families = (if families = [] then [DefaultCF] else families);
                   cfDescs = map (\<lambda>cfName. (cfName, columnFamilyOptions s)) families;
                   (st, cfHandles, p, d) =
                     TransactionDB_Open eng (options s) (txnDbOptions s) (path s) cfDescs (rdb s);
                   s = s\<lparr>rdb := d, txnDb := p\<rparr>
               in do {
                    ks \<leftarrow> (if Status_ok st then add_kinds (map fst cfDescs) cfHandles (kinds s) else Some (kinds s));
                    let s = s\<lparr>kinds := ks\<rparr>;
                    db \<leftarrow> txnDb s;
                    Some (st, s\<lparr>rdb := snd (EnableFileDeletions eng db (rdb s))\<rparr>)
                  })
         else Some (st, s))"

text \<open>
  The part of \<open>open_\<close> that configures the options; the update functions of the library are
  fields of \<open>eng\<close>.
\<close>

definition DEFAULT_COMPACTION_MEMTABLE_MEMORY_BUDGET :: u64 where
  "DEFAULT_COMPACTION_MEMTABLE_MEMORY_BUDGET = 192 * 1024 * 1024"

definition configure_DBOptions :: "'d rocksdb \<Rightarrow> 32 word \<Rightarrow> DBOptions \<Rightarrow> DBOptions" where
  "configure_DBOptions eng hardware_concurrency o0 = (
     let o1 = DBOptions_OptimizeForSmallDb eng o0;
         o1 = o1\<lparr>dbo_A := (dbo_A o1)\<lparr>dbo_create_if_missing := True, dbo_error_if_exists := False\<rparr>\<rparr>;
         o1 = o1\<lparr>dbo_C := (dbo_C o1)\<lparr>dbo_keep_log_file_num := 2,
                   dbo_delete_obsolete_files_period_micros := 3600000000\<rparr>\<rparr>;
         o1 = o1\<lparr>dbo_D := (dbo_D o1)\<lparr>dbo_WAL_ttl_seconds := 4 * 3600, dbo_WAL_size_limit_MB := 64\<rparr>\<rparr>;
         o1 = o1\<lparr>dbo_C := (dbo_C o1)\<lparr>dbo_recycle_log_file_num := 10\<rparr>\<rparr>;
         o1 = DBOptions_IncreaseParallelism eng (sint (max hardware_concurrency 2)) o1
     in o1\<lparr>dbo_B := (dbo_B o1)\<lparr>dbo_info_log_level := InfoLogLevel_WARN_LEVEL\<rparr>\<rparr>)"

definition configure_ColumnFamilyOptions ::
  "'d rocksdb \<Rightarrow> ColumnFamilyOptions \<Rightarrow> ColumnFamilyOptions" where
  "configure_ColumnFamilyOptions eng o0 = (
     let o1 = ColumnFamilyOptions_OptimizeForSmallDb eng o0;
         base = cfo_base o1;
         o1 = o1\<lparr>cfo_base := base\<lparr>
                acfo_F := (acfo_F base)\<lparr>acfo_periodic_compaction_seconds := 1 * 24 * 60 * 60\<rparr>,
                acfo_E := (acfo_E base)\<lparr>acfo_optimize_filters_for_hits := True\<rparr>\<rparr>\<rparr>
     in ColumnFamilyOptions_OptimizeLevelStyleCompaction eng DEFAULT_COMPACTION_MEMTABLE_MEMORY_BUDGET o1)"

definition StoreImpl_configure :: "'d rocksdb \<Rightarrow> 'd StoreImpl \<Rightarrow> 'd StoreImpl" where
  "StoreImpl_configure eng s = (
     let s = s\<lparr>options := configure_DBOptions eng (cpus s) (options s)\<rparr>;
         env = (case dbo_env (dbo_B (options s)) of
                  None \<Rightarrow> Env_Default (lib_consts eng)
                | Some e \<Rightarrow> Some e);
         s = (case env of
                None \<Rightarrow> s
              | Some e \<Rightarrow>
                  (let (m, d) = NewSstFileManager eng e (rdb s);
                       s = s\<lparr>rdb := d\<rparr>
                   in case m of
                        None \<Rightarrow> s
                      | Some p \<Rightarrow> s\<lparr>options := (options s)\<lparr>dbo_B := (dbo_B (options s))
                          \<lparr>dbo_sst_file_manager := Some p\<rparr>\<rparr>, sstFileManager := Some p\<rparr>));
         s = s\<lparr>txnDbOptions := (txnDbOptions s)\<lparr>tdo_write_policy := TxnDBWritePolicy_WRITE_COMMITTED\<rparr>,
               columnFamilyOptions := configure_ColumnFamilyOptions eng (columnFamilyOptions s)\<rparr>;
         (f, d) = NewBlockBasedTableFactory eng BlockBasedTableConfig_options (rdb s);
         cfo = columnFamilyOptions s
     in s\<lparr>rdb := d, columnFamilyOptions := cfo\<lparr>cfo_B := (cfo_B cfo)\<lparr>cfo_table_factory := f\<rparr>\<rparr>,
          flushOptions := (flushOptions s)\<lparr>fo_wait := True\<rparr>,
          flushOptionsNoWait := (flushOptionsNoWait s)\<lparr>fo_wait := False\<rparr>\<rparr>)"

definition StoreImpl_open' :: "'d rocksdb \<Rightarrow> 'd StoreImpl \<Rightarrow> 'd StoreImpl option" where
  "StoreImpl_open' eng s = do {
     (st, s) \<leftarrow> StoreImpl_openDatabase eng (StoreImpl_configure eng s);
     s \<leftarrow> (if Status_ok st
           then do {
             (t, s) \<leftarrow> StoreImpl_reusableTx eng s;
             let s = s\<lparr>reusable_tx := t\<rparr>;
             sha \<leftarrow> GetRocksBuildProperties eng ''rocksdb_build_git_sha'';
             date \<leftarrow> GetRocksBuildProperties eng ''rocksdb_build_date'';
             let s = s\<lparr>version := version s @ ''RocksDB version: '' @ GetRocksVersionAsString eng
                       @ '', Git sha: '' @ sha @ '', Compiled: '' @ date\<rparr>;
             Some (s\<lparr>open_flag := True\<rparr>)
           }
           else Some (s\<lparr>code := Status_code st\<rparr>));
     let (now, s) = steady_now s;
     Some (s\<lparr>lastSync := now\<rparr>)
   }"

definition StoreImpl_init :: "'d rocksdb \<Rightarrow> string \<Rightarrow> 'd world \<Rightarrow> 'd StoreImpl" where
  "StoreImpl_init eng pth w =
     \<lparr>rdb = rdb w, heap = heap w, next_addr = next_addr w, clock = clock w, reads = reads w,
      cpus = cpus w, open_flag = False, monitor = False,
      options = DBOptions_ctor eng (DBOptions_default (lib_consts eng)),
      txnDbOptions = TransactionDBOptions_default, txnOpts = TransactionOptions_default,
      columnFamilyOptions = ColumnFamilyOptions_ctor eng (ColumnFamilyOptions_default (lib_consts eng)),
      writeOptions = WriteOptions_default, readOptions = ReadOptions_default, flushOptions = FlushOptions_default,
      flushOptionsNoWait = FlushOptions_default, txnDb = None, reusable_tx = None,
      sstFileManager = None, kinds = [],
      path = c_str pth, version = '''', code = SC_Ok, totalSinceLastSync = 0, lastSync = 0\<rparr>"

definition StoreImpl_ctor :: "'d rocksdb \<Rightarrow> string \<Rightarrow> 'd world \<Rightarrow> 'd StoreImpl option" where
  "StoreImpl_ctor eng pth w = StoreImpl_open' eng (StoreImpl_init eng pth w)"

definition close_handles ::
  "'d rocksdb \<Rightarrow> (string \<times> KindImpl) list \<Rightarrow> 'd \<Rightarrow> 'd" where
  "close_handles eng ks d = fold (\<lambda>(n, k) d. snd (KindImpl_closeHandle eng k d)) ks d"

definition StoreImpl_close :: "'d rocksdb \<Rightarrow> 'd StoreImpl \<Rightarrow> 'd StoreImpl option" where
  "StoreImpl_close eng s = do {
     s \<leftarrow> synchronize s;
     s \<leftarrow> (if open_flag s
           then do {
             let s = s\<lparr>open_flag := False\<rparr>;
             s \<leftarrow> StoreImpl_syncWALNoLock eng s;
             s \<leftarrow> StoreImpl_flushNoLock eng (flushOptions s) s;
             let s = s\<lparr>rdb := close_handles eng (kinds s) (rdb s), kinds := []\<rparr>;
             let s = (case txnDb s of None \<Rightarrow> s | Some p \<Rightarrow> s\<lparr>rdb := DB_destroy eng p (rdb s)\<rparr>);
             Some (s\<lparr>txnDb := None\<rparr>)
           }
           else Some s);
     Some (unlock s)
   }"

definition StoreImpl_dtor :: "'d rocksdb \<Rightarrow> 'd StoreImpl \<Rightarrow> 'd world option" where
  "StoreImpl_dtor eng s = do {
     s \<leftarrow> (if open_flag s then StoreImpl_close eng s else Some s);
     Some (world.truncate s)
   }"

section \<open>Kinds\<close>

definition StoreImpl_getKindManager :: "status \<Rightarrow> 'd StoreImpl \<Rightarrow> status \<times> 'd StoreImpl" where
  "StoreImpl_getKindManager status s = snd (StoreImpl_validateOpen status s)"

definition StoreImpl_getKinds ::
  "status \<Rightarrow> lenptr \<Rightarrow> 'd StoreImpl \<Rightarrow> (kindref list option \<times> status \<times> lenptr \<times> 'd StoreImpl) option" where
  "StoreImpl_getKinds status resultLen s = do {
     s \<leftarrow> synchronize s;
     let (v, status, s) = StoreImpl_validateOpen status s;
     if v
     then do {
       let ppK = map (\<lambda>(n, k). InKinds n) (kinds s);
       old \<leftarrow> resultLen;
       Some (Some ppK, status, Some (length (kinds s)), unlock s)
     }
     else Some (None, assign SC_Closed status, resultLen, unlock s)
   }"

definition StoreImpl_getDefaultKind ::
  "status \<Rightarrow> 'd StoreImpl \<Rightarrow> (kindref \<times> status \<times> 'd StoreImpl) option" where
  "StoreImpl_getDefaultKind status s = do {
     s \<leftarrow> synchronize s;
     let (v, status, s) = StoreImpl_validateOpen status s;
     Some (if v
           then (if map_of (kinds s) DefaultCF \<noteq> None then (InKinds DefaultCF, status, unlock s)
                 else (EmptyKindRef, assign SC_NotFound status, unlock s))
           else (EmptyKindRef, status, unlock s))
   }"

definition StoreImpl_createKind ::
  "'d rocksdb \<Rightarrow> status \<Rightarrow> string \<Rightarrow> 'd StoreImpl \<Rightarrow> (kindref \<times> status \<times> 'd StoreImpl) option" where
  "StoreImpl_createKind eng status kindName s = do {
     let cfName = c_str kindName;
     db \<leftarrow> txnDb s;
     let (st, cfHandle, d) = CreateColumnFamily eng db (columnFamilyOptions s) cfName (rdb s);
     let s = s\<lparr>rdb := d\<rparr>;
     Some (if Status_ok st
           then (InKinds cfName, status,
                 s\<lparr>kinds := AList.update cfName (KindImpl_ctor cfName (Some cfHandle)) (kinds s)\<rparr>)
           else (EmptyKindRef, assign (Status_code st) status, s))
   }"

definition StoreImpl_getOrCreateKind ::
  "'d rocksdb \<Rightarrow> status \<Rightarrow> string \<Rightarrow> 'd StoreImpl \<Rightarrow> (kindref \<times> status \<times> 'd StoreImpl) option" where
  "StoreImpl_getOrCreateKind eng status kindName s = do {
     s \<leftarrow> synchronize s;
     let (v, status, s) = StoreImpl_validateOpen status s;
     (k, status, s) \<leftarrow>
       (if v
        then (if map_of (kinds s) (c_str kindName) \<noteq> None
              then Some (InKinds (c_str kindName), status, s)
              else StoreImpl_createKind eng status kindName s)
        else Some (EmptyKindRef, status, s));
     Some (k, status, unlock s)
   }"

section \<open>Reading and writing\<close>

text \<open>
  \<open>!key || !kind.isValid()\<close>: the kind is only dereferenced when the pointers are not null.
\<close>

definition bad_args :: "bool \<Rightarrow> kindref \<Rightarrow> 'd StoreImpl \<Rightarrow> bool option" where
  "bad_args null k s =
     (if null then Some True else map_option (\<lambda>ko. \<not> Kind_isValid ko) (deref_kind s k))"

definition StoreImpl_put ::
  "'d rocksdb \<Rightarrow> status \<Rightarrow> kindref \<Rightarrow> charptr \<Rightarrow> charptr \<Rightarrow> 'd StoreImpl \<Rightarrow>
   (status \<times> 'd StoreImpl) option" where
  "StoreImpl_put eng status kind key val s = do {
     bad \<leftarrow> bad_args (key = None) kind s;
     if bad then Some (assign SC_InvalidArgument status, s)
     else do {
       s \<leftarrow> synchronize s;
       let (v, status, s) = StoreImpl_validateOpen status s;
       (status, s) \<leftarrow> (if v then StoreImpl_put' eng status kind (slice_of key) val s
                       else Some (assign SC_Closed status, s));
       Some (status, unlock s)
     }
   }"

definition StoreImpl_remove ::
  "'d rocksdb \<Rightarrow> status \<Rightarrow> kindref \<Rightarrow> charptr \<Rightarrow> 'd StoreImpl \<Rightarrow> (status \<times> 'd StoreImpl) option" where
  "StoreImpl_remove eng status kind key s = do {
     bad \<leftarrow> bad_args (key = None) kind s;
     if bad then Some (assign SC_InvalidArgument status, s)
     else do {
       s \<leftarrow> synchronize s;
       let (v, status, s) = StoreImpl_validateOpen status s;
       (status, s) \<leftarrow> (if v then StoreImpl_remove' eng status kind (slice_of key) s
                       else Some (assign SC_Closed status, s));
       Some (status, unlock s)
     }
   }"

definition StoreImpl_singleRemove ::
  "'d rocksdb \<Rightarrow> status \<Rightarrow> kindref \<Rightarrow> charptr \<Rightarrow> 'd StoreImpl \<Rightarrow> (status \<times> 'd StoreImpl) option" where
  "StoreImpl_singleRemove eng status kind key s = do {
     bad \<leftarrow> bad_args (key = None) kind s;
     if bad then Some (assign SC_InvalidArgument status, s)
     else do {
       s \<leftarrow> synchronize s;
       let (v, status, s) = StoreImpl_validateOpen status s;
       (status, s) \<leftarrow> (if v then StoreImpl_singleRemove' eng status kind (slice_of key) s
                       else Some (assign SC_Closed status, s));
       Some (status, unlock s)
     }
   }"

definition StoreImpl_removeRange ::
  "'d rocksdb \<Rightarrow> status \<Rightarrow> kindref \<Rightarrow> charptr \<Rightarrow> charptr \<Rightarrow> 'd StoreImpl \<Rightarrow>
   (status \<times> 'd StoreImpl) option" where
  "StoreImpl_removeRange eng status k beginKeyInclusive endKeyExclusive s = do {
     bad \<leftarrow> bad_args (beginKeyInclusive = None \<or> endKeyExclusive = None) k s;
     if bad then Some (assign SC_InvalidArgument status, s)
     else do {
       s \<leftarrow> synchronize s;
       let (v, status, s) = StoreImpl_validateOpen status s;
       (status, s) \<leftarrow>
         (if v
          then do {
            ko \<leftarrow> deref_kind s k;
            let (kind, status) = toKindImpl ko status;
            case kind of
              None \<Rightarrow> Some (status, s)
            | Some ki \<Rightarrow> do {
                let optim = TransactionDBWriteOptimizations_default\<lparr>skip_concurrency_control := True\<rparr>;
                h \<leftarrow> KindImpl_handle ki;
                let (st, wb) = WriteBatch_DeleteRange eng h (slice_of beginKeyInclusive)
                                 (slice_of endKeyExclusive) [];
                if Status_ok st
                then do {
                  db \<leftarrow> txnDb s;
                  let (st, d) = TransactionDB_Write eng db (writeOptions s) optim wb (rdb s);
                  let s = s\<lparr>rdb := d\<rparr>;
                  Some (if \<not> Status_ok st then assign (Status_code st) status else status, s)
                }
                else Some (assign (Status_code st) status, s)
              }
          }
          else Some (assign SC_Closed status, s));
       Some (status, unlock s)
     }
   }"

definition StoreImpl_get ::
  "'d rocksdb \<Rightarrow> status \<Rightarrow> kindref \<Rightarrow> lenptr \<Rightarrow> charptr \<Rightarrow> 'd StoreImpl \<Rightarrow>
   (addr option \<times> status \<times> lenptr \<times> 'd StoreImpl) option" where
  "StoreImpl_get eng status kind resultLen key s = do {
     bad \<leftarrow> bad_args (key = None \<or> resultLen = None) kind s;
     if bad then Some (None, assign SC_InvalidArgument status, resultLen, s)
     else do {
       let resultLen = set_len 0 resultLen;
       s \<leftarrow> synchronize s;
       let (v, status, s) = StoreImpl_validateOpen status s;
       (r, status, resultLen, s) \<leftarrow>
         (if v then StoreImpl_get' eng status kind resultLen (slice_of key) s
          else Some (None, assign SC_Closed status, resultLen, s));
       Some (r, status, resultLen, unlock s)
     }
   }"

text \<open>
  The read-modify-write operations work on a local \<open>int state\<close> and copy it out at the end.
\<close>

definition StoreImpl_updateIfPresent ::
  "'d rocksdb \<Rightarrow> status \<Rightarrow> kindref \<Rightarrow> lenptr \<Rightarrow> charptr \<Rightarrow> charptr \<Rightarrow> 'd StoreImpl \<Rightarrow>
   (addr option \<times> status \<times> lenptr \<times> 'd StoreImpl) option" where
  "StoreImpl_updateIfPresent eng status kind resultLen key val s = do {
     bad \<leftarrow> bad_args (key = None \<or> resultLen = None) kind s;
     if bad then Some (None, assign SC_InvalidArgument status, resultLen, s)
     else do {
       let resultLen = set_len 0 resultLen;
       s \<leftarrow> synchronize s;
       let (v, status, s) = StoreImpl_validateOpen status s;
       if v
       then do {
         (oldVal, state, resultLen, s) \<leftarrow> StoreImpl_get' eng (Some SC_Ok) kind resultLen (slice_of key) s;
         (state, s) \<leftarrow> (if state = Some SC_Ok then StoreImpl_put' eng state kind (slice_of key) val s
                        else Some (state, s));
         st \<leftarrow> state;
         Some (oldVal, assign st status, resultLen, unlock s)
       }
       else Some (None, assign SC_Closed status, resultLen, unlock s)
     }
   }"

definition StoreImpl_singleRemoveIfPresent ::
  "'d rocksdb \<Rightarrow> status \<Rightarrow> kindref \<Rightarrow> lenptr \<Rightarrow> charptr \<Rightarrow> 'd StoreImpl \<Rightarrow>
   (addr option \<times> status \<times> lenptr \<times> 'd StoreImpl) option" where
  "StoreImpl_singleRemoveIfPresent eng status kind resultLen key s = do {
     bad \<leftarrow> bad_args (key = None \<or> resultLen = None) kind s;
     if bad then Some (None, assign SC_InvalidArgument status, resultLen, s)
     else do {
       let resultLen = set_len 0 resultLen;
       s \<leftarrow> synchronize s;
       let (v, status, s) = StoreImpl_validateOpen status s;
       if v
       then do {
         (oldVal, state, resultLen, s) \<leftarrow> StoreImpl_get' eng (Some SC_Ok) kind resultLen (slice_of key) s;
         (state, s) \<leftarrow> (if state = Some SC_Ok then StoreImpl_singleRemove' eng state kind (slice_of key) s
                        else Some (state, s));
         st \<leftarrow> state;
         Some (oldVal, assign st status, resultLen, unlock s)
       }
       else Some (None, assign SC_Closed status, resultLen, unlock s)
     }
   }"

definition StoreImpl_removeIfPresent ::
  "'d rocksdb \<Rightarrow> status \<Rightarrow> kindref \<Rightarrow> lenptr \<Rightarrow> charptr \<Rightarrow> 'd StoreImpl \<Rightarrow>
   (addr option \<times> status \<times> lenptr \<times> 'd StoreImpl) option" where
  "StoreImpl_removeIfPresent eng status kind resultLen key s = do {
     bad \<leftarrow> bad_args (key = None \<or> resultLen = None) kind s;
     if bad then Some (None, assign SC_InvalidArgument status, resultLen, s)
     else do {
       let resultLen = set_len 0 resultLen;
       s \<leftarrow> synchronize s;
       let (v, status, s) = StoreImpl_validateOpen status s;
       if v
       then do {
         (oldVal, state, resultLen, s) \<leftarrow> StoreImpl_get' eng (Some SC_Ok) kind resultLen (slice_of key) s;
         (state, s) \<leftarrow> (if state = Some SC_Ok then StoreImpl_remove' eng state kind (slice_of key) s
                        else Some (state, s));
         st \<leftarrow> state;
         Some (oldVal, assign st status, resultLen, unlock s)
       }
       else Some (None, assign SC_Closed status, resultLen, unlock s)
     }
   }"

text \<open>The array that \<open>get_\<close> returns is dropped here, as in the source.\<close>

definition StoreImpl_putIfAbsent ::
  "'d rocksdb \<Rightarrow> status \<Rightarrow> kindref \<Rightarrow> charptr \<Rightarrow> charptr \<Rightarrow> 'd StoreImpl \<Rightarrow>
   (status \<times> 'd StoreImpl) option" where
  "StoreImpl_putIfAbsent eng status kind key val s = do {
     bad \<leftarrow> bad_args (key = None) kind s;
     if bad then Some (assign SC_InvalidArgument status, s)
     else do {
       s \<leftarrow> synchronize s;
       let (v, status, s) = StoreImpl_validateOpen status s;
       if v
       then do {
         (dropped, state, dummyLen, s) \<leftarrow>
           StoreImpl_get' eng (Some SC_Ok) kind (Some 0) (slice_of key) s;
         (state, s) \<leftarrow>
           (if state = Some SC_NotFound
            then StoreImpl_put' eng (Some SC_Ok) kind (slice_of key) val s
            else if state = Some SC_Ok then Some (Some SC_AlreadyExists, s)
            else Some (state, s));
         st \<leftarrow> state;
         Some (assign st status, unlock s)
       }
       else Some (assign SC_Closed status, unlock s)
     }
   }"

section \<open>Synchronisation, iteration, compaction\<close>

definition StoreImpl_syncWAL :: "'d rocksdb \<Rightarrow> 'd StoreImpl \<Rightarrow> 'd StoreImpl option" where
  "StoreImpl_syncWAL eng s = do {
     s \<leftarrow> synchronize s; s \<leftarrow> StoreImpl_syncWALNoLock eng s; Some (unlock s) }"

definition StoreImpl_flush :: "'d rocksdb \<Rightarrow> 'd StoreImpl \<Rightarrow> 'd StoreImpl option" where
  "StoreImpl_flush eng s = do {
     s \<leftarrow> synchronize s; s \<leftarrow> StoreImpl_flushNoLock eng (flushOptions s) s; Some (unlock s) }"

definition StoreImpl_flushNoWait :: "'d rocksdb \<Rightarrow> 'd StoreImpl \<Rightarrow> 'd StoreImpl option" where
  "StoreImpl_flushNoWait eng s = do {
     s \<leftarrow> synchronize s; s \<leftarrow> StoreImpl_flushNoLock eng (flushOptionsNoWait s) s; Some (unlock s) }"

text \<open>
  \<open>findMinKey\<close> and \<open>findMaxKey\<close> differ in the seek only.  \<open>*resultLen = 0\<close> needs a non-null
  pointer.
\<close>

definition StoreImpl_findKey ::
  "'d rocksdb \<Rightarrow> (iterptr \<Rightarrow> 'd \<Rightarrow> 'd) \<Rightarrow> status \<Rightarrow> kindref \<Rightarrow> lenptr \<Rightarrow> 'd StoreImpl \<Rightarrow>
   (addr option \<times> status \<times> lenptr \<times> 'd StoreImpl) option" where
  "StoreImpl_findKey eng seek status k resultLen s = do {
     ko \<leftarrow> deref_kind s k;
     if \<not> Kind_isValid ko then Some (None, assign SC_InvalidArgument status, resultLen, s)
     else let (kind, status) = toKindImpl ko status in
       case kind of
         None \<Rightarrow> Some (None, status, resultLen, s)
       | Some ki \<Rightarrow> do {
           old \<leftarrow> resultLen;
           let resultLen = Some 0;
           s \<leftarrow> synchronize s;
           let (v, status, s) = StoreImpl_validateOpen status s;
           if v
           then do {
             db \<leftarrow> txnDb s;
             h \<leftarrow> KindImpl_handle ki;
             let (it, d) = NewIterator eng db (readOptions s) h (rdb s);
             let s = s\<lparr>rdb := d\<rparr>;
             case it of
               Some i \<Rightarrow>
                 (let s = s\<lparr>rdb := seek i (rdb s)\<rparr>;
                      (r, resultLen, s) =
                        (if It_Valid eng i (rdb s)
                         then (let key = It_key eng i (rdb s)
                               in if key \<noteq> []
                                  then (let (a, s) = new_copy key s in (Some a, Some (length key), s))
                                  else (None, resultLen, s))
                         else (None, resultLen, s));
                      s = s\<lparr>rdb := It_destroy eng i (rdb s)\<rparr>
                  in Some (r, status, resultLen, unlock s))
             | None \<Rightarrow> Some (None, assign SC_NoIterator status, resultLen, unlock s)
           }
           else Some (None, assign SC_Closed status, resultLen, unlock s)
         }
   }"

definition StoreImpl_findMinKey ::
  "'d rocksdb \<Rightarrow> status \<Rightarrow> kindref \<Rightarrow> lenptr \<Rightarrow> 'd StoreImpl \<Rightarrow>
   (addr option \<times> status \<times> lenptr \<times> 'd StoreImpl) option" where
  "StoreImpl_findMinKey eng status k resultLen s =
     StoreImpl_findKey eng (It_SeekToFirst eng) status k resultLen s"

definition StoreImpl_findMaxKey ::
  "'d rocksdb \<Rightarrow> status \<Rightarrow> kindref \<Rightarrow> lenptr \<Rightarrow> 'd StoreImpl \<Rightarrow>
   (addr option \<times> status \<times> lenptr \<times> 'd StoreImpl) option" where
  "StoreImpl_findMaxKey eng status k resultLen s =
     StoreImpl_findKey eng (It_SeekToLast eng) status k resultLen s"

text \<open>A failing \<open>dynamic_cast\<close> to a reference throws out of a \<open>noexcept\<close> function.\<close>

definition StoreImpl_compactKind ::
  "'d rocksdb \<Rightarrow> status \<Rightarrow> kindobj \<Rightarrow> 'd StoreImpl \<Rightarrow> (bool \<times> status \<times> 'd StoreImpl) option" where
  "StoreImpl_compactKind eng status kind s =
     (case kind of
        Foreign _ _ \<Rightarrow> None
      | Impl ki \<Rightarrow> do {
          h \<leftarrow> KindImpl_handle ki;
          db \<leftarrow> txnDb s;
          let (st, d) = CompactRange eng db CompactRangeOptions_default h (rdb s);
          let s = s\<lparr>rdb := d\<rparr>;
          Some (if Status_ok st then (True, status, s)
                else (False, assign (Status_code st) status, s))
        })"

definition StoreImpl_compact ::
  "'d rocksdb \<Rightarrow> status \<Rightarrow> kindref \<Rightarrow> 'd StoreImpl \<Rightarrow> (status \<times> 'd StoreImpl) option" where
  "StoreImpl_compact eng status k s = do {
     ko \<leftarrow> deref_kind s k;
     if \<not> Kind_isValid ko then Some (assign SC_InvalidArgument status, s)
     else let (kind, status) = toKindImpl ko status in
       case kind of
         None \<Rightarrow> Some (status, s)
       | Some ki \<Rightarrow> do {
           s \<leftarrow> synchronize s;
           let (v, status, s) = StoreImpl_validateOpen status s;
           if v
           then do { (b, status, s) \<leftarrow> StoreImpl_compactKind eng status ko s; Some (status, unlock s) }
           else Some (assign SC_Closed status, unlock s)
         }
   }"

fun compact_loop ::
  "'d rocksdb \<Rightarrow> status \<Rightarrow> (string \<times> KindImpl) list \<Rightarrow> 'd StoreImpl \<Rightarrow> (status \<times> 'd StoreImpl) option" where
  "compact_loop eng status [] s = Some (status, s)"
| "compact_loop eng status ((n, k) # ks) s = do {
     (b, status, s) \<leftarrow> StoreImpl_compactKind eng status (Impl k) s;
     if \<not> b then Some (status, s) else compact_loop eng status ks s
   }"

definition StoreImpl_compactAll ::
  "'d rocksdb \<Rightarrow> status \<Rightarrow> 'd StoreImpl \<Rightarrow> (status \<times> 'd StoreImpl) option" where
  "StoreImpl_compactAll eng status s = do {
     s \<leftarrow> synchronize s;
     let (v, status, s) = StoreImpl_validateOpen status s;
     if v
     then do { (status, s) \<leftarrow> compact_loop eng status (kinds s) s; Some (status, unlock s) }
     else Some (assign SC_Closed status, unlock s)
   }"

end
