(* ===== verification/U64_Codec.thy ===== *)
theory U64_Codec
  imports Rocks_Slice
begin

text \<open>
  The key codec of the queue, \<open>putU64BE\<close> and \<open>getU64BE\<close> of \<^verbatim>\<open>include/impl/KueueImpl.h\<close>: a message
  number is stored as eight big-endian bytes.  The host is little-endian (x86-64 Windows):
  \<open>le_bytes\<close> and \<open>le_word\<close> are what \<open>memcpy\<close> from and to an \<open>unsigned __int64\<close> sees, and
  \<open>_byteswap_uint64\<close> reverses the bytes.  The lemmas show that decoding inverts encoding and that
  the lexicographic order of the encoded keys, which is the order of RocksDB's iterators, is the
  numeric order of the message numbers.
\<close>

section \<open>Definitions\<close>

fun le_bytes :: "nat \<Rightarrow> u64 \<Rightarrow> data" where
  "le_bytes 0 x = []"
| "le_bytes (Suc n) x = ucast x # le_bytes n (drop_bit 8 x)"

fun le_word :: "data \<Rightarrow> u64" where
  "le_word [] = 0"
| "le_word (b # bs) = ucast b + push_bit 8 (le_word bs)"

definition byteswap_uint64 :: "u64 \<Rightarrow> u64" where
  "byteswap_uint64 x = le_word (rev (le_bytes 8 x))"

definition putU64BE :: "u64 \<Rightarrow> data" where
  "putU64BE x = (let be = byteswap_uint64 x in le_bytes 8 be)"

text \<open>Reading fewer than eight bytes is out of range.\<close>

definition getU64BE :: "data \<Rightarrow> u64 option" where
  "getU64BE src =
     (if 8 \<le> length src then (let be = le_word (take 8 src) in Some (byteswap_uint64 be)) else None)"

definition MIN_KEY :: u64 where
  "MIN_KEY = 0"

definition MAX_KEY :: u64 where
  "MAX_KEY = 0xFFFFFFFFFFFFFFFF"

section \<open>Lemmas\<close>

text \<open>The number a list of bytes stands for, least significant byte first and last.\<close>

fun le_val :: "data \<Rightarrow> nat" where
  "le_val [] = 0"
| "le_val (b # bs) = unat b + 256 * le_val bs"

fun be_val :: "data \<Rightarrow> nat" where
  "be_val [] = 0"
| "be_val (b # bs) = unat b * 256 ^ length bs + be_val bs"

lemma unat_byte_less [simp]: "unat (b :: byte) < 256"
proof -
  have "unat b < 2 ^ LENGTH(8)" by (rule unsigned_less)
  then show ?thesis by simp
qed

lemma unat_byte_le [simp]: "unat (b :: byte) \<le> 255"
  using unat_byte_less [of b] by linarith

lemma unat_u64_less [simp]: "unat (x :: u64) < 18446744073709551616"
proof -
  have "unat x < 2 ^ LENGTH(64)" by (rule unsigned_less)
  then show ?thesis by simp
qed

lemma le_val_less: "le_val bs < 256 ^ length bs"
proof (induction bs)
  case (Cons b bs)
  have "unat b + 256 * le_val bs < 256 * (le_val bs + 1)" using unat_byte_less [of b] by simp
  also have "\<dots> \<le> 256 * 256 ^ length bs"
    using Cons.IH by (intro mult_le_mono2) simp
  finally show ?case by simp
qed simp

lemma be_val_less: "be_val bs < 256 ^ length bs"
proof (induction bs)
  case (Cons b bs)
  have "(unat b + 1) * 256 ^ length bs \<le> 256 * 256 ^ length bs"
    using unat_byte_le [of b] by (intro mult_le_mono1) simp
  moreover have "(unat b + 1) * 256 ^ length bs = unat b * 256 ^ length bs + 256 ^ length bs"
    by simp
  ultimately show ?case using Cons.IH by (simp only: be_val.simps length_Cons power_Suc)
qed simp

lemma be_val_append: "be_val (xs @ ys) = be_val xs * 256 ^ length ys + be_val ys"
  by (induction xs) (auto simp: power_add algebra_simps)

lemma be_val_rev: "be_val (rev bs) = le_val bs"
  by (induction bs) (auto simp: be_val_append)

lemma less_iff_be_val: "length xs = length ys \<Longrightarrow> xs < ys \<longleftrightarrow> be_val xs < be_val ys"
proof (induction xs ys rule: list_induct2)
  case (Cons x xs y ys)
  let ?B = "256 ^ length ys :: nat"
  have bx: "be_val xs < ?B" and b_y: "be_val ys < ?B"
    using be_val_less [of xs] be_val_less [of ys] Cons.hyps by simp_all
  show ?case
  proof (cases "x = y")
    case True
    then show ?thesis using Cons by simp
  next
    case False
    then have ne: "unat x \<noteq> unat y" by (simp add: word_unat_eq_iff)
    have "unat a * ?B + p < unat c * ?B + q" if "unat a < unat c" "p < ?B" for a c :: byte and p q
    proof -
      have "unat a * ?B + p < (unat a + 1) * ?B" using that(2) by simp
      also have "\<dots> \<le> unat c * ?B" using that(1) by (intro mult_le_mono1) simp
      finally show ?thesis by simp
    qed
    from this [of x y "be_val xs" "be_val ys"] this [of y x "be_val ys" "be_val xs"]
    show ?thesis using ne bx b_y Cons.hyps False
      by (cases "unat x < unat y") (auto simp: word_less_nat_alt)
  qed
qed simp

lemma unat_le_word: "length bs \<le> 8 \<Longrightarrow> unat (le_word bs) = le_val bs"
proof (induction bs)
  case (Cons b bs)
  have "le_val (b # bs) < 256 ^ length (b # bs)" by (rule le_val_less)
  also have "(256::nat) ^ length (b # bs) \<le> 256 ^ 8" using Cons.prems by (intro power_increasing) auto
  finally have lt: "unat b + 256 * le_val bs < 2 ^ 64" by simp
  have "push_bit 8 (le_word bs) = 256 * le_word bs" by (simp add: push_bit_eq_mult)
  then have p: "unat (push_bit 8 (le_word bs)) = 256 * le_val bs"
    using Cons lt by (simp add: unat_word_ariths)
  have u: "unat (ucast b :: u64) = unat b"
    using unat_byte_less [of b]
    by (simp add: unsigned_ucast_eq take_bit_eq_mod mod_less order_less_trans [OF unat_byte_less])
  show ?case using lt by (simp add: unat_word_ariths p u)
qed simp

lemma le_val_le_bytes: "le_val (le_bytes n x) = unat x mod 256 ^ n"
proof (induction n arbitrary: x)
  case (Suc n)
  have "unat (ucast x :: byte) = unat x mod 256" by (simp add: unsigned_ucast_eq take_bit_eq_mod)
  moreover have "unat (drop_bit 8 x) = unat x div 256" using drop_bit_eq_div [of 8 "unat x"] by (simp add: unat_drop_bit_eq)
  ultimately show ?case using Suc by (simp add: mod_mult2_eq)
qed simp

lemma length_le_bytes [simp]: "length (le_bytes n x) = n"
  by (induction n arbitrary: x) auto

lemma le_word_le_bytes [simp]: "le_word (le_bytes 8 x) = x"
proof -
  have "unat (le_word (le_bytes 8 x)) = unat x mod 2 ^ 64"
    using unat_le_word [of "le_bytes 8 x"] by (simp add: le_val_le_bytes)
  then show ?thesis by (simp add: word_unat_eq_iff)
qed

lemma le_val_inj: "length xs = length ys \<Longrightarrow> le_val xs = le_val ys \<Longrightarrow> xs = ys"
proof (induction xs ys rule: list_induct2)
  case (Cons x xs y ys)
  have "unat x = unat y"
  proof -
    have "(unat x + 256 * le_val xs) mod 256 = (unat y + 256 * le_val ys) mod 256"
      using Cons.prems by simp
    then show ?thesis by simp
  qed
  then show ?case using Cons by (simp add: word_unat_eq_iff)
qed simp

lemma le_bytes_le_word: "length bs = 8 \<Longrightarrow> le_bytes 8 (le_word bs) = bs"
proof (rule le_val_inj)
  assume l: "length bs = 8"
  then show "length (le_bytes 8 (le_word bs)) = length bs" by simp
  show "le_val (le_bytes 8 (le_word bs)) = le_val bs"
    using l le_val_less [of bs] by (simp add: le_val_le_bytes unat_le_word)
qed

lemma putU64BE_rev: "putU64BE x = rev (le_bytes 8 x)"
  by (simp add: putU64BE_def byteswap_uint64_def le_bytes_le_word)

lemma length_putU64BE [simp]: "length (putU64BE x) = 8"
  by (simp add: putU64BE_rev)

lemma be_val_putU64BE [simp]: "be_val (putU64BE x) = unat x"
  by (simp add: putU64BE_rev be_val_rev le_val_le_bytes)

lemma getU64BE_putU64BE [simp]: "getU64BE (putU64BE x) = Some x"
  by (simp add: getU64BE_def byteswap_uint64_def putU64BE_rev le_bytes_le_word)

lemma putU64BE_getU64BE: "length bs = 8 \<Longrightarrow> getU64BE bs = Some x \<Longrightarrow> putU64BE x = bs"
  by (auto simp: getU64BE_def byteswap_uint64_def putU64BE_rev le_bytes_le_word)

lemma putU64BE_inj [simp]: "putU64BE x = putU64BE y \<longleftrightarrow> x = y"
  by (metis getU64BE_putU64BE option.inject)

lemma putU64BE_less [simp]: "putU64BE x < putU64BE y \<longleftrightarrow> x < y"
  by (simp add: less_iff_be_val word_less_nat_alt)

lemma putU64BE_le [simp]: "putU64BE x \<le> putU64BE y \<longleftrightarrow> x \<le> y"
  by (metis linorder_not_less putU64BE_less)

lemma putU64BE_not_Nil [simp]: "putU64BE x \<noteq> []"
  by (metis length_putU64BE list.size(3) zero_neq_numeral)

section \<open>Property\<close>

text \<open>
  C19: the keys of the queue.  \<^verbatim>\<open>putU64BE\<close> writes eight bytes, \<^verbatim>\<open>getU64BE\<close> reads the number back, every
  eight bytes are the key of the number they read as, and the bytewise order of the keys in RocksDB is
  the order of the unsigned 64-bit numbers.
\<close>

theorem u64_keys_order_roundtrip:
  "length (putU64BE x) = 8 \<and> getU64BE (putU64BE x) = Some x \<and>
   (length bs = 8 \<longrightarrow> (\<exists>y. getU64BE bs = Some y \<and> putU64BE y = bs)) \<and>
   (putU64BE x < putU64BE y \<longleftrightarrow> x < y) \<and> (putU64BE x = putU64BE y \<longleftrightarrow> x = y)"
proof -
  have "\<exists>y. getU64BE bs = Some y" if "length bs = 8" using that by (simp add: getU64BE_def)
  then show ?thesis using putU64BE_getU64BE [of bs] by auto
qed

theorem u64_keys_order_roundtrip_witness:
  "\<exists>y. getU64BE [0, 0, 0, 0, 0, 0, 1, 2] = Some y \<and> putU64BE y = [0, 0, 0, 0, 0, 0, 1, 2]"
  using u64_keys_order_roundtrip [of 0 "[0, 0, 0, 0, 0, 0, 1, 2]" 0] by simp

end
