(* ===== verification/Kueue_Impl.thy ===== *)
theory Kueue_Impl
  imports Store_Impl U64_Codec
begin

text \<open>
  \<^verbatim>\<open>KueueImpl\<close> (\<^verbatim>\<open>include/impl/KueueImpl.h\<close>), the persistent queue: messages are the values of one
  kind of the store, under consecutive 64-bit keys from \<open>minKey\<close> to \<open>maxKey - 1\<close>.  The methods are
  modelled as they run when no other thread interferes; \<open>count\<close> is the signed 64-bit atomic,
  \<open>signals\<close> counts the calls of \<open>notEmpty.notify_one\<close>.  A \<open>take\<close> that would wait for ever returns
  \<open>Blocked\<close>.  \<open>status ? status : &r\<close> is the local cell \<open>state\<close>, copied out at the end when the
  caller passed a pointer.
\<close>

section \<open>State\<close>

record KueueImpl =
  totalPuts :: u64
  totalTakes :: u64
  kcount :: u64
  putLock :: bool
  takeLock :: bool
  signals :: nat
  minKey :: u64
  maxKey :: u64
  queueKind :: "kindref option"
  kvalid :: bool

datatype 'a wait = Blocked | Done 'a

definition state_of :: "status \<Rightarrow> int" where
  "state_of status = (case status of None \<Rightarrow> SC_Ok | Some v \<Rightarrow> v)"

definition lock_put :: "KueueImpl \<Rightarrow> KueueImpl option" where
  "lock_put q = (if putLock q then None else Some (q\<lparr>putLock := True\<rparr>))"

definition lock_take :: "KueueImpl \<Rightarrow> KueueImpl option" where
  "lock_take q = (if takeLock q then None else Some (q\<lparr>takeLock := True\<rparr>))"

definition notify_one :: "KueueImpl \<Rightarrow> KueueImpl" where
  "notify_one q = q\<lparr>signals := Suc (signals q)\<rparr>"

definition KueueImpl_getKindRef :: "KueueImpl \<Rightarrow> kindref option" where
  "KueueImpl_getKindRef q = queueKind q"

definition KueueImpl_signalNotEmpty :: "KueueImpl \<Rightarrow> KueueImpl option" where
  "KueueImpl_signalNotEmpty q = do {
     q \<leftarrow> lock_take q;
     Some ((notify_one q)\<lparr>takeLock := False\<rparr>)
   }"

section \<open>Construction\<close>

definition KueueImpl_init :: KueueImpl where
  "KueueImpl_init = \<lparr>totalPuts = 0, totalTakes = 0, kcount = 0, putLock = False, takeLock = False,
     signals = 0, minKey = MIN_KEY, maxKey = MIN_KEY, queueKind = None, kvalid = False\<rparr>"

text \<open>\<open>ptr && length == sizeof(unsigned __int64)\<close> and the number read through the pointer.\<close>

definition read_key :: "addr option \<Rightarrow> lenptr \<Rightarrow> 'd StoreImpl \<Rightarrow> u64 option option" where
  "read_key p len s =
     (case p of
        None \<Rightarrow> Some None
      | Some a \<Rightarrow> (if len = Some 8 then do { bs \<leftarrow> heap s a; x \<leftarrow> getU64BE bs; Some (Some x) }
                   else Some None))"

definition KueueImpl_ctor ::
  "'d rocksdb \<Rightarrow> string \<Rightarrow> 'd StoreImpl \<Rightarrow> (KueueImpl \<times> 'd StoreImpl) option" where
  "KueueImpl_ctor eng qid s = do {
     let q = KueueImpl_init;
     let (state, s) = StoreImpl_getKindManager (Some SC_Ok) s;
     if state = Some SC_Ok
     then do {
       (kind, state, s) \<leftarrow> StoreImpl_getOrCreateKind eng state qid s;
       if state = Some SC_Ok
       then do {
         ko \<leftarrow> deref_kind s kind;
         if Kind_isValid ko
         then do {
           let q = q\<lparr>queueKind := Some kind\<rparr>;
           (smallestKey, state, len, s) \<leftarrow> StoreImpl_findMinKey eng state kind (Some 0) s;
           if state = Some SC_Ok
           then do {
             small \<leftarrow> read_key smallestKey len s;
             let q = (case small of Some x \<Rightarrow> q\<lparr>minKey := x\<rparr> | None \<Rightarrow> q);
             (greatestKey, state, len, s) \<leftarrow> StoreImpl_findMaxKey eng state kind len s;
             if state = Some SC_Ok
             then do {
               great \<leftarrow> read_key greatestKey len s;
               let (lastMax, q) =
                 (case great of Some x \<Rightarrow> (x, q\<lparr>maxKey := x + 1\<rparr>) | None \<Rightarrow> (maxKey q, q));
               let q = (if lastMax \<ge> minKey q
                        then (let c = maxKey q - minKey q in q\<lparr>kcount := c, kvalid := (sint c \<ge> 0)\<rparr>)
                        else q);
               Some (q, s)
             }
             else Some (q, s)
           }
           else Some (q, s)
         }
         else Some (q, s)
       }
       else Some (q, s)
     }
     else Some (q, s)
   }"

section \<open>Operations\<close>

definition KueueImpl_put ::
  "'d rocksdb \<Rightarrow> status \<Rightarrow> charptr \<Rightarrow> KueueImpl \<Rightarrow> 'd StoreImpl \<Rightarrow>
   (status \<times> KueueImpl \<times> 'd StoreImpl) option" where
  "KueueImpl_put eng status val q s =
     (if kvalid q
      then do {
        q \<leftarrow> lock_put q;
        kind \<leftarrow> KueueImpl_getKindRef q;
        let key = putU64BE (maxKey q);
        let q = q\<lparr>maxKey := maxKey q + 1\<rparr>;
        (state, s) \<leftarrow> StoreImpl_put eng (Some (state_of status)) kind (Some key) val s;
        st \<leftarrow> state;
        let (c, q) = (if st = SC_Ok
                      then (kcount q, q\<lparr>kcount := kcount q + 1, totalPuts := totalPuts q + 1\<rparr>)
                      else (- 1, q\<lparr>maxKey := maxKey q - 1\<rparr>));
        let q = q\<lparr>putLock := False\<rparr>;
        q \<leftarrow> (if c = 0 then KueueImpl_signalNotEmpty q else Some q);
        Some (assign st status, q, s)
      }
      else Some (assign SC_Invalid status, q, s))"

text \<open>
  The part of \<open>take\<close> after the wait, with \<open>takeLock\<close> held: it is the same in both overloads.
\<close>

definition KueueImpl_take_body ::
  "'d rocksdb \<Rightarrow> status \<Rightarrow> lenptr \<Rightarrow> KueueImpl \<Rightarrow> 'd StoreImpl \<Rightarrow>
   (addr option \<times> status \<times> lenptr \<times> KueueImpl \<times> 'd StoreImpl) option" where
  "KueueImpl_take_body eng status valLen q s = do {
     kind \<leftarrow> KueueImpl_getKindRef q;
     (val, state, valLen, s) \<leftarrow> StoreImpl_singleRemoveIfPresent eng (Some (state_of status)) kind
       valLen (Some (putU64BE (minKey q))) s;
     st \<leftarrow> state;
     let (c, q) = (if st = SC_Ok
                   then (kcount q, q\<lparr>minKey := minKey q + 1, kcount := kcount q - 1,
                                     totalTakes := totalTakes q + 1\<rparr>)
                   else (- 1, q));
     let q = (if sint c > 1 then notify_one q else q);
     Some (val, assign st status, valLen, q\<lparr>takeLock := False\<rparr>, s)
   }"

definition KueueImpl_take ::
  "'d rocksdb \<Rightarrow> status \<Rightarrow> lenptr \<Rightarrow> KueueImpl \<Rightarrow> 'd StoreImpl \<Rightarrow>
   (addr option \<times> status \<times> lenptr \<times> KueueImpl \<times> 'd StoreImpl) wait option" where
  "KueueImpl_take eng status valLen q s =
     (if kvalid q
      then do {
        q \<leftarrow> lock_take q;
        if kcount q = 0 then Some Blocked
        else map_option Done (KueueImpl_take_body eng status valLen q s)
      }
      else Some (Done (None, assign SC_Invalid status, valLen, q, s)))"

text \<open>
  \<open>wait_for\<close> with a predicate returns at once when the predicate holds; when nobody else runs it
  ends with the time-out, and the wait without a time-out does not end.
\<close>

definition KueueImpl_take_timeout ::
  "'d rocksdb \<Rightarrow> status \<Rightarrow> lenptr \<Rightarrow> int \<Rightarrow> KueueImpl \<Rightarrow> 'd StoreImpl \<Rightarrow>
   (addr option \<times> status \<times> lenptr \<times> KueueImpl \<times> 'd StoreImpl) wait option" where
  "KueueImpl_take_timeout eng status valLen timeout q s =
     (if kvalid q
      then do {
        q \<leftarrow> lock_take q;
        if sint (kcount q) > 0 then map_option Done (KueueImpl_take_body eng status valLen q s)
        else if timeout > 0
             then Some (Done (None, assign SC_TimedOut status, valLen, q\<lparr>takeLock := False\<rparr>, s))
             else Some Blocked
      }
      else Some (Done (None, assign SC_Invalid status, valLen, q, s)))"

definition KueueImpl_readNext ::
  "'d rocksdb \<Rightarrow> status \<Rightarrow> lenptr \<Rightarrow> u64 option \<Rightarrow> int \<Rightarrow> KueueImpl \<Rightarrow> 'd StoreImpl \<Rightarrow>
   (addr option \<times> status \<times> lenptr \<times> u64 option \<times> KueueImpl \<times> 'd StoreImpl) wait option" where
  "KueueImpl_readNext eng status valLen pKey timeout q s =
     (if kvalid q
      then do {
        q \<leftarrow> lock_take q;
        if sint (kcount q) > 0
        then do {
          kind \<leftarrow> KueueImpl_getKindRef q;
          (val, state, valLen, s) \<leftarrow> StoreImpl_get eng (Some (state_of status)) kind valLen
            (Some (putU64BE (minKey q))) s;
          st \<leftarrow> state;
          let pKey = (if st = SC_Ok then map_option (\<lambda>_. minKey q) pKey else pKey);
          Some (Done (val, assign st status, valLen, pKey, q\<lparr>takeLock := False\<rparr>, s))
        }
        else if timeout > 0
             then Some (Done (None, assign SC_TimedOut status, valLen, pKey, q\<lparr>takeLock := False\<rparr>, s))
             else Some Blocked
      }
      else Some (Done (None, assign SC_Invalid status, valLen, pKey, q, s)))"

definition KueueImpl_erase ::
  "'d rocksdb \<Rightarrow> u64 \<Rightarrow> KueueImpl \<Rightarrow> 'd StoreImpl \<Rightarrow> (bool \<times> KueueImpl \<times> 'd StoreImpl) option" where
  "KueueImpl_erase eng key q s =
     (if kvalid q \<and> key = minKey q
      then do {
        q \<leftarrow> lock_take q;
        (st, q, s) \<leftarrow>
          (if key = minKey q
           then do {
             kind \<leftarrow> KueueImpl_getKindRef q;
             (state, s) \<leftarrow> StoreImpl_singleRemove eng (Some SC_Ok) kind (Some (putU64BE key)) s;
             st \<leftarrow> state;
             let (c, q) = (if st = SC_Ok
                           then (kcount q, q\<lparr>minKey := minKey q + 1, kcount := kcount q - 1,
                                             totalTakes := totalTakes q + 1\<rparr>)
                           else (- 1, q));
             let q = (if sint c > 1 then notify_one q else q);
             Some (st, q, s)
           }
           else Some (SC_Ok, q, s));
        Some (st = SC_Ok, q\<lparr>takeLock := False\<rparr>, s)
      }
      else Some (False, q, s))"

text \<open>Decrementing a positive signed counter does not wrap.\<close>

lemma sint_dec:
  assumes "0 < sint (c :: u64)"
  shows "sint (c - 1) = sint c - 1"
proof -
  have "sint c < 2 ^ (LENGTH(64) - 1)" by (rule sint_lt)
  with assms have "signed_take_bit (LENGTH(64) - 1) (sint c - 1) = sint c - 1"
    by (intro signed_take_bit_int_eq_self) auto
  moreover have "sint (c - 1) = signed_take_bit (LENGTH(64) - 1) (sint c - sint (1 :: u64))"
    by (rule sint_word_ariths(2))
  ultimately show ?thesis by simp
qed

function clear_loop ::
  "'d rocksdb \<Rightarrow> int \<Rightarrow> KueueImpl \<Rightarrow> 'd StoreImpl \<Rightarrow> (int \<times> KueueImpl \<times> 'd StoreImpl) option" where
  "clear_loop eng st q s =
     (if sint (kcount q) > 0
      then do {
        kind \<leftarrow> KueueImpl_getKindRef q;
        (state, s) \<leftarrow> StoreImpl_singleRemove eng (Some st) kind (Some (putU64BE (minKey q))) s;
        st \<leftarrow> state;
        if st = SC_Ok
        then clear_loop eng st (q\<lparr>minKey := minKey q + 1, kcount := kcount q - 1,
                                  totalTakes := totalTakes q + 1\<rparr>) s
        else Some (st, q, s)
      }
      else Some (st, q, s))"
  by pat_completeness auto
termination
proof (relation "measure (\<lambda>(eng, st, q, s). nat (sint (kcount q)))", goal_cases)
  case 1
  then show ?case by simp
next
  case (2 eng st q s)
  then show ?case by (simp add: sint_dec)
qed

definition KueueImpl_clear ::
  "'d rocksdb \<Rightarrow> status \<Rightarrow> KueueImpl \<Rightarrow> 'd StoreImpl \<Rightarrow>
   (status \<times> KueueImpl \<times> 'd StoreImpl) option" where
  "KueueImpl_clear eng status q s =
     (if kvalid q
      then do {
        q \<leftarrow> lock_put q;
        q \<leftarrow> lock_take q;
        (st, q, s) \<leftarrow> clear_loop eng (state_of status) q s;
        Some (assign st status, q\<lparr>takeLock := False, putLock := False\<rparr>, s)
      }
      else Some (assign SC_Invalid status, q, s))"

section \<open>Observers\<close>

definition KueueImpl_size :: "KueueImpl \<Rightarrow> int" where
  "KueueImpl_size q = sint (kcount q)"

definition KueueImpl_isEmpty :: "KueueImpl \<Rightarrow> bool" where
  "KueueImpl_isEmpty q \<longleftrightarrow> KueueImpl_size q = 0"

definition KueueImpl_isValid :: "KueueImpl \<Rightarrow> bool" where
  "KueueImpl_isValid q = kvalid q"

definition KueueImpl_totalPuts :: "KueueImpl \<Rightarrow> u64" where
  "KueueImpl_totalPuts q = totalPuts q"

definition KueueImpl_totalTakes :: "KueueImpl \<Rightarrow> u64" where
  "KueueImpl_totalTakes q = totalTakes q"

text \<open>The null pointer is \<open>Some None\<close>; a dangling kind is \<open>None\<close>.\<close>

definition KueueImpl_identifier :: "KueueImpl \<Rightarrow> 'd StoreImpl \<Rightarrow> string option option" where
  "KueueImpl_identifier q s =
     (case queueKind q of
        None \<Rightarrow> Some None
      | Some k \<Rightarrow> map_option (\<lambda>ko. Some (Kind_name ko)) (deref_kind s k))"

end
