(* ===== verification/Store_Spec.thy ===== *)
theory Store_Spec
  imports Store_Impl
begin

text \<open>
  What the store promises.  \<open>store_wf\<close> is the invariant between two operations: the mutex is free,
  an open store has a database and valid kinds under distinct names, a closed one has no kinds, and
  the counter of commits since the last WAL sync is below the batch size.  The lemmas of the
  context \<open>rocksdb_spec\<close> hold for every engine with the documented behaviour: each operation
  returns (no undefined behaviour), keeps the invariant, and has exactly the stated effect on the
  contents, on the heap and on the status of its caller.
\<close>


section \<open>Invariant and frame\<close>

definition store_wf :: "'d StoreImpl \<Rightarrow> bool" where
  "store_wf s \<longleftrightarrow> \<not> monitor s \<and> heap_fresh s \<and> unat (totalSinceLastSync s) < 16384 \<and>
     distinct (map fst (kinds s)) \<and> readOptions s = ReadOptions_default \<and>
     (open_flag s \<longrightarrow> txnDb s \<noteq> None \<and> (\<forall>k \<in> snd ` set (kinds s). KindImpl_isValid k)) \<and>
     (\<not> open_flag s \<longrightarrow> kinds s = [])"

definition store_frame :: "'d StoreImpl \<Rightarrow> 'd StoreImpl \<Rightarrow> bool" where
  "store_frame s s' \<longleftrightarrow> open_flag s' = open_flag s \<and> monitor s' = monitor s \<and>
     options s' = options s \<and> txnDbOptions s' = txnDbOptions s \<and> txnOpts s' = txnOpts s \<and>
     columnFamilyOptions s' = columnFamilyOptions s \<and> writeOptions s' = writeOptions s \<and>
     readOptions s' = readOptions s \<and> sstFileManager s' = sstFileManager s \<and>
     flushOptions s' = flushOptions s \<and> flushOptionsNoWait s' = flushOptionsNoWait s \<and>
     txnDb s' = txnDb s \<and> kinds s' = kinds s \<and> path s' = path s \<and> version s' = version s \<and>
     code s' = code s \<and> clock s' = clock s \<and> cpus s' = cpus s"

definition same_heap :: "'d StoreImpl \<Rightarrow> 'd StoreImpl \<Rightarrow> bool" where
  "same_heap s s' \<longleftrightarrow> heap s' = heap s \<and> next_addr s' = next_addr s"

text \<open>The reference \<open>k\<close> is to a kind of the store itself, whose column family has the handle \<open>h\<close>.\<close>

definition live_kind :: "'d StoreImpl \<Rightarrow> kindref \<Rightarrow> handle \<Rightarrow> bool" where
  "live_kind s k h \<longleftrightarrow>
     (\<exists>n ki. k = InKinds n \<and> deref_kind s k = Some (Impl ki) \<and> khandle ki = Some h)"

text \<open>The codes a transaction can report: the codes of RocksDB and \<open>NoTransaction\<close>.\<close>

definition tx_code :: "int \<Rightarrow> bool" where
  "tx_code c \<longleftrightarrow> c = SC_NoTransaction \<or> (0 \<le> c \<and> c \<le> 16)"

lemma tx_code_Status [simp]: "tx_code (Status_code st)" "tx_code SC_NoTransaction" "tx_code 0"
  using Status_code_range [of st] by (simp_all add: tx_code_def)

text \<open>
  The outcome of a write: with code 0 the write \<open>W\<close> took effect, with any other code the contents
  are unchanged; the rest of the store and the heap are untouched.
\<close>

definition outcome :: "('d \<Rightarrow> dbobs) \<Rightarrow> wop \<Rightarrow> int \<Rightarrow> 'd StoreImpl \<Rightarrow> 'd StoreImpl \<Rightarrow> bool" where
  "outcome obs W c s s' \<longleftrightarrow> tx_code c \<and> store_wf s' \<and> store_frame s s' \<and> same_heap s s' \<and>
     (if c = 0 then op_effect W (obs (rdb s)) (obs (rdb s')) else obs (rdb s') = obs (rdb s))"

lemma store_frame_refl [simp]: "store_frame s s"
  by (simp add: store_frame_def)

lemma store_frame_trans: "store_frame s t \<Longrightarrow> store_frame t u \<Longrightarrow> store_frame s u"
  by (simp add: store_frame_def)

lemma same_heap_refl [simp]: "same_heap s s"
  by (simp add: same_heap_def)

lemma same_heap_trans: "same_heap s t \<Longrightarrow> same_heap t u \<Longrightarrow> same_heap s u"
  by (simp add: same_heap_def)

lemma batch_counter:
  assumes "unat (n :: u64) < 16384" and "and (n + 1) FLUSH_BATCH_SIZE \<noteq> 0"
  shows "unat (n + 1) < 16384"
proof -
  have u: "unat (n + 1) = unat n + 1"
    using assms(1) by (simp add: unat_word_ariths)
  have "FLUSH_BATCH_SIZE = mask 14" by (simp add: FLUSH_BATCH_SIZE_def mask_eq_exp_minus_1)
  then have "take_bit 14 (n + 1) \<noteq> 0" using assms(2) by (simp add: take_bit_eq_mask)
  moreover have "take_bit 14 (n + 1) = 0" if "unat (n + 1) = 16384"
  proof -
    have "unat (take_bit 14 (n + 1)) = take_bit 14 (unat (n + 1))" by (rule unsigned_take_bit_eq)
    then show ?thesis unfolding that by (simp add: take_bit_eq_mod unat_eq_0)
  qed
  ultimately show ?thesis using u assms(1) by linarith
qed

context rocksdb_spec
begin

lemma syncWALNoLock_spec:
  assumes "open_flag s \<longrightarrow> txnDb s \<noteq> None"
  shows "\<exists>s'. StoreImpl_syncWALNoLock eng s = Some s' \<and> obs (rdb s') = obs (rdb s) \<and>
    store_frame s s' \<and> same_heap s s' \<and> reusable_tx s' = reusable_tx s \<and>
    totalSinceLastSync s' = totalSinceLastSync s"
  using assms flushwal_obs
  by (cases "FlushWAL eng (the (txnDb s)) True (rdb s)")
     (auto simp: StoreImpl_syncWALNoLock_def store_frame_def same_heap_def)

lemma occasionalWalSync_spec:
  assumes "open_flag s" "txnDb s \<noteq> None" and t: "unat (totalSinceLastSync s) < 16384"
  shows "\<exists>s'. StoreImpl_occasionalWalSync eng s = Some s' \<and> obs (rdb s') = obs (rdb s) \<and>
    store_frame s s' \<and> same_heap s s' \<and> reusable_tx s' = reusable_tx s \<and>
    unat (totalSinceLastSync s') < 16384"
proof -
  let ?s1 = "s\<lparr>totalSinceLastSync := totalSinceLastSync s + 1\<rparr>"
  obtain e s2 where e: "since (lastSync ?s1) ?s1 = (e, s2)" by fastforce
  then have s2: "s2 = ?s1\<lparr>reads := Suc (reads s)\<rparr>"
    by (simp add: since_def steady_now_def)
  obtain s3 where s3: "StoreImpl_syncWALNoLock eng s2 = Some s3" "obs (rdb s3) = obs (rdb s2)"
    "store_frame s2 s3" "same_heap s2 s3" "reusable_tx s3 = reusable_tx s2"
    using syncWALNoLock_spec [of s2] assms(2) s2 by auto
  show ?thesis
    using s3 s2 e batch_counter [OF t]
    by (auto simp: StoreImpl_occasionalWalSync_def StoreImpl_syncAndReset_def steady_now_def
        store_frame_def same_heap_def Let_def)
qed

lemma reusableTx_spec:
  assumes "txnDb s = Some db"
  shows "\<exists>old s1. StoreImpl_reusableTx eng s = Some (old, s1) \<and> obs (rdb s1) = obs (rdb s) \<and>
    store_frame s s1 \<and> same_heap s s1 \<and> totalSinceLastSync s1 = totalSinceLastSync s"
proof (cases "reusable_tx s")
  case None
  then show ?thesis
    using assms begin_obs [of db "writeOptions s" "txnOpts s" None "rdb s"]
    by (cases "BeginTransaction eng db (writeOptions s) (txnOpts s) None (rdb s)")
       (auto simp: StoreImpl_reusableTx_def store_frame_def same_heap_def)
next
  case (Some t)
  then show ?thesis by (auto simp: StoreImpl_reusableTx_def)
qed

lemma in_tx_spec:
  assumes open1: "open_flag s" "txnDb s = Some db" and t: "unat (totalSinceLastSync s) < 16384"
    and k: "live_kind s k h"
    and call: "\<And>t d st d'. call t h d = (st, d') \<Longrightarrow>
      obs d' = obs d \<and> (Status_ok st \<longrightarrow> pending d' t = pending d t @ [W])"
  shows "\<exists>c s'. StoreImpl_in_tx eng call status k s =
      Some (if c = 0 then status else assign c status, s') \<and>
    tx_code c \<and> store_frame s s' \<and> same_heap s s' \<and> unat (totalSinceLastSync s') < 16384 \<and>
    (if c = 0 then op_effect W (obs (rdb s)) (obs (rdb s')) else obs (rdb s') = obs (rdb s))"
proof -
  obtain ki where ki: "deref_kind s k = Some (Impl ki)" "khandle ki = Some h"
    using k by (auto simp: live_kind_def)
  obtain old s1 where s1: "StoreImpl_reusableTx eng s = Some (old, s1)" "obs (rdb s1) = obs (rdb s)"
    "store_frame s s1" "same_heap s s1" "totalSinceLastSync s1 = totalSinceLastSync s"
    using reusableTx_spec [OF open1(2)] by blast
  obtain tx d2 where tx: "BeginTransaction eng db (writeOptions s1) (txnOpts s1) old (rdb s1) = (tx, d2)" by fastforce
  then have tx': "BeginTransaction eng db (writeOptions s) (txnOpts s) old (rdb s1) = (tx, d2)"
    using s1(3) by (simp add: store_frame_def)
  let ?s2 = "s1\<lparr>rdb := d2\<rparr>"
  have s2: "obs d2 = obs (rdb s)" using begin_obs [OF tx] s1 by simp
  have code1: "tx_code (if b then Status_code x else Status_code y)" for b x y by simp
  note simps = StoreImpl_in_tx_def ki toKindImpl_def KindImpl_handle_def open1 s1(1) tx tx'
  have del: "store_frame u (StoreImpl_deleteIfNewTx eng x u)"
    "same_heap u (StoreImpl_deleteIfNewTx eng x u)"
    "obs (rdb (StoreImpl_deleteIfNewTx eng x u)) = obs (rdb u)"
    "totalSinceLastSync (StoreImpl_deleteIfNewTx eng x u) = totalSinceLastSync u" for x u
    by (auto simp: StoreImpl_deleteIfNewTx_def store_frame_def same_heap_def tx_destroy_obs
        split: option.splits)
  show ?thesis
  proof (cases tx)
    case None
    then show ?thesis
      by (intro exI [where x = "SC_NoTransaction"]
            exI [where x = "StoreImpl_deleteIfNewTx eng tx ?s2"])
         (use s1 s2 t del [where x = tx and u = "?s2"] tx_code_Status(2) in \<open>auto simp: simps store_frame_def same_heap_def\<close>)
  next
    case (Some t1)
    obtain st d3 where c: "call t1 h d2 = (st, d3)" by fastforce
    have c1: "obs d3 = obs (rdb s)" "Status_ok st \<Longrightarrow> pending d3 t1 = [W]"
      using call [OF c] s2 begin_pending tx Some by auto
    obtain st2 d4 where cm: "Tx_Commit eng t1 d3 = (st2, d4)" by fastforce
    show ?thesis
    proof (cases "Status_ok st \<and> Status_ok st2")
      case True
      let ?s4 = "s1\<lparr>rdb := d4\<rparr>"
      have eff: "op_effect W (obs (rdb s)) (obs d4)"
        using commit_ok [OF cm] True c1 by simp
      obtain s5 where s5: "StoreImpl_occasionalWalSync eng ?s4 = Some s5" "obs (rdb s5) = obs d4"
        "store_frame ?s4 s5" "same_heap ?s4 s5" "unat (totalSinceLastSync s5) < 16384"
        using occasionalWalSync_spec [of ?s4] s1 open1 t by (auto simp: store_frame_def)
      show ?thesis
        by (intro exI [where x = "0 :: int"] exI [where x = "StoreImpl_deleteIfNewTx eng tx s5"])
           (use True Some c cm s1 s5 eff del [where x = tx and u = "s5"] in
             \<open>auto simp: simps store_frame_def same_heap_def\<close>)
    next
      case False
      let ?c = "if Status_ok st then Status_code st2 else Status_code st"
      let ?s4 = "s1\<lparr>rdb := if Status_ok st then d4 else d3\<rparr>"
      have nz: "?c \<noteq> 0" and o4: "obs (rdb ?s4) = obs (rdb s)"
        using False c1 commit_fail [OF cm] by auto
      show ?thesis
        by (intro exI [where x = ?c] exI [where x = "StoreImpl_deleteIfNewTx eng tx ?s4"])
           (use False Some c cm s1 o4 nz t code1 del [where x = tx and u = "?s4"] in
             \<open>auto simp: simps store_frame_def same_heap_def\<close>)
    qed
  qed
qed

lemma locked_facts:
  assumes "store_wf s"
  shows "synchronize s = Some (s\<lparr>monitor := True\<rparr>)"
  using assms by (simp add: store_wf_def synchronize_def)

lemma live_kind_lock [simp]: "live_kind (s\<lparr>monitor := b\<rparr>) k h = live_kind s k h"
  by (auto simp: live_kind_def deref_kind_def split: kindref.splits)

lemma bad_args_live: "live_kind s k h \<Longrightarrow> bad_args False k s = Some False"
  by (auto simp: live_kind_def bad_args_def KindImpl_isValid_def)

lemma store_wf_step:
  assumes "store_wf s" "store_frame (s\<lparr>monitor := True\<rparr>) s'" "heap_fresh s'"
    "unat (totalSinceLastSync s') < 16384"
  shows "store_wf (unlock s')" "store_frame s (unlock s')"
  using assms by (auto simp: store_wf_def store_frame_def unlock_def heap_fresh_def)

lemma same_heap_fresh: "heap_fresh s \<Longrightarrow> same_heap s s' \<Longrightarrow> heap_fresh s'"
  by (simp add: heap_fresh_def same_heap_def)

text \<open>The three guarded writes have one shape, proved once.\<close>

lemma write_spec:
  assumes wf: "store_wf s" and o1: "open_flag s" and k: "live_kind s k h"
    and call: "\<And>t d st d'. call t h d = (st, d') \<Longrightarrow>
      obs d' = obs d \<and> (Status_ok st \<longrightarrow> pending d' t = pending d t @ [W])"
  shows "\<exists>c s'. StoreImpl_in_tx eng call (assign SC_Ok status) k (s\<lparr>monitor := True\<rparr>) =
      Some (assign c status, s') \<and> outcome obs W c s (unlock s')"
proof -
  let ?s = "s\<lparr>monitor := True\<rparr>"
  obtain db where db: "txnDb ?s = Some db" "open_flag ?s" "unat (totalSinceLastSync ?s) < 16384"
    using wf o1 by (auto simp: store_wf_def)
  obtain c s' where r: "StoreImpl_in_tx eng call (assign SC_Ok status) k ?s =
      Some (if c = 0 then assign SC_Ok status else assign c (assign SC_Ok status), s')"
    and f: "store_frame ?s s'" "same_heap ?s s'" "unat (totalSinceLastSync s') < 16384"
    and cc: "tx_code c"
    and e: "if c = 0 then op_effect W (obs (rdb ?s)) (obs (rdb s')) else obs (rdb s') = obs (rdb ?s)"
    using in_tx_spec [where call = call and h = h and status = "assign SC_Ok status" and k = k,
        OF db(2,1,3) _ call] k by auto
  have "heap_fresh s'" using wf f(2) by (auto simp: store_wf_def heap_fresh_def same_heap_def)
  from store_wf_step [OF wf f(1) this f(3)] have "store_wf (unlock s')" "store_frame s (unlock s')" .
  moreover have "(if c = 0 then assign SC_Ok status else assign c (assign SC_Ok status)) = assign c status"
    by (cases status) auto
  moreover have "same_heap s (unlock s')" using f(2) by (simp add: same_heap_def unlock_def)
  ultimately show ?thesis
    using r e cc by (intro exI [where x = c] exI [where x = s']) (auto simp: outcome_def unlock_def split: if_splits)
qed

end

lemma validateOpen_open:
  "open_flag s \<Longrightarrow> StoreImpl_validateOpen status s = (True, assign SC_Ok status, s)"
  by (simp add: StoreImpl_validateOpen_def StoreImpl_isOpen_def)

lemma validateOpen_closed:
  "\<not> open_flag s \<Longrightarrow>
   StoreImpl_validateOpen status s = (False, assign SC_Closed status, s\<lparr>code := SC_Closed\<rparr>)"
  by (simp add: StoreImpl_validateOpen_def StoreImpl_isOpen_def)

lemma unlock_rdb [simp]: "rdb (unlock s) = rdb s"
  by (simp add: unlock_def)

lemma unlock_heap [simp]: "heap (unlock s) = heap s"
  by (simp add: unlock_def)

context rocksdb_spec
begin

lemma put_spec:
  assumes "store_wf s" "open_flag s" "live_kind s k h"
  shows "\<exists>c s'. StoreImpl_put eng status k (Some key) val s = Some (assign c status, s') \<and>
    outcome obs (WPut h key (slice_of val)) c s s'"
proof -
  have "\<And>t d st d'. Tx_Put eng t h key (slice_of val) d = (st, d') \<Longrightarrow>
      obs d' = obs d \<and> (Status_ok st \<longrightarrow> pending d' t = pending d t @ [WPut h key (slice_of val)])"
    using put_obs put_pending by blast
  from write_spec [where call = "\<lambda>t h d. Tx_Put eng t h key (slice_of val) d" and status = status, OF assms this]
  obtain c s' where "StoreImpl_in_tx eng (\<lambda>t h d. Tx_Put eng t h key (slice_of val) d)
      (assign SC_Ok status) k (s\<lparr>monitor := True\<rparr>) = Some (assign c status, s')"
    "outcome obs (WPut h key (slice_of val)) c s (unlock s')" by blast
  then show ?thesis
    using assms(2) bad_args_live [OF assms(3)] locked_facts [OF assms(1)]
    by (intro exI [where x = c] exI [where x = "unlock s'"]) (simp add: StoreImpl_put_def StoreImpl_put'_def validateOpen_open)
qed

lemma remove_spec:
  assumes "store_wf s" "open_flag s" "live_kind s k h"
  shows "\<exists>c s'. StoreImpl_remove eng status k (Some key) s = Some (assign c status, s') \<and>
    outcome obs (WDelete h key) c s s'"
proof -
  have "\<And>t d st d'. Tx_Delete eng t h key d = (st, d') \<Longrightarrow>
      obs d' = obs d \<and> (Status_ok st \<longrightarrow> pending d' t = pending d t @ [WDelete h key])"
    using delete_obs delete_pending by blast
  from write_spec [where call = "\<lambda>t h d. Tx_Delete eng t h key d" and status = status, OF assms this]
  obtain c s' where "StoreImpl_in_tx eng (\<lambda>t h d. Tx_Delete eng t h key d)
      (assign SC_Ok status) k (s\<lparr>monitor := True\<rparr>) = Some (assign c status, s')"
    "outcome obs (WDelete h key) c s (unlock s')" by blast
  then show ?thesis
    using assms(2) bad_args_live [OF assms(3)] locked_facts [OF assms(1)]
    by (intro exI [where x = c] exI [where x = "unlock s'"]) (simp add: StoreImpl_remove_def StoreImpl_remove'_def validateOpen_open)
qed

lemma singleRemove_spec:
  assumes "store_wf s" "open_flag s" "live_kind s k h"
  shows "\<exists>c s'. StoreImpl_singleRemove eng status k (Some key) s = Some (assign c status, s') \<and>
    outcome obs (WSingleDelete h key) c s s'"
proof -
  have "\<And>t d st d'. Tx_SingleDelete eng t h key d = (st, d') \<Longrightarrow>
      obs d' = obs d \<and> (Status_ok st \<longrightarrow> pending d' t = pending d t @ [WSingleDelete h key])"
    using sdelete_obs sdelete_pending by blast
  from write_spec [where call = "\<lambda>t h d. Tx_SingleDelete eng t h key d" and status = status, OF assms this]
  obtain c s' where "StoreImpl_in_tx eng (\<lambda>t h d. Tx_SingleDelete eng t h key d)
      (assign SC_Ok status) k (s\<lparr>monitor := True\<rparr>) = Some (assign c status, s')"
    "outcome obs (WSingleDelete h key) c s (unlock s')" by blast
  then show ?thesis
    using assms(2) bad_args_live [OF assms(3)] locked_facts [OF assms(1)]
    by (intro exI [where x = c] exI [where x = "unlock s'"]) (simp add: StoreImpl_singleRemove_def StoreImpl_singleRemove'_def validateOpen_open)
qed

end

section \<open>Reading\<close>

text \<open>
  What a read hands out: with code 0 the value \<open>vo\<close> was present and, unless it is empty, its bytes
  are in a fresh array that the caller owns; with any other code nothing is allocated and the
  length cell keeps its value; code 1 (\<open>NotFound\<close>) means that the key is absent.
\<close>

definition fetched :: "int \<Rightarrow> addr option \<Rightarrow> lenptr \<Rightarrow> lenptr \<Rightarrow> data option \<Rightarrow>
    'd StoreImpl \<Rightarrow> 'd StoreImpl \<Rightarrow> bool" where
  "fetched c r len len' vo s s' \<longleftrightarrow>
     (c = 0 \<longrightarrow> (\<exists>v. vo = Some v \<and>
        (if v = [] then r = None \<and> len' = len \<and> same_heap s s'
         else r = Some (next_addr s) \<and> len' = set_len (length v) len \<and>
              heap s' = (heap s)(next_addr s \<mapsto> v) \<and> next_addr s' = Suc (next_addr s)))) \<and>
     (c = 1 \<longrightarrow> vo = None) \<and>
     (c \<noteq> 0 \<longrightarrow> r = None \<and> len' = len \<and> same_heap s s')"

text \<open>The outcome of a read followed by the write \<open>W\<close> of the same key.\<close>

definition taken :: "('d \<Rightarrow> dbobs) \<Rightarrow> wop \<Rightarrow> data option \<Rightarrow> int \<Rightarrow> addr option \<Rightarrow> lenptr \<Rightarrow>
    'd StoreImpl \<Rightarrow> 'd StoreImpl \<Rightarrow> bool" where
  "taken obs W vo c r len s s' \<longleftrightarrow> store_wf s' \<and> store_frame s s' \<and>
     (\<exists>g. fetched g r (Some 0) len vo s s' \<and>
        (if g = 0
         then (if c = 0 then op_effect W (obs (rdb s)) (obs (rdb s')) else obs (rdb s') = obs (rdb s))
         else c = g \<and> obs (rdb s') = obs (rdb s)))"

lemma fetched_fresh: "heap_fresh s \<Longrightarrow> fetched c r len len' vo s s' \<Longrightarrow> heap_fresh s'"
  by (auto simp: fetched_def same_heap_def heap_fresh_def less_Suc_eq split: if_splits)

lemma fetched_same_heap:
  "fetched c r len len' vo s s' \<Longrightarrow> same_heap s' s'' \<Longrightarrow> fetched c r len len' vo s s''"
  by (auto simp: fetched_def same_heap_def split: if_splits)

lemma fetched_lock [simp]:
  "fetched c r len len' vo (s\<lparr>monitor := b\<rparr>) s' = fetched c r len len' vo s s'"
  "fetched c r len len' vo s (unlock s') = fetched c r len len' vo s s'"
  by (simp_all add: fetched_def same_heap_def unlock_def)

context rocksdb_spec
begin

lemma get'_spec:
  assumes db: "txnDb s = Some db" and ro: "readOptions s = ReadOptions_default" and k: "live_kind s k h"
  shows "\<exists>c r len' s'. StoreImpl_get' eng status k len key s =
      Some (r, if c = 0 then status else assign c status, len', s') \<and>
    0 \<le> c \<and> c \<le> 16 \<and>
    store_frame s s' \<and> obs (rdb s') = obs (rdb s) \<and> totalSinceLastSync s' = totalSinceLastSync s \<and>
    fetched c r len len' (cell_value (cells (obs (rdb s)) h key)) s s'"
proof -
  obtain ki where ki: "deref_kind s k = Some (Impl ki)" "khandle ki = Some h"
    using k by (auto simp: live_kind_def)
  obtain st v d where g: "DB_Get eng db (readOptions s) h key (rdb s) = (st, v, d)" using prod_cases3 by blast
  then have g': "DB_Get_ts eng db ReadOptions_default h key None (rdb s) = (st, v, d)" by (simp add: DB_Get_def ro)
  note o1 = get_obs [OF g'] and ok1 = get_ok [OF g'] and nf = get_not_found [OF g']
  have r: "StoreImpl_get' eng status k len key s = Some (
      if Status_ok st \<and> v \<noteq> [] then Some (next_addr s) else None,
      if Status_code st = 0 then status else assign (Status_code st) status,
      if Status_ok st \<and> v \<noteq> [] then set_len (length v) len else len,
      if Status_ok st \<and> v \<noteq> [] then snd (new_copy v (s\<lparr>rdb := d\<rparr>)) else s\<lparr>rdb := d\<rparr>)"
    using ki db g
    by (simp add: StoreImpl_get'_def toKindImpl_def KindImpl_handle_def new_copy_def)
  show ?thesis
    unfolding r using o1 ok1 nf Status_code_range [of st]
    by (intro exI [where x = "Status_code st"])
       (auto simp: store_frame_def new_copy_def fetched_def same_heap_def Status_code_1)
qed

lemma get_spec:
  assumes wf: "store_wf s" and o1: "open_flag s" and k: "live_kind s k h"
  shows "\<exists>c r len s'. StoreImpl_get eng status k (Some n) (Some key) s =
      Some (r, assign c status, len, s') \<and> 0 \<le> c \<and> c \<le> 16 \<and>
    store_wf s' \<and> store_frame s s' \<and> obs (rdb s') = obs (rdb s) \<and>
    fetched c r (Some 0) len (cell_value (cells (obs (rdb s)) h key)) s s'"
proof -
  let ?s = "s\<lparr>monitor := True\<rparr>"
  obtain db where db: "txnDb ?s = Some db" and ro: "readOptions ?s = ReadOptions_default"
    using wf o1 by (auto simp: store_wf_def)
  obtain c r len s' where r: "StoreImpl_get' eng (assign SC_Ok status) k (Some 0) key ?s =
      Some (r, if c = 0 then assign SC_Ok status else assign c (assign SC_Ok status), len, s')"
    and cr: "0 \<le> c" "c \<le> 16"
    and f: "store_frame ?s s'" "obs (rdb s') = obs (rdb s)" "totalSinceLastSync s' = totalSinceLastSync s"
      "fetched c r (Some 0) len (cell_value (cells (obs (rdb s)) h key)) s s'"
    using get'_spec [OF db ro, of k h "assign SC_Ok status" "Some 0" key] k by auto
  have "heap_fresh s'" using fetched_fresh [OF _ f(4)] wf by (simp add: store_wf_def)
  with wf f have "store_wf (unlock s')" "store_frame s (unlock s')"
    using store_wf_step [OF wf f(1)] by (auto simp: store_wf_def)
  moreover have "(if c = 0 then assign SC_Ok status else assign c (assign SC_Ok status)) = assign c status"
    by (cases status) auto
  ultimately show ?thesis
    using r cr f(2,4) o1 bad_args_live [OF k] locked_facts [OF wf]
    by (intro exI [where x = c] exI [where x = r] exI [where x = len] exI [where x = "unlock s'"])
       (simp add: StoreImpl_get_def validateOpen_open)
qed

end

section \<open>Read-modify-write\<close>

lemma live_kind_frame: "store_frame s s' \<Longrightarrow> live_kind s k h \<Longrightarrow> live_kind s' k h"
  by (auto simp: live_kind_def deref_kind_def store_frame_def split: kindref.splits)

context rocksdb_spec
begin

text \<open>The common body of \<open>updateIfPresent\<close>, \<open>removeIfPresent\<close> and \<open>singleRemoveIfPresent\<close>.\<close>

lemma if_present_body:
  assumes wf: "store_wf s" and o1: "open_flag s" and k: "live_kind s k h"
    and call: "\<And>t d st d'. call t h d = (st, d') \<Longrightarrow>
      obs d' = obs d \<and> (Status_ok st \<longrightarrow> pending d' t = pending d t @ [W])"
  shows "\<exists>c r len s'. (do {
       (oldVal, state, resultLen, s) \<leftarrow>
         StoreImpl_get' eng (Some SC_Ok) k (Some 0) key (s\<lparr>monitor := True\<rparr>);
       (state, s) \<leftarrow> (if state = Some SC_Ok then StoreImpl_in_tx eng call state k s
                      else Some (state, s));
       st \<leftarrow> state;
       Some (oldVal, assign st (assign SC_Ok status), resultLen, unlock s)
     }) = Some (r, assign c status, len, s') \<and>
     taken obs W (cell_value (cells (obs (rdb s)) h key)) c r len s s'"
proof -
  let ?s = "s\<lparr>monitor := True\<rparr>" and ?vo = "cell_value (cells (obs (rdb s)) h key)"
  obtain db where db: "txnDb ?s = Some db" and ro: "readOptions ?s = ReadOptions_default"
    using wf o1 by (auto simp: store_wf_def)
  obtain g r len s1 where g: "StoreImpl_get' eng (Some SC_Ok) k (Some 0) key ?s =
      Some (r, if g = 0 then Some SC_Ok else assign g (Some SC_Ok), len, s1)"
    and f1: "store_frame ?s s1" "obs (rdb s1) = obs (rdb s)"
      "totalSinceLastSync s1 = totalSinceLastSync s" "fetched g r (Some 0) len ?vo s s1"
    using get'_spec [OF db ro, of k h "Some SC_Ok" "Some 0" key] k by auto
  have fr1: "heap_fresh s1" using fetched_fresh [OF _ f1(4)] wf by (simp add: store_wf_def)
  have asg: "assign x (assign SC_Ok status) = assign x status" for x by (cases status) auto
  show ?thesis
  proof (cases "g = 0")
    case False
    have "store_wf (unlock s1)" "store_frame s (unlock s1)"
      using store_wf_step [OF wf f1(1) fr1] f1(3) wf by (auto simp: store_wf_def)
    with False f1 have "taken obs W ?vo g r len s (unlock s1)"
      by (auto simp: taken_def intro!: exI [where x = g])
    with g False show ?thesis
      by (intro exI [where x = g] exI [where x = r] exI [where x = len] exI [where x = "unlock s1"])
         (simp add: asg [simplified])
  next
    case True
    have p1: "open_flag s1" "txnDb s1 = Some db" "unat (totalSinceLastSync s1) < 16384"
      using f1 db o1 wf by (auto simp: store_frame_def store_wf_def)
    have k1: "live_kind s1 k h" using live_kind_frame [OF f1(1)] k by simp
    obtain c s2 where t: "StoreImpl_in_tx eng call (Some SC_Ok) k s1 =
        Some (if c = 0 then Some SC_Ok else assign c (Some SC_Ok), s2)"
      and f2: "store_frame s1 s2" "same_heap s1 s2" "unat (totalSinceLastSync s2) < 16384"
      and e: "if c = 0 then op_effect W (obs (rdb s1)) (obs (rdb s2)) else obs (rdb s2) = obs (rdb s1)"
      using in_tx_spec [where call = call and h = h and status = "Some SC_Ok" and k = k, OF p1 k1 call]
      by auto
    have "heap_fresh s2" using fr1 f2(2) by (rule same_heap_fresh)
    from store_wf_step [OF wf store_frame_trans [OF f1(1) f2(1)] this f2(3)]
    have "store_wf (unlock s2)" "store_frame s (unlock s2)" .
    moreover have "fetched g r (Some 0) len ?vo s s2" using f1(4) f2(2) by (rule fetched_same_heap)
    ultimately have "taken obs W ?vo c r len s (unlock s2)"
      using True e f1(2) by (auto simp: taken_def intro!: exI [where x = g] split: if_splits)
    with g t True show ?thesis
      by (intro exI [where x = c] exI [where x = r] exI [where x = len] exI [where x = "unlock s2"])
         (simp add: asg [simplified])
  qed
qed

lemma updateIfPresent_spec:
  assumes "store_wf s" "open_flag s" "live_kind s k h"
  shows "\<exists>c r len s'. StoreImpl_updateIfPresent eng status k (Some n) (Some key) val s =
      Some (r, assign c status, len, s') \<and>
    taken obs (WPut h key (slice_of val)) (cell_value (cells (obs (rdb s)) h key)) c r len s s'"
  using if_present_body [where call = "\<lambda>t h d. Tx_Put eng t h key (slice_of val) d"
      and W = "WPut h key (slice_of val)" and key = key and status = status, OF assms]
    put_obs put_pending assms(2) bad_args_live [OF assms(3)] locked_facts [OF assms(1)]
  by (simp add: StoreImpl_updateIfPresent_def StoreImpl_put'_def validateOpen_open cong: if_cong)

lemma removeIfPresent_spec:
  assumes "store_wf s" "open_flag s" "live_kind s k h"
  shows "\<exists>c r len s'. StoreImpl_removeIfPresent eng status k (Some n) (Some key) s =
      Some (r, assign c status, len, s') \<and>
    taken obs (WDelete h key) (cell_value (cells (obs (rdb s)) h key)) c r len s s'"
  using if_present_body [where call = "\<lambda>t h d. Tx_Delete eng t h key d"
      and W = "WDelete h key" and key = key and status = status, OF assms]
    delete_obs delete_pending assms(2) bad_args_live [OF assms(3)] locked_facts [OF assms(1)]
  by (simp add: StoreImpl_removeIfPresent_def StoreImpl_remove'_def validateOpen_open cong: if_cong)

lemma singleRemoveIfPresent_spec:
  assumes "store_wf s" "open_flag s" "live_kind s k h"
  shows "\<exists>c r len s'. StoreImpl_singleRemoveIfPresent eng status k (Some n) (Some key) s =
      Some (r, assign c status, len, s') \<and>
    taken obs (WSingleDelete h key) (cell_value (cells (obs (rdb s)) h key)) c r len s s'"
  using if_present_body [where call = "\<lambda>t h d. Tx_SingleDelete eng t h key d"
      and W = "WSingleDelete h key" and key = key and status = status, OF assms]
    sdelete_obs sdelete_pending assms(2) bad_args_live [OF assms(3)] locked_facts [OF assms(1)]
  by (simp add: StoreImpl_singleRemoveIfPresent_def StoreImpl_singleRemove'_def validateOpen_open cong: if_cong)

end

context rocksdb_spec
begin

text \<open>
  \<open>putIfAbsent\<close> writes only an absent key and reports \<open>AlreadyExists\<close> for a present one; then the
  array with the old value, which nobody gets a pointer to, stays allocated.
\<close>

lemma putIfAbsent_spec:
  assumes wf: "store_wf s" and o1: "open_flag s" and k: "live_kind s k h"
  shows "\<exists>c s'. StoreImpl_putIfAbsent eng status k (Some key) val s = Some (assign c status, s') \<and>
    store_wf s' \<and> store_frame s s' \<and>
    (c = 0 \<longrightarrow> cell_value (cells (obs (rdb s)) h key) = None \<and> same_heap s s' \<and>
       op_effect (WPut h key (slice_of val)) (obs (rdb s)) (obs (rdb s'))) \<and>
    (c \<noteq> 0 \<longrightarrow> obs (rdb s') = obs (rdb s)) \<and>
    (c = SC_AlreadyExists \<longrightarrow> (\<exists>v. cell_value (cells (obs (rdb s)) h key) = Some v \<and>
       heap s' = (if v = [] then heap s else (heap s)(next_addr s \<mapsto> v)))) \<and>
    (c \<noteq> SC_AlreadyExists \<longrightarrow> same_heap s s')"
proof -
  let ?s = "s\<lparr>monitor := True\<rparr>" and ?vo = "cell_value (cells (obs (rdb s)) h key)"
  obtain db where db: "txnDb ?s = Some db" and ro: "readOptions ?s = ReadOptions_default"
    using wf o1 by (auto simp: store_wf_def)
  obtain g r len s1 where g: "StoreImpl_get' eng (Some SC_Ok) k (Some 0) key ?s =
      Some (r, if g = 0 then Some SC_Ok else assign g (Some SC_Ok), len, s1)"
    and g0: "0 \<le> g" "g \<le> 16"
    and f1: "store_frame ?s s1" "obs (rdb s1) = obs (rdb s)"
      "totalSinceLastSync s1 = totalSinceLastSync s" "fetched g r (Some 0) len ?vo s s1"
    using get'_spec [OF db ro, of k h "Some SC_Ok" "Some 0" key] k by auto
  have fr1: "heap_fresh s1" using fetched_fresh [OF _ f1(4)] wf by (simp add: store_wf_def)
  have wf1: "store_wf (unlock s1)" "store_frame s (unlock s1)"
    using store_wf_step [OF wf f1(1) fr1] f1(3) wf by (auto simp: store_wf_def)
  have asg: "assign x (assign SC_Ok status) = assign x status" for x by (cases status) auto
  note simps = StoreImpl_putIfAbsent_def bad_args_live [OF k] locked_facts [OF wf]
    validateOpen_open o1 g [simplified] asg [simplified] StoreImpl_put'_def
  show ?thesis
  proof (cases "g = 1")
    case True
    have p1: "open_flag s1" "txnDb s1 = Some db" "unat (totalSinceLastSync s1) < 16384"
      using f1 db o1 wf by (auto simp: store_frame_def store_wf_def)
    have k1: "live_kind s1 k h" using live_kind_frame [OF f1(1)] k by simp
    have absent: "?vo = None" "same_heap s s1" using True f1(4) by (auto simp: fetched_def)
    have call: "\<And>t d st d'. Tx_Put eng t h key (slice_of val) d = (st, d') \<Longrightarrow>
      obs d' = obs d \<and> (Status_ok st \<longrightarrow> pending d' t = pending d t @ [WPut h key (slice_of val)])"
      using put_obs put_pending by blast
    obtain c s2 where t: "StoreImpl_in_tx eng (\<lambda>t h d. Tx_Put eng t h key (slice_of val) d) (Some SC_Ok) k s1 =
        Some (if c = 0 then Some SC_Ok else assign c (Some SC_Ok), s2)"
      and c: "tx_code c"
      and f2: "store_frame s1 s2" "same_heap s1 s2" "unat (totalSinceLastSync s2) < 16384"
      and e: "if c = 0 then op_effect (WPut h key (slice_of val)) (obs (rdb s1)) (obs (rdb s2))
        else obs (rdb s2) = obs (rdb s1)"
      using in_tx_spec [where call = "\<lambda>t h d. Tx_Put eng t h key (slice_of val) d" and h = h
          and status = "Some SC_Ok" and k = k, OF p1 k1 call] by auto
    have "heap_fresh s2" using fr1 f2(2) by (rule same_heap_fresh)
    from store_wf_step [OF wf store_frame_trans [OF f1(1) f2(1)] this f2(3)]
    have "store_wf (unlock s2)" "store_frame s (unlock s2)" .
    with t True c e f1(2) absent same_heap_trans [OF absent(2) f2(2)] show ?thesis
      by (intro exI [where x = c] exI [where x = "unlock s2"])
         (auto simp: simps tx_code_def same_heap_def unlock_def split: if_splits)
  next
    case False
    let ?c = "if g = 0 then SC_AlreadyExists else g"
    have "StoreImpl_putIfAbsent eng status k (Some key) val s = Some (assign ?c status, unlock s1)"
      using False by (cases "g = 0") (simp_all add: simps)
    moreover have "?c \<noteq> 0" "?c = SC_AlreadyExists \<longleftrightarrow> g = 0" using g0 by auto
    moreover have "g = 0 \<Longrightarrow> \<exists>v. ?vo = Some v \<and>
        heap s1 = (if v = [] then heap s else (heap s)(next_addr s \<mapsto> v))"
      "g \<noteq> 0 \<Longrightarrow> same_heap s (unlock s1)"
      using f1(4) by (auto simp: fetched_def same_heap_def unlock_def split: if_splits)
    ultimately show ?thesis using wf1 f1(2)
      by (intro exI [where x = ?c] exI [where x = "unlock s1"]) (simp only: unlock_rdb unlock_heap, simp)
  qed
qed

end

text \<open>
  What \<open>findMinKey\<close> and \<open>findMaxKey\<close> hand out for the key \<open>ko\<close> the iterator is at: a fresh array
  with its bytes, or null when there is no key, the key is empty, or no iterator could be made.
\<close>

definition found ::
  "int \<Rightarrow> addr option \<Rightarrow> lenptr \<Rightarrow> data option \<Rightarrow> 'd StoreImpl \<Rightarrow> 'd StoreImpl \<Rightarrow> bool" where
  "found c r len ko s s' \<longleftrightarrow>
     (if c = 0 \<and> slice_of ko \<noteq> []
      then r = Some (next_addr s) \<and> len = Some (length (slice_of ko)) \<and>
           heap s' = (heap s)(next_addr s \<mapsto> slice_of ko) \<and> next_addr s' = Suc (next_addr s)
      else r = None \<and> len = Some 0 \<and> same_heap s s')"

text \<open>
  The seek of the iterator that \<open>findMinKey\<close> or \<open>findMaxKey\<close> makes did not fail.  The methods do not ask
  for this status.
\<close>

definition seek_ok :: "'d rocksdb \<Rightarrow> (iterptr \<Rightarrow> 'd \<Rightarrow> 'd) \<Rightarrow> handle \<Rightarrow> 'd StoreImpl \<Rightarrow> bool" where
  "seek_ok eng seek h s =
     (case txnDb s of
        None \<Rightarrow> True
      | Some db \<Rightarrow>
          (case NewIterator eng db (readOptions s) h (rdb s) of
             (None, d) \<Rightarrow> True
           | (Some i, d) \<Rightarrow> Status_ok (It_status eng i (seek i d))))"

context rocksdb_spec
begin

lemma findKey_spec:
  assumes wf: "store_wf s" and o1: "open_flag s" and k: "live_kind s k h"
    and seek: "\<And>i d. obs (seek i d) = obs d"
    and valid: "\<And>p d i d'. NewIterator eng p ReadOptions_default h d = (Some i, d') \<Longrightarrow>
      It_Valid eng i (seek i d') \<longleftrightarrow> Status_ok (It_status eng i (seek i d')) \<and> present (obs d) h \<noteq> {}"
    and key: "\<And>p d i d'. NewIterator eng p ReadOptions_default h d = (Some i, d') \<Longrightarrow>
      It_Valid eng i (seek i d') \<Longrightarrow> present (obs d) h \<noteq> {} \<Longrightarrow>
      P (present (obs d) h) (It_key eng i (seek i d'))"
  shows "\<exists>c r len ko s'. StoreImpl_findKey eng seek status k (Some n) s =
      Some (r, assign c status, len, s') \<and>
    store_wf s' \<and> store_frame s s' \<and> obs (rdb s') = obs (rdb s) \<and> (c = 0 \<or> c = SC_NoIterator) \<and>
    found c r len ko s s' \<and>
    (c = 0 \<longrightarrow> (ko = None \<longleftrightarrow> \<not> seek_ok eng seek h s \<or> present (obs (rdb s)) h = {}) \<and>
       (\<forall>x. ko = Some x \<longrightarrow> P (present (obs (rdb s)) h) x))"
proof -
  obtain ki where ki: "deref_kind s k = Some (Impl ki)" "khandle ki = Some h" "KindImpl_isValid ki"
    using k by (auto simp: live_kind_def KindImpl_isValid_def)
  obtain db where db: "txnDb s = Some db" and ro: "readOptions s = ReadOptions_default"
    using wf o1 by (auto simp: store_wf_def)
  obtain it d where it: "NewIterator eng db (readOptions s) h (rdb s) = (it, d)" by fastforce
  have asg: "assign x (assign SC_Ok status) = assign x status" for x by (cases status) auto
  note simps = StoreImpl_findKey_def ki db it it [unfolded ro] toKindImpl_def KindImpl_handle_def o1
    locked_facts [OF wf] validateOpen_open asg [simplified]
  show ?thesis
  proof (cases it)
    case None
    let ?s' = "s\<lparr>rdb := d\<rparr>"
    have "StoreImpl_findKey eng seek status k (Some n) s =
        Some (None, assign SC_NoIterator status, Some 0, ?s')"
      using None wf by (simp add: simps unlock_def store_wf_def)
    moreover have "store_wf ?s'" "store_frame s ?s'" "same_heap s ?s'"
      using wf by (auto simp: store_wf_def store_frame_def same_heap_def heap_fresh_def)
    ultimately show ?thesis using newit_obs [OF it]
      by (intro exI [where x = SC_NoIterator] exI [where x = None] exI [where x = "Some 0"]
          exI [where x = ?s']) (simp add: found_def)
  next
    case (Some i)
    let ?key = "It_key eng i (seek i d)" and ?d = "It_destroy eng i (seek i d)"
    define ko where "ko = (if It_Valid eng i (seek i d) then Some ?key else None)"
    define r where "r = (if slice_of ko \<noteq> [] then Some (next_addr s) else None)"
    define len where "len = Some (length (slice_of ko))"
    define s' where "s' = (if slice_of ko \<noteq> [] then s\<lparr>rdb := ?d, heap := (heap s)(next_addr s \<mapsto> ?key),
      next_addr := Suc (next_addr s)\<rparr> else s\<lparr>rdb := ?d\<rparr>)"
    note defs = ko_def r_def len_def s'_def
    have 1: "StoreImpl_findKey eng seek status k (Some n) s = Some (r, assign 0 status, len, s')"
      using Some wf by (auto simp: simps defs unlock_def new_copy_def store_wf_def Let_def)
    have 2: "store_wf s'" "store_frame s s'"
      using wf by (auto simp: defs store_wf_def store_frame_def heap_fresh_def less_Suc_eq)
    have 3: "obs (rdb s') = obs (rdb s)"
      using newit_obs [OF it] seek it_destroy_obs by (simp add: s'_def)
    have 4: "found 0 r len ko s s'" by (auto simp: defs found_def same_heap_def)
    have "seek_ok eng seek h s \<longleftrightarrow> Status_ok (It_status eng i (seek i d))"
      using db it Some by (simp add: seek_ok_def)
    then have 5: "(ko = None \<longleftrightarrow> \<not> seek_ok eng seek h s \<or> present (obs (rdb s)) h = {}) \<and>
        (\<forall>x. ko = Some x \<longrightarrow> P (present (obs (rdb s)) h) x)"
      using valid [of db "rdb s" i d] key [of db "rdb s" i d] it Some ro by (auto simp: ko_def)
    show ?thesis
      by (rule exI [of _ "0 :: int"], rule exI [of _ r], rule exI [of _ len], rule exI [of _ ko],
          rule exI [of _ s']) (use 1 2 3 4 5 in simp)
  qed
qed

lemma findMinKey_spec:
  assumes "store_wf s" "open_flag s" "live_kind s k h"
  shows "\<exists>c r len ko s'. StoreImpl_findMinKey eng status k (Some n) s =
      Some (r, assign c status, len, s') \<and>
    store_wf s' \<and> store_frame s s' \<and> obs (rdb s') = obs (rdb s) \<and> (c = 0 \<or> c = SC_NoIterator) \<and>
    found c r len ko s s' \<and>
    (c = 0 \<longrightarrow> (ko = None \<longleftrightarrow> \<not> seek_ok eng (It_SeekToFirst eng) h s \<or> present (obs (rdb s)) h = {}) \<and>
       (\<forall>x. ko = Some x \<longrightarrow> x \<in> present (obs (rdb s)) h \<and> (\<forall>y \<in> present (obs (rdb s)) h. x \<le> y)))"
  unfolding StoreImpl_findMinKey_def
  by (rule findKey_spec [OF assms first_obs first_valid]) (use first_key in blast)+

lemma findMaxKey_spec:
  assumes "store_wf s" "open_flag s" "live_kind s k h"
  shows "\<exists>c r len ko s'. StoreImpl_findMaxKey eng status k (Some n) s =
      Some (r, assign c status, len, s') \<and>
    store_wf s' \<and> store_frame s s' \<and> obs (rdb s') = obs (rdb s) \<and> (c = 0 \<or> c = SC_NoIterator) \<and>
    found c r len ko s s' \<and>
    (c = 0 \<longrightarrow> (ko = None \<longleftrightarrow> \<not> seek_ok eng (It_SeekToLast eng) h s \<or> present (obs (rdb s)) h = {}) \<and>
       (\<forall>x. ko = Some x \<longrightarrow> x \<in> present (obs (rdb s)) h \<and> (\<forall>y \<in> present (obs (rdb s)) h. y \<le> x)))"
  unfolding StoreImpl_findMaxKey_def
  by (rule findKey_spec [OF assms last_obs last_valid]) (use last_key in blast)+

end

section \<open>A store on the in-memory engine\<close>

text \<open>
  An open store with two kinds: the default one holds one key, the other one is empty.
\<close>

definition ex_store :: "memdb StoreImpl" where
  "ex_store = \<lparr>rdb = mem_empty\<lparr>m_tab := (\<lambda>h. if h = 5 then [([1], Single [7])] else []),
       m_cfs := [5, 6], m_names := [(''default'', 5), (''q'', 6)], m_path := ''db'', m_next := 7\<rparr>,
     heap = (\<lambda>_. None), next_addr = 0, clock = (\<lambda>_. 0), reads = 0, cpus = 4, open_flag = True,
     monitor = False, options = DBOptions_default mem_consts, txnDbOptions = TransactionDBOptions_default,
     txnOpts = TransactionOptions_default, columnFamilyOptions = ColumnFamilyOptions_default mem_consts,
     writeOptions = WriteOptions_default, readOptions = ReadOptions_default,
     flushOptions = FlushOptions_default, flushOptionsNoWait = FlushOptions_default\<lparr>fo_wait := False\<rparr>,
     txnDb = Some 0, reusable_tx = None, sstFileManager = None,
     kinds = [(''default'', KindImpl_ctor ''default'' (Some 5)), (''q'', KindImpl_ctor ''q'' (Some 6))],
     path = ''db'', version = '''', code = 0, totalSinceLastSync = 0, lastSync = 0\<rparr>"

lemma ex_store_wf: "store_wf ex_store" "open_flag ex_store"
  by (simp_all add: ex_store_def store_wf_def heap_fresh_def)

lemma ex_store_kinds: "live_kind ex_store (InKinds ''default'') 5" "live_kind ex_store (InKinds ''q'') 6"
  by (simp_all add: live_kind_def deref_kind_def ex_store_def)

lemma ex_store_cells:
  "cells (mem_obs (rdb ex_store)) 5 = (\<lambda>k. if k = [1] then Single [7] else Absent)"
  "cells (mem_obs (rdb ex_store)) 6 = (\<lambda>k. Absent)"
  by (auto simp: ex_store_def mem_obs_def mem_cell_def)

lemmas ex_default = mem.rocksdb_spec_axioms ex_store_wf ex_store_kinds(1)

section \<open>Properties\<close>

text \<open>
  C3: \<^verbatim>\<open>StoreImpl::put\<close> on an open store with a kind of the store never runs into undefined behaviour,
  reports exactly one code, keeps the invariant and touches neither the heap nor the rest of the
  object.  With code 0 the key has the new value and nothing else changed; with any other code (a
  RocksDB code or \<open>NoTransaction\<close>) the contents are as before.
\<close>

theorem store_put_correct:
  assumes "rocksdb_spec eng obs pending" "store_wf s" "open_flag s" "live_kind s k h"
  shows "\<exists>c s'. StoreImpl_put eng status k (Some key) val s = Some (assign c status, s') \<and> tx_code c \<and>
    store_wf s' \<and> store_frame s s' \<and> same_heap s s' \<and>
    (if c = 0 then obs (rdb s') = upd_cell h key (cell_put (slice_of val) (cells (obs (rdb s)) h key)) (obs (rdb s))
     else obs (rdb s') = obs (rdb s))"
  using rocksdb_spec.put_spec [OF assms, of status key val] by (simp only: outcome_def op_effect.simps)

theorem store_put_correct_witness:
  "\<exists>c s'. StoreImpl_put mem_engine (Some 0) (InKinds ''default'') (Some [1]) (Some [2]) ex_store =
      Some (assign c (Some 0), s') \<and> tx_code c \<and> store_wf s' \<and> store_frame ex_store s' \<and>
    same_heap ex_store s' \<and>
    (if c = 0 then mem_obs (rdb s') = upd_cell 5 [1] (cell_put [2] (cells (mem_obs (rdb ex_store)) 5 [1]))
         (mem_obs (rdb ex_store))
     else mem_obs (rdb s') = mem_obs (rdb ex_store))"
  using store_put_correct [OF ex_default, of "Some 0" "[1]" "Some [2]"] by (simp only: slice_of_simps)

text \<open>
  C4: \<^verbatim>\<open>StoreImpl::get\<close> changes no contents.  With code 0 the key was present and its bytes are in a
  fresh array owned by the caller (null for an empty value); code 1 (\<open>NotFound\<close>) means that the key
  is absent; with any code but 0 nothing is allocated, null is returned and the length is 0.
\<close>

theorem store_get_correct:
  assumes "rocksdb_spec eng obs pending" "store_wf s" "open_flag s" "live_kind s k h"
  shows "\<exists>c r len s'. StoreImpl_get eng status k (Some n) (Some key) s = Some (r, assign c status, len, s') \<and>
    store_wf s' \<and> store_frame s s' \<and> obs (rdb s') = obs (rdb s) \<and>
    fetched c r (Some 0) len (cell_value (cells (obs (rdb s)) h key)) s s'"
  using rocksdb_spec.get_spec [OF assms] by blast

theorem store_get_correct_witness:
  "\<exists>c r len s'. StoreImpl_get mem_engine (Some 0) (InKinds ''default'') (Some 5) (Some [1]) ex_store =
      Some (r, assign c (Some 0), len, s') \<and>
    store_wf s' \<and> store_frame ex_store s' \<and> mem_obs (rdb s') = mem_obs (rdb ex_store) \<and>
    fetched c r (Some 0) len (Some [7]) ex_store s'"
  using store_get_correct [OF ex_default, of "Some 0" 5 "[1]"] by (simp add: ex_store_cells)

text \<open>
  C9: \<^verbatim>\<open>StoreImpl::putIfAbsent\<close> writes only an absent key, reports \<open>AlreadyExists\<close> exactly for a key
  that was read successfully, and with every code but 0 leaves the contents alone.
\<close>

theorem store_putIfAbsent_correct:
  assumes "rocksdb_spec eng obs pending" "store_wf s" "open_flag s" "live_kind s k h"
  shows "\<exists>c s'. StoreImpl_putIfAbsent eng status k (Some key) val s = Some (assign c status, s') \<and>
    store_wf s' \<and> store_frame s s' \<and>
    (c = 0 \<longrightarrow> cell_value (cells (obs (rdb s)) h key) = None \<and> same_heap s s' \<and>
       obs (rdb s') = upd_cell h key (cell_put (slice_of val) (cells (obs (rdb s)) h key)) (obs (rdb s))) \<and>
    (c \<noteq> 0 \<longrightarrow> obs (rdb s') = obs (rdb s)) \<and>
    (c = SC_AlreadyExists \<longrightarrow> cell_value (cells (obs (rdb s)) h key) \<noteq> None)"
  using rocksdb_spec.putIfAbsent_spec [OF assms, of status key val] by fastforce

theorem store_putIfAbsent_correct_witness:
  "\<exists>c s'. StoreImpl_putIfAbsent mem_engine (Some 0) (InKinds ''default'') (Some [1]) (Some [2]) ex_store =
      Some (assign c (Some 0), s') \<and> store_wf s' \<and> store_frame ex_store s' \<and> c \<noteq> 0 \<and>
    mem_obs (rdb s') = mem_obs (rdb ex_store)"
  using store_putIfAbsent_correct [OF ex_default, of "Some 0" "[1]" "Some [2]"]
  by (auto simp: ex_store_cells)

text \<open>
  C10: \<^verbatim>\<open>StoreImpl::updateIfPresent\<close>, \<^verbatim>\<open>removeIfPresent\<close> and \<^verbatim>\<open>singleRemoveIfPresent\<close> hand out the old
  value the way \<open>get\<close> does and then make the one write; a key that could not be read is not written,
  and its code is reported.
\<close>

theorem store_if_present_correct:
  assumes "rocksdb_spec eng obs pending" "store_wf s" "open_flag s" "live_kind s k h"
  shows "(\<exists>c r len s'. StoreImpl_updateIfPresent eng status k (Some n) (Some key) val s =
        Some (r, assign c status, len, s') \<and>
      taken obs (WPut h key (slice_of val)) (cell_value (cells (obs (rdb s)) h key)) c r len s s') \<and>
    (\<exists>c r len s'. StoreImpl_removeIfPresent eng status k (Some n) (Some key) s =
        Some (r, assign c status, len, s') \<and>
      taken obs (WDelete h key) (cell_value (cells (obs (rdb s)) h key)) c r len s s') \<and>
    (\<exists>c r len s'. StoreImpl_singleRemoveIfPresent eng status k (Some n) (Some key) s =
        Some (r, assign c status, len, s') \<and>
      taken obs (WSingleDelete h key) (cell_value (cells (obs (rdb s)) h key)) c r len s s')"
  by (intro conjI rocksdb_spec.updateIfPresent_spec [OF assms] rocksdb_spec.removeIfPresent_spec [OF assms]
      rocksdb_spec.singleRemoveIfPresent_spec [OF assms])

theorem store_if_present_correct_witness:
  "\<exists>c r len s'. StoreImpl_removeIfPresent mem_engine (Some 0) (InKinds ''default'') (Some 0) (Some [1]) ex_store =
      Some (r, assign c (Some 0), len, s') \<and> taken mem_obs (WDelete 5 [1]) (Some [7]) c r len ex_store s'"
  using store_if_present_correct [OF ex_default, of "Some 0" 0 "[1]" None] by (simp add: ex_store_cells)

text \<open>
  C12: \<^verbatim>\<open>StoreImpl::findMinKey\<close> and \<^verbatim>\<open>findMaxKey\<close> return the bytewise smallest and greatest present key
  of the kind in a fresh array, and null when the kind is empty, when no iterator could be made (code
  \<^verbatim>\<open>NoIterator\<close>) or when the seek of the iterator failed.  In the last case the code is nevertheless \<^verbatim>\<open>Ok\<close>, since the
  methods do not ask the iterator for its status: the answer is the one for an empty kind.
\<close>

theorem store_extreme_keys:
  assumes "rocksdb_spec eng obs pending" "store_wf s" "open_flag s" "live_kind s k h"
  shows "(\<exists>c r len ko s'. StoreImpl_findMinKey eng status k (Some n) s = Some (r, assign c status, len, s') \<and>
      store_wf s' \<and> obs (rdb s') = obs (rdb s) \<and> (c = 0 \<or> c = SC_NoIterator) \<and> found c r len ko s s' \<and>
      (c = 0 \<longrightarrow> (ko = None \<longleftrightarrow> \<not> seek_ok eng (It_SeekToFirst eng) h s \<or> present (obs (rdb s)) h = {}) \<and>
        (\<forall>x. ko = Some x \<longrightarrow> x \<in> present (obs (rdb s)) h \<and> (\<forall>y \<in> present (obs (rdb s)) h. x \<le> y)))) \<and>
    (\<exists>c r len ko s'. StoreImpl_findMaxKey eng status k (Some n) s = Some (r, assign c status, len, s') \<and>
      store_wf s' \<and> obs (rdb s') = obs (rdb s) \<and> (c = 0 \<or> c = SC_NoIterator) \<and> found c r len ko s s' \<and>
      (c = 0 \<longrightarrow> (ko = None \<longleftrightarrow> \<not> seek_ok eng (It_SeekToLast eng) h s \<or> present (obs (rdb s)) h = {}) \<and>
        (\<forall>x. ko = Some x \<longrightarrow> x \<in> present (obs (rdb s)) h \<and> (\<forall>y \<in> present (obs (rdb s)) h. y \<le> x))))"
  using rocksdb_spec.findMinKey_spec [OF assms, of status n] rocksdb_spec.findMaxKey_spec [OF assms, of status n]
  by (elim exE conjE) (intro conjI exI; assumption)

theorem store_extreme_keys_witness:
  "\<exists>c r len ko s'. StoreImpl_findMinKey mem_engine (Some 0) (InKinds ''default'') (Some 0) ex_store =
      Some (r, assign c (Some 0), len, s') \<and> found c r len ko ex_store s' \<and>
    (c = 0 \<longrightarrow> (ko = None \<longleftrightarrow> \<not> seek_ok mem_engine (It_SeekToFirst mem_engine) 5 ex_store \<or>
       present (mem_obs (rdb ex_store)) 5 = {}))"
  using store_extreme_keys [OF ex_default, of "Some 0" 0]
  by (elim conjE exE) (intro conjI exI; assumption?; simp)

text \<open>
  On the in-memory engine with one scripted failure: the kind \<open>default\<close> has a key, \<open>findMinKey\<close> reports \<^verbatim>\<open>Ok\<close> and
  null.
\<close>

lemma failed_seek_hides_keys:
  "present (mem_obs (rdb ex_store)) 5 \<noteq> {} \<and>
   map_option (\<lambda>(r, st, len, s'). (r, st, len)) (StoreImpl_findMinKey mem_engine (Some 0) (InKinds ''default'') (Some 0)
     (ex_store\<lparr>rdb := (rdb ex_store)\<lparr>m_faults := [Status_of kIOError kNone]\<rparr>\<rparr>)) = Some (None, Some 0, Some 0)"
  by (intro conjI, simp add: present_def ex_store_cells) code_simp

end
