(* ===== verification/Kueue_Spec.thy ===== *)
theory Kueue_Spec
  imports Kueue_Impl Store_Spec
begin

text \<open>
  What the queue promises.  \<open>queue_cells n msgs\<close> is the column family that holds the messages
  \<open>msgs\<close> under the keys \<open>n\<close>, \<open>n + 1\<close>, ...  \<open>kueue_inv obs h msgs q s\<close> relates a queue object and
  its store to the list of messages it holds.  For every engine with the documented behaviour each
  operation returns, keeps the relation and changes the list the way a FIFO queue does; a failed
  operation leaves it alone.  The interface \<open>fifo\<close> states this contract for a client; the
  queue of the library is an instance of it.
\<close>

section \<open>Abstraction\<close>

fun queue_cells :: "u64 \<Rightarrow> data list \<Rightarrow> data \<Rightarrow> cell" where
  "queue_cells n [] k = Absent"
| "queue_cells n (v # vs) k = (if k = putU64BE n then Single v else queue_cells (n + 1) vs k)"

definition kueue_repr :: "dbobs \<Rightarrow> handle \<Rightarrow> data list \<Rightarrow> KueueImpl \<Rightarrow> bool" where
  "kueue_repr m h msgs q \<longleftrightarrow> kvalid q \<and> \<not> putLock q \<and> \<not> takeLock q \<and>
     unat (minKey q) + length msgs = unat (maxKey q) \<and> length msgs < 2 ^ 63 \<and>
     kcount q = of_nat (length msgs) \<and> cells m h = queue_cells (minKey q) msgs"

definition kueue_inv ::
  "('d \<Rightarrow> dbobs) \<Rightarrow> handle \<Rightarrow> data list \<Rightarrow> KueueImpl \<Rightarrow> 'd StoreImpl \<Rightarrow> bool" where
  "kueue_inv obs h msgs q s \<longleftrightarrow> store_wf s \<and> open_flag s \<and>
     (\<exists>k. queueKind q = Some k \<and> live_kind s k h) \<and> kueue_repr (obs (rdb s)) h msgs q"

text \<open>Nothing but the column family \<open>h\<close> differs.\<close>

definition only_cf :: "handle \<Rightarrow> dbobs \<Rightarrow> dbobs \<Rightarrow> bool" where
  "only_cf h m m' \<longleftrightarrow> cfs m' = cfs m \<and> names m' = names m \<and> location m' = location m \<and>
     cells m' = (cells m)(h := cells m' h)"

section \<open>Keys and counters\<close>

lemma unat_Suc_u64: "unat (n :: u64) + 1 < 2 ^ 64 \<Longrightarrow> unat (n + 1) = unat n + 1"
  by (simp add: unat_word_ariths)

lemma unat_Suc_less_u64:
  assumes "unat (n :: u64) < unat (x :: u64)"
  shows "unat (n + 1) = unat n + 1"
proof -
  have "unat x < 2 ^ LENGTH(64)" by (rule unsigned_less)
  with assms have "unat n + 1 < 2 ^ LENGTH(64)" by linarith
  then show ?thesis by (intro unat_Suc_u64) simp
qed

lemma unat_of_nat_u64: "m < 2 ^ 64 \<Longrightarrow> unat (of_nat m :: u64) = m"
  by (simp add: unat_of_nat take_bit_nat_eq_self)

lemma sint_of_nat_u64: "m < 2 ^ 63 \<Longrightarrow> sint (of_nat m :: u64) = int m"
  by (simp add: signed_of_nat signed_take_bit_int_eq_self)

lemma queue_cells_above:
  "unat n + length vs \<le> unat x \<Longrightarrow> queue_cells n vs (putU64BE x) = Absent"
proof (induction vs arbitrary: n)
  case (Cons v vs)
  then have "unat n < unat x" by simp
  from unat_Suc_less_u64 [OF this] Cons show ?case by auto
qed simp

lemma queue_cells_below:
  "unat n + length vs < 2 ^ 64 \<Longrightarrow> unat x < unat n \<Longrightarrow> queue_cells n vs (putU64BE x) = Absent"
proof (induction vs arbitrary: n)
  case (Cons v vs)
  then have "unat n + 1 < 2 ^ 64" by simp
  from unat_Suc_u64 [OF this] Cons show ?case by auto
qed simp

lemma queue_cells_snoc:
  "unat n + length vs = unat x \<Longrightarrow>
   queue_cells n (vs @ [v]) = (queue_cells n vs)(putU64BE x := Single v)"
proof (induction vs arbitrary: n)
  case Nil
  then have "n = x" by (simp add: word_unat_eq_iff)
  then show ?case by (simp add: fun_eq_iff)
next
  case (Cons w vs)
  then have "unat n < unat x" by simp
  from unat_Suc_less_u64 [OF this] Cons.prems
  have "unat (n + 1) + length vs = unat x" "n \<noteq> x" by auto
  with Cons.IH [OF this(1)] show ?case by (auto simp: fun_eq_iff)
qed

lemma queue_cells_tl:
  assumes "unat n + length (v # vs) < 2 ^ 64"
  shows "queue_cells (n + 1) vs = (queue_cells n (v # vs))(putU64BE n := Absent)"
proof -
  have "unat (n + 1) = unat n + 1" using assms by (intro unat_Suc_u64) simp
  then have "queue_cells (n + 1) vs (putU64BE n) = Absent"
    using assms by (intro queue_cells_below) auto
  then show ?thesis by (auto simp: fun_eq_iff)
qed

lemma queue_cells_keys:
  "cell_value (queue_cells n vs k) \<noteq> None \<longleftrightarrow> (\<exists>i < length vs. k = putU64BE (n + of_nat i))"
proof (induction vs arbitrary: n)
  case (Cons v vs)
  have "(\<exists>i < length (v # vs). k = putU64BE (n + of_nat i)) \<longleftrightarrow>
      k = putU64BE n \<or> (\<exists>i < length vs. k = putU64BE (n + 1 + of_nat i))"
    by (simp only: length_Cons Ex_less_Suc2) (simp add: algebra_simps)
  then show ?case using Cons.IH [of "n + 1"] by (simp only: queue_cells.simps) auto
qed simp

lemma op_effect_only_cf [simp]:
  "only_cf h m m"
  "op_effect (WPut h k v) m m' \<Longrightarrow> only_cf h m m'"
  "op_effect (WSingleDelete h k) m m' \<Longrightarrow> only_cf h m m'"
  by (auto simp: only_cf_def upd_cell_def)

lemma only_cf_trans: "only_cf h m m' \<Longrightarrow> only_cf h m' m'' \<Longrightarrow> only_cf h m m''"
  unfolding only_cf_def fun_eq_iff by (metis fun_upd_apply)

declare clear_loop.simps [simp del]

section \<open>Put\<close>

lemma kueue_inv_kind:
  assumes "kueue_inv obs h msgs q s"
  obtains k where "queueKind q = Some k" "live_kind s k h" "store_wf s" "open_flag s"
  using assms by (auto simp: kueue_inv_def)

lemma kueue_inv_step:
  assumes "kueue_inv obs h msgs q s" "store_wf s'" "store_frame s s'" "queueKind q' = queueKind q"
    "kueue_repr (obs (rdb s')) h msgs' q'"
  shows "kueue_inv obs h msgs' q' s'"
  using assms live_kind_frame [OF assms(3)] by (auto simp: kueue_inv_def store_frame_def)

lemma of_nat_u64_eq_0: "m < 2 ^ 63 \<Longrightarrow> (of_nat m :: u64) = 0 \<longleftrightarrow> m = 0"
  using unat_of_nat_u64 [of m] by (auto simp: word_unat_eq_iff)

context rocksdb_spec
begin

lemma kueue_put_spec:
  assumes inv: "kueue_inv obs h msgs q s"
    and room: "maxKey q \<noteq> MAX_KEY" "length msgs + 1 < 2 ^ 63"
  shows "\<exists>c q' s'. KueueImpl_put eng status val q s = Some (assign c status, q', s') \<and> tx_code c \<and>
    kueue_inv obs h (if c = 0 then msgs @ [slice_of val] else msgs) q' s' \<and>
    only_cf h (obs (rdb s)) (obs (rdb s')) \<and> same_heap s s' \<and> store_frame s s' \<and>
    q' = (if c = 0 then q\<lparr>maxKey := maxKey q + 1, kcount := kcount q + 1,
                          totalPuts := totalPuts q + 1,
                          signals := signals q + (if msgs = [] then 1 else 0)\<rparr>
          else q)"
proof -
  obtain k where k: "queueKind q = Some k" "live_kind s k h" "store_wf s" "open_flag s"
    using inv by (rule kueue_inv_kind)
  have r: "kvalid q" "\<not> putLock q" "\<not> takeLock q" "unat (minKey q) + length msgs = unat (maxKey q)"
    "kcount q = of_nat (length msgs)" "cells (obs (rdb s)) h = queue_cells (minKey q) msgs"
    using inv by (auto simp: kueue_inv_def kueue_repr_def)
  obtain c s' where p: "StoreImpl_put eng (Some (state_of status)) k (Some (putU64BE (maxKey q))) val s =
      Some (assign c (Some (state_of status)), s')"
    and o: "outcome obs (WPut h (putU64BE (maxKey q)) (slice_of val)) c s s'"
    using put_spec [OF k(3,4,2)] by blast
  let ?q = "if c = 0 then q\<lparr>maxKey := maxKey q + 1, kcount := kcount q + 1,
      totalPuts := totalPuts q + 1, signals := signals q + (if msgs = [] then 1 else 0)\<rparr> else q"
  have "KueueImpl_put eng status val q s = Some (assign c status, ?q, s')"
    using p r k(1) room(2) of_nat_u64_eq_0 [of "length msgs"]
    by (simp add: KueueImpl_put_def lock_put_def lock_take_def KueueImpl_getKindRef_def
        KueueImpl_signalNotEmpty_def notify_one_def assign_def)
  moreover have "kueue_repr (obs (rdb s')) h (if c = 0 then msgs @ [slice_of val] else msgs) ?q"
  proof (cases "c = 0")
    case True
    have "unat (maxKey q) + 1 < 2 ^ 64" using room(1)
      by (simp add: MAX_KEY_def word_unat_eq_iff) (use unat_u64_less [of "maxKey q"] in linarith)
    then have "unat (maxKey q + 1) = unat (maxKey q) + 1" by (rule unat_Suc_u64)
    moreover have "cells (obs (rdb s')) h = queue_cells (minKey q) (msgs @ [slice_of val])"
      using True o r(6) queue_cells_snoc [OF r(4), of "slice_of val"]
        queue_cells_above [of "minKey q" msgs "maxKey q"] r(4)
      by (simp add: outcome_def upd_cell_def)
    ultimately show ?thesis using True r room(2) by (simp add: kueue_repr_def)
  next
    case False
    then show ?thesis using o inv by (simp add: outcome_def kueue_inv_def)
  qed
  ultimately show ?thesis
    using o kueue_inv_step [OF inv, of s' ?q "if c = 0 then msgs @ [slice_of val] else msgs"]
    by (intro exI [where x = c] exI [where x = ?q] exI [where x = s'])
       (auto simp: outcome_def simp del: op_effect.simps split: if_splits)
qed

end

section \<open>Taking and erasing the first message\<close>

text \<open>The queue object after its first message was removed.\<close>

definition popped :: "data list \<Rightarrow> KueueImpl \<Rightarrow> KueueImpl" where
  "popped msgs q = q\<lparr>minKey := minKey q + 1, kcount := kcount q - 1, totalTakes := totalTakes q + 1,
     signals := signals q + (if 1 < length msgs then 1 else 0)\<rparr>"

lemma kueue_reprD:
  assumes "kueue_repr m h msgs q"
  shows "kvalid q" "\<not> putLock q" "\<not> takeLock q" "unat (minKey q) + length msgs = unat (maxKey q)"
    "length msgs < 2 ^ 63" "kcount q = of_nat (length msgs)" "cells m h = queue_cells (minKey q) msgs"
    "sint (kcount q) = int (length msgs)"
    "kcount q = 0 \<longleftrightarrow> msgs = []"
  using assms sint_of_nat_u64 [of "length msgs"] of_nat_u64_eq_0 [of "length msgs"]
  by (auto simp: kueue_repr_def)

lemma kueue_repr_pop:
  assumes r: "kueue_repr m h (v # vs) q" and e: "op_effect (WSingleDelete h (putU64BE (minKey q))) m m'"
    and q': "minKey q' = minKey q + 1" "maxKey q' = maxKey q" "kcount q' = kcount q - 1" "kvalid q'"
      "\<not> putLock q'" "\<not> takeLock q'"
  shows "kueue_repr m' h vs q'"
proof -
  note r = kueue_reprD [OF r]
  have less: "unat (minKey q) < unat (maxKey q)" using r(4) by simp
  have "unat (maxKey q) < 2 ^ LENGTH(64)" by (rule unsigned_less)
  then have tl: "queue_cells (minKey q + 1) vs = (queue_cells (minKey q) (v # vs))(putU64BE (minKey q) := Absent)"
    using r(4) by (intro queue_cells_tl) simp
  have "cells m' h = queue_cells (minKey q + 1) vs" unfolding tl using e r(7) by (auto simp: upd_cell_def)
  then show ?thesis
    using r unat_Suc_less_u64 [OF less] q' by (simp add: kueue_repr_def)
qed

context rocksdb_spec
begin

text \<open>
  With code 0 the first message was handed out and removed; otherwise the queue is unchanged, and
  the array \<open>r\<close>, if any, holds a copy of the message whose removal failed.
\<close>

lemma kueue_take_body_spec:
  assumes inv: "kueue_inv obs h (v # vs) q s"
  shows "\<exists>c r len q' s'. KueueImpl_take_body eng status (Some n) (q\<lparr>takeLock := True\<rparr>) s =
      Some (r, assign c status, len, q', s') \<and>
    kueue_inv obs h (if c = 0 then vs else v # vs) q' s' \<and>
    only_cf h (obs (rdb s)) (obs (rdb s')) \<and> store_frame s s' \<and>
    (\<exists>g. fetched g r (Some 0) len (Some v) s s' \<and> (c = 0 \<longrightarrow> g = 0)) \<and>
    q' = (if c = 0 then popped (v # vs) q else q)"
proof -
  obtain k where k: "queueKind q = Some k" "live_kind s k h" "store_wf s" "open_flag s"
    using inv by (rule kueue_inv_kind)
  have rp: "kueue_repr (obs (rdb s)) h (v # vs) q" using inv by (simp add: kueue_inv_def)
  note r = kueue_reprD [OF rp]
  obtain c p len s' where t: "StoreImpl_singleRemoveIfPresent eng (Some (state_of status)) k (Some n)
      (Some (putU64BE (minKey q))) s = Some (p, assign c (Some (state_of status)), len, s')"
    and o: "taken obs (WSingleDelete h (putU64BE (minKey q)))
      (cell_value (cells (obs (rdb s)) h (putU64BE (minKey q)))) c p len s s'"
    using singleRemoveIfPresent_spec [OF k(3,4,2)] by blast
  let ?q = "if c = 0 then popped (v # vs) q else q" and ?msgs = "if c = 0 then vs else v # vs"
  have val: "cell_value (cells (obs (rdb s)) h (putU64BE (minKey q))) = Some v" by (simp add: r(7))
  have e: "if c = 0 then op_effect (WSingleDelete h (putU64BE (minKey q))) (obs (rdb s)) (obs (rdb s'))
      else obs (rdb s') = obs (rdb s)"
    using o by (auto simp: taken_def simp del: op_effect.simps split: if_splits)
  have sig: "1 < sint (kcount q) \<longleftrightarrow> 1 < length (v # vs)" unfolding r(8) by simp
  have "KueueImpl_take_body eng status (Some n) (q\<lparr>takeLock := True\<rparr>) s = Some (p, assign c status, len, ?q, s')"
    using t r(3) k(1) sig
    by (simp add: KueueImpl_take_body_def KueueImpl_getKindRef_def notify_one_def popped_def assign_def)
  moreover have "kueue_inv obs h ?msgs ?q s'"
  proof (rule kueue_inv_step [OF inv])
    show "kueue_repr (obs (rdb s')) h ?msgs ?q"
      using e rp r kueue_repr_pop [OF rp, of "obs (rdb s')" "popped (v # vs) q"]
      by (auto simp: popped_def simp del: op_effect.simps)
  qed (use o in \<open>auto simp: taken_def popped_def\<close>)
  moreover have "\<exists>g. fetched g p (Some 0) len (Some v) s s' \<and> (c = 0 \<longrightarrow> g = 0)"
    using o by (auto simp: taken_def val simp del: op_effect.simps split: if_splits)
  ultimately show ?thesis
    using o e by (intro exI [where x = c] exI [where x = p] exI [where x = len] exI [where x = ?q]
        exI [where x = s']) (auto simp: taken_def simp del: op_effect.simps split: if_splits)
qed

lemma kueue_lock_take: "kueue_inv obs h msgs q s \<Longrightarrow> lock_take q = Some (q\<lparr>takeLock := True\<rparr>) \<and> kvalid q"
  by (simp add: kueue_inv_def kueue_repr_def lock_take_def)

lemma kueue_take_spec:
  assumes inv: "kueue_inv obs h (v # vs) q s"
  shows "\<exists>c r len q' s'. KueueImpl_take eng status (Some n) q s =
      Some (Done (r, assign c status, len, q', s')) \<and>
    KueueImpl_take_timeout eng status (Some n) timeout q s = KueueImpl_take eng status (Some n) q s \<and>
    kueue_inv obs h (if c = 0 then vs else v # vs) q' s' \<and>
    only_cf h (obs (rdb s)) (obs (rdb s')) \<and> store_frame s s' \<and>
    (\<exists>g. fetched g r (Some 0) len (Some v) s s' \<and> (c = 0 \<longrightarrow> g = 0)) \<and>
    q' = (if c = 0 then popped (v # vs) q else q)"
proof -
  have "kueue_repr (obs (rdb s)) h (v # vs) q" using inv by (simp add: kueue_inv_def)
  note r = kueue_reprD [OF this]
  have "kcount q \<noteq> 0" "0 < sint (kcount q)" using r(8,9) by simp_all
  moreover note kueue_lock_take [OF inv] kueue_take_body_spec [OF inv, of status n]
  ultimately show ?thesis by (auto simp: KueueImpl_take_def KueueImpl_take_timeout_def)
qed

lemma kueue_take_empty:
  assumes inv: "kueue_inv obs h [] q s"
  shows "KueueImpl_take eng status len q s = Some Blocked"
    "KueueImpl_take_timeout eng status len timeout q s =
      Some (if timeout > 0 then Done (None, assign SC_TimedOut status, len, q, s) else Blocked)"
    "KueueImpl_readNext eng status len pKey timeout q s =
      Some (if timeout > 0 then Done (None, assign SC_TimedOut status, len, pKey, q, s) else Blocked)"
proof -
  have "kueue_repr (obs (rdb s)) h [] q" using inv by (simp add: kueue_inv_def)
  note r = kueue_reprD [OF this] and l = kueue_lock_take [OF inv]
  have "q\<lparr>takeLock := True, takeLock := False\<rparr> = q" using r(3) by simp
  then show "KueueImpl_take eng status len q s = Some Blocked"
    "KueueImpl_take_timeout eng status len timeout q s =
      Some (if timeout > 0 then Done (None, assign SC_TimedOut status, len, q, s) else Blocked)"
    "KueueImpl_readNext eng status len pKey timeout q s =
      Some (if timeout > 0 then Done (None, assign SC_TimedOut status, len, pKey, q, s) else Blocked)"
    using r l by (simp_all add: KueueImpl_take_def KueueImpl_take_timeout_def KueueImpl_readNext_def)
qed

end

context rocksdb_spec
begin

lemma kueue_readNext_spec:
  assumes inv: "kueue_inv obs h (v # vs) q s"
  shows "\<exists>c r len s'. KueueImpl_readNext eng status (Some n) pKey timeout q s =
      Some (Done (r, assign c status, len,
        if c = 0 then map_option (\<lambda>_. minKey q) pKey else pKey, q, s')) \<and>
    kueue_inv obs h (v # vs) q s' \<and> obs (rdb s') = obs (rdb s) \<and> store_frame s s' \<and>
    fetched c r (Some 0) len (Some v) s s'"
proof -
  obtain k where k: "queueKind q = Some k" "live_kind s k h" "store_wf s" "open_flag s"
    using inv by (rule kueue_inv_kind)
  have rp: "kueue_repr (obs (rdb s)) h (v # vs) q" using inv by (simp add: kueue_inv_def)
  note r = kueue_reprD [OF rp]
  obtain c p len s' where g: "StoreImpl_get eng (Some (state_of status)) k (Some n)
      (Some (putU64BE (minKey q))) s = Some (p, assign c (Some (state_of status)), len, s')"
    and o: "store_wf s'" "store_frame s s'" "obs (rdb s') = obs (rdb s)"
      "fetched c p (Some 0) len (cell_value (cells (obs (rdb s)) h (putU64BE (minKey q)))) s s'"
    using get_spec [OF k(3,4,2)] by blast
  have "KueueImpl_readNext eng status (Some n) pKey timeout q s =
      Some (Done (p, assign c status, len, if c = 0 then map_option (\<lambda>_. minKey q) pKey else pKey, q, s'))"
    using g r kueue_lock_take [OF inv] k(1)
    by (simp add: KueueImpl_readNext_def KueueImpl_getKindRef_def assign_def)
  moreover have "kueue_inv obs h (v # vs) q s'"
    using kueue_inv_step [OF inv o(1,2), of q] rp o(3) by simp
  moreover have "fetched c p (Some 0) len (Some v) s s'" using o(4) by (simp add: r(7))
  ultimately show ?thesis using o(2,3) by blast
qed

lemma kueue_single_remove:
  assumes inv: "kueue_inv obs h (v # vs) q s"
  shows "\<exists>k c s'. queueKind q = Some k \<and>
    StoreImpl_singleRemove eng (Some st) k (Some (putU64BE (minKey q))) s = Some (Some c, s') \<and>
    tx_code c \<and> store_wf s' \<and> store_frame s s' \<and> same_heap s s' \<and>
    only_cf h (obs (rdb s)) (obs (rdb s')) \<and>
    (if c = 0 then op_effect (WSingleDelete h (putU64BE (minKey q))) (obs (rdb s)) (obs (rdb s'))
     else obs (rdb s') = obs (rdb s))"
proof -
  obtain k where k: "queueKind q = Some k" "live_kind s k h" "store_wf s" "open_flag s"
    using inv by (rule kueue_inv_kind)
  obtain c s' where t: "StoreImpl_singleRemove eng (Some st) k (Some (putU64BE (minKey q))) s =
      Some (assign c (Some st), s')"
    and o: "outcome obs (WSingleDelete h (putU64BE (minKey q))) c s s'"
    using singleRemove_spec [OF k(3,4,2)] by blast
  then show ?thesis using k(1)
    by (intro exI [where x = k] exI [where x = c] exI [where x = s'])
       (auto simp: outcome_def assign_def simp del: op_effect.simps split: if_splits)
qed

lemma kueue_erase_spec:
  assumes inv: "kueue_inv obs h (v # vs) q s"
  shows "\<exists>b q' s'. KueueImpl_erase eng (minKey q) q s = Some (b, q', s') \<and>
    kueue_inv obs h (if b then vs else v # vs) q' s' \<and> only_cf h (obs (rdb s)) (obs (rdb s')) \<and>
    store_frame s s' \<and> same_heap s s' \<and> q' = (if b then popped (v # vs) q else q)"
proof -
  have rp: "kueue_repr (obs (rdb s)) h (v # vs) q" using inv by (simp add: kueue_inv_def)
  note r = kueue_reprD [OF rp]
  obtain k c s' where k: "queueKind q = Some k"
    and t: "StoreImpl_singleRemove eng (Some SC_Ok) k (Some (putU64BE (minKey q))) s = Some (Some c, s')"
    and o: "store_wf s'" "store_frame s s'" "same_heap s s'" "only_cf h (obs (rdb s)) (obs (rdb s'))"
    and e: "if c = 0 then op_effect (WSingleDelete h (putU64BE (minKey q))) (obs (rdb s)) (obs (rdb s'))
      else obs (rdb s') = obs (rdb s)"
    using kueue_single_remove [OF inv] by blast
  let ?q = "if c = 0 then popped (v # vs) q else q" and ?msgs = "if c = 0 then vs else v # vs"
  have sig: "1 < sint (kcount q) \<longleftrightarrow> 1 < length (v # vs)" unfolding r(8) by simp
  have "KueueImpl_erase eng (minKey q) q s = Some (c = 0, ?q, s')"
    using t [simplified] r kueue_lock_take [OF inv] k sig
    by (simp add: KueueImpl_erase_def KueueImpl_getKindRef_def notify_one_def popped_def)
  moreover have "kueue_inv obs h ?msgs ?q s'"
  proof (rule kueue_inv_step [OF inv o(1,2)])
    show "kueue_repr (obs (rdb s')) h ?msgs ?q"
      using e rp r kueue_repr_pop [OF rp, of "obs (rdb s')" "popped (v # vs) q"]
      by (auto simp: popped_def simp del: op_effect.simps)
  qed (simp add: popped_def)
  ultimately show ?thesis using o
    by (intro exI [where x = "c = 0"] exI [where x = ?q] exI [where x = s']) simp
qed

end

lemma kueue_erase_other: "key \<noteq> minKey q \<Longrightarrow> KueueImpl_erase eng key q s = Some (False, q, s)"
  by (simp add: KueueImpl_erase_def)

text \<open>
  The state of the loop of \<open>clear\<close>: both locks are held, and the rest is the queue relation.
\<close>

definition locked :: "KueueImpl \<Rightarrow> KueueImpl" where
  "locked q = q\<lparr>putLock := True, takeLock := True\<rparr>"

lemma locked_simps [simp]:
  "kcount (locked q) = kcount q" "minKey (locked q) = minKey q" "queueKind (locked q) = queueKind q"
  "totalTakes (locked q) = totalTakes q"
  by (simp_all add: locked_def)

context rocksdb_spec
begin

lemma clear_loop_spec:
  "kueue_inv obs h msgs q s \<Longrightarrow>
   \<exists>c j q' s'. clear_loop eng st (locked q) s = Some (c, locked q', s') \<and> j \<le> length msgs \<and>
     kueue_inv obs h (drop j msgs) q' s' \<and> (if msgs = [] then c = st else c = 0 \<longleftrightarrow> j = length msgs) \<and>
     only_cf h (obs (rdb s)) (obs (rdb s')) \<and> store_frame s s' \<and> same_heap s s' \<and>
     totalTakes q' = totalTakes q + of_nat j"
proof (induction msgs arbitrary: st q s)
  case Nil
  have "kueue_repr (obs (rdb s)) h [] q" using Nil by (simp add: kueue_inv_def)
  note r = kueue_reprD [OF this]
  have "clear_loop eng st (locked q) s = Some (st, locked q, s)"
    using r by (subst clear_loop.simps) (simp add: locked_def)
  with Nil show ?case
    by (intro exI [where x = st] exI [where x = "0 :: nat"] exI [where x = q] exI [where x = s]) simp
next
  case (Cons v vs)
  have rp: "kueue_repr (obs (rdb s)) h (v # vs) q" using Cons.prems by (simp add: kueue_inv_def)
  note r = kueue_reprD [OF rp]
  obtain k c s' where k: "queueKind q = Some k"
    and t: "StoreImpl_singleRemove eng (Some st) k (Some (putU64BE (minKey q))) s = Some (Some c, s')"
    and o: "store_wf s'" "store_frame s s'" "same_heap s s'" "only_cf h (obs (rdb s)) (obs (rdb s'))"
    and e: "if c = 0 then op_effect (WSingleDelete h (putU64BE (minKey q))) (obs (rdb s)) (obs (rdb s'))
      else obs (rdb s') = obs (rdb s)"
    using kueue_single_remove [OF Cons.prems] by blast
  let ?q = "q\<lparr>minKey := minKey q + 1, kcount := kcount q - 1, totalTakes := totalTakes q + 1\<rparr>"
  have lk: "(locked q)\<lparr>minKey := minKey q + 1, kcount := kcount q - 1, totalTakes := totalTakes q + 1\<rparr>
      = locked ?q" by (cases q) (simp add: locked_def)
  have step: "clear_loop eng st (locked q) s =
      (if c = 0 then clear_loop eng c (locked ?q) s' else Some (c, locked q, s'))"
    using t r(8) k lk
    by (subst clear_loop.simps) (simp add: KueueImpl_getKindRef_def)
  show ?case
  proof (cases "c = 0")
    case True
    have "kueue_inv obs h vs ?q s'"
      using True e rp r kueue_repr_pop [OF rp, of "obs (rdb s')" ?q]
      by (intro kueue_inv_step [OF Cons.prems o(1,2)]) (auto simp del: op_effect.simps)
    from Cons.IH [OF this, of c] obtain c' j q' s'' where
      l: "clear_loop eng c (locked ?q) s' = Some (c', locked q', s'')" "j \<le> length vs"
      "kueue_inv obs h (drop j vs) q' s''" "if vs = [] then c' = c else c' = 0 \<longleftrightarrow> j = length vs"
      and f: "only_cf h (obs (rdb s')) (obs (rdb s''))" "store_frame s' s''" "same_heap s' s''"
      and tot: "totalTakes q' = totalTakes ?q + of_nat j" by blast
    show ?thesis
      using True step l tot store_frame_trans [OF o(2) f(2)] same_heap_trans [OF o(3) f(3)]
        only_cf_trans [OF o(4) f(1)]
      by (intro exI [where x = c'] exI [where x = "Suc j"] exI [where x = q'] exI [where x = s''])
         (auto simp: algebra_simps split: if_splits)
  next
    case False
    then have "kueue_inv obs h (v # vs) q s'"
      using e rp by (intro kueue_inv_step [OF Cons.prems o(1,2)]) auto
    with False step o show ?thesis
      by (intro exI [where x = c] exI [where x = "0::nat"] exI [where x = q] exI [where x = s']) auto
  qed
qed

lemma kueue_clear_spec:
  assumes inv: "kueue_inv obs h msgs q s"
  shows "\<exists>c j q' s'. KueueImpl_clear eng status q s = Some (assign c status, q', s') \<and>
     j \<le> length msgs \<and> kueue_inv obs h (drop j msgs) q' s' \<and>
     (if msgs = [] then c = state_of status else c = 0 \<longleftrightarrow> j = length msgs) \<and>
     only_cf h (obs (rdb s)) (obs (rdb s')) \<and> store_frame s s' \<and> same_heap s s' \<and>
     totalTakes q' = totalTakes q + of_nat j"
proof -
  have "kueue_repr (obs (rdb s)) h msgs q" using inv by (simp add: kueue_inv_def)
  note r = kueue_reprD [OF this]
  obtain c j q' s' where l: "clear_loop eng (state_of status) (locked q) s = Some (c, locked q', s')"
    and i: "kueue_inv obs h (drop j msgs) q' s'"
    and o: "j \<le> length msgs" "if msgs = [] then c = state_of status else c = 0 \<longleftrightarrow> j = length msgs"
      "only_cf h (obs (rdb s)) (obs (rdb s'))" "store_frame s s'" "same_heap s s'"
      "totalTakes q' = totalTakes q + of_nat j"
    using clear_loop_spec [OF inv, of "state_of status"] by blast
  have "kueue_repr (obs (rdb s')) h (drop j msgs) q'" using i by (simp add: kueue_inv_def)
  note r' = kueue_reprD(2,3) [OF this]
  have "(locked q')\<lparr>takeLock := False, putLock := False\<rparr> = q'" using r' by (simp add: locked_def)
  with l r have "KueueImpl_clear eng status q s = Some (assign c status, q', s')"
    by (simp add: KueueImpl_clear_def lock_put_def lock_take_def locked_def)
  with i o show ?thesis by blast
qed

end

section \<open>A queue on the in-memory engine\<close>

text \<open>The kind \<^verbatim>\<open>q\<close> of the example store with the messages \<open>[9]\<close> and \<open>[8]\<close>, and without messages.\<close>

definition ex_qstore :: "memdb StoreImpl" where
  "ex_qstore = ex_store\<lparr>rdb := (rdb ex_store)\<lparr>m_tab := (\<lambda>h. if h = 6
     then [(putU64BE 0, Single [9]), (putU64BE 1, Single [8])] else [])\<rparr>\<rparr>"

definition ex_kueue :: "u64 \<Rightarrow> KueueImpl" where
  "ex_kueue n = KueueImpl_init\<lparr>queueKind := Some (InKinds ''q''), kvalid := True, kcount := n, maxKey := n\<rparr>"

lemma ex_qstore_wf: "store_wf ex_qstore" "open_flag ex_qstore" "live_kind ex_qstore (InKinds ''q'') 6"
  using ex_store_wf ex_store_kinds(2)
  by (simp_all add: ex_qstore_def store_wf_def live_kind_def deref_kind_def heap_fresh_def)

lemma ex_queue: "kueue_inv mem_obs 6 [[9], [8]] (ex_kueue 2) ex_qstore"
proof -
  have "cells (mem_obs (rdb ex_qstore)) 6 = queue_cells 0 [[9], [8]]"
    by (auto simp: ex_qstore_def mem_obs_def mem_cell_def fun_eq_iff)
  then show ?thesis
    using ex_qstore_wf by (auto simp: kueue_inv_def kueue_repr_def ex_kueue_def KueueImpl_init_def MIN_KEY_def)
qed

lemma ex_queue_empty: "kueue_inv mem_obs 6 [] (ex_kueue 0) ex_store"
  using ex_store_wf ex_store_kinds(2) ex_store_cells(2)
  by (auto simp: kueue_inv_def kueue_repr_def ex_kueue_def KueueImpl_init_def MIN_KEY_def)

section \<open>Erasing from an empty queue\<close>

lemma kueue_erase_empty:
  assumes "rocksdb_spec eng obs pending" "kueue_inv obs h [] q s"
  shows "\<exists>b q' s'. KueueImpl_erase eng (minKey q) q s = Some (b, q', s') \<and>
    (b \<longrightarrow> KueueImpl_size q' = - 1 \<and> minKey q' = maxKey q' + 1) \<and> (\<not> b \<longrightarrow> q' = q)"
proof -
  obtain k where k: "queueKind q = Some k" "live_kind s k h" "store_wf s" "open_flag s"
    using assms(2) by (rule kueue_inv_kind)
  have "kueue_repr (obs (rdb s)) h [] q" using assms(2) by (simp add: kueue_inv_def)
  note r = kueue_reprD [OF this]
  have "minKey q = maxKey q" "kcount q = 0" using r(4,9) by (simp_all add: word_unat_eq_iff)
  moreover obtain c s' where
    "StoreImpl_singleRemove eng (Some SC_Ok) k (Some (putU64BE (minKey q))) s = Some (assign c (Some SC_Ok), s')"
    using rocksdb_spec.singleRemove_spec [OF assms(1) k(3,4,2)] by blast
  ultimately have "KueueImpl_erase eng (minKey q) q s = Some (c = 0,
      if c = 0 then q\<lparr>minKey := minKey q + 1, kcount := - 1, totalTakes := totalTakes q + 1\<rparr> else q, s')"
    using r(1,3) k(1)
    by (simp add: KueueImpl_erase_def lock_take_def KueueImpl_getKindRef_def notify_one_def assign_def)
  moreover have "KueueImpl_size (q\<lparr>minKey := minKey q + 1, kcount := - 1, totalTakes := totalTakes q + 1\<rparr>) = - 1"
    by (simp add: KueueImpl_size_def)
  ultimately show ?thesis using \<open>minKey q = maxKey q\<close> by simp
qed

section \<open>Properties\<close>

text \<open>
  C5: \<^verbatim>\<open>KueueImpl::put\<close> always returns.  With status 0 the message is the new last message and the
  counters moved, with a signal when the queue was empty; with any other status the queue, its
  counters and the contents are as before.  No other column family and no array is touched.
\<close>

theorem kueue_put_correct:
  assumes "rocksdb_spec eng obs pending" "kueue_inv obs h msgs q s" "maxKey q \<noteq> MAX_KEY"
    "length msgs + 1 < 2 ^ 63"
  shows "\<exists>c q' s'. KueueImpl_put eng status val q s = Some (assign c status, q', s') \<and> tx_code c \<and>
    kueue_inv obs h (if c = 0 then msgs @ [slice_of val] else msgs) q' s' \<and>
    only_cf h (obs (rdb s)) (obs (rdb s')) \<and> same_heap s s' \<and> store_frame s s' \<and>
    q' = (if c = 0 then q\<lparr>maxKey := maxKey q + 1, kcount := kcount q + 1,
                          totalPuts := totalPuts q + 1,
                          signals := signals q + (if msgs = [] then 1 else 0)\<rparr>
          else q)"
  by (rule rocksdb_spec.kueue_put_spec [OF assms])

theorem kueue_put_correct_witness:
  "\<exists>c q' s'. KueueImpl_put mem_engine (Some 0) (Some [3]) (ex_kueue 0) ex_store = Some (assign c (Some 0), q', s') \<and>
    kueue_inv mem_obs 6 (if c = 0 then [[3]] else []) q' s'"
proof -
  have "maxKey (ex_kueue 0) \<noteq> MAX_KEY" by (simp add: ex_kueue_def MAX_KEY_def)
  from kueue_put_correct [OF mem.rocksdb_spec_axioms ex_queue_empty this, of "Some 0" "Some [3]"]
  show ?thesis by (simp only: list.size append_Nil slice_of_simps) (auto split: if_splits)
qed

text \<open>
  C6: on a queue with messages both overloads of \<^verbatim>\<open>KueueImpl::take\<close> return without waiting.  With
  status 0 the first message is removed and its bytes are in a fresh array; otherwise the queue is
  unchanged.  The take passes the signal on when more than one message was there.
\<close>

theorem kueue_take_correct:
  assumes "rocksdb_spec eng obs pending" "kueue_inv obs h (v # vs) q s"
  shows "\<exists>c r len q' s'. KueueImpl_take eng status (Some n) q s =
      Some (Done (r, assign c status, len, q', s')) \<and>
    KueueImpl_take_timeout eng status (Some n) timeout q s = KueueImpl_take eng status (Some n) q s \<and>
    kueue_inv obs h (if c = 0 then vs else v # vs) q' s' \<and>
    only_cf h (obs (rdb s)) (obs (rdb s')) \<and> store_frame s s' \<and>
    (\<exists>g. fetched g r (Some 0) len (Some v) s s' \<and> (c = 0 \<longrightarrow> g = 0)) \<and>
    q' = (if c = 0 then popped (v # vs) q else q)"
  by (rule rocksdb_spec.kueue_take_spec [OF assms])

theorem kueue_take_correct_witness:
  "\<exists>c r len q' s'. KueueImpl_take mem_engine (Some 0) (Some 0) (ex_kueue 2) ex_qstore =
      Some (Done (r, assign c (Some 0), len, q', s')) \<and>
    kueue_inv mem_obs 6 (if c = 0 then [[8]] else [[9], [8]]) q' s' \<and>
    (\<exists>g. fetched g r (Some 0) len (Some [9]) ex_qstore s' \<and> (c = 0 \<longrightarrow> g = 0))"
  using kueue_take_correct [OF mem.rocksdb_spec_axioms ex_queue, of "Some 0" 0 0] by blast

text \<open>
  C13: \<^verbatim>\<open>KueueImpl::clear\<close> ends, removes a prefix of the messages and leaves the others in place.  It
  reports 0 exactly when nothing is left; on a queue that was empty it does not assign the status.
\<close>

theorem kueue_clear_correct:
  assumes "rocksdb_spec eng obs pending" "kueue_inv obs h msgs q s"
  shows "\<exists>c j q' s'. KueueImpl_clear eng status q s = Some (assign c status, q', s') \<and>
     j \<le> length msgs \<and> kueue_inv obs h (drop j msgs) q' s' \<and>
     (if msgs = [] then c = state_of status else c = 0 \<longleftrightarrow> j = length msgs) \<and>
     only_cf h (obs (rdb s)) (obs (rdb s')) \<and> store_frame s s' \<and> same_heap s s' \<and>
     totalTakes q' = totalTakes q + of_nat j"
  by (rule rocksdb_spec.kueue_clear_spec [OF assms])

theorem kueue_clear_correct_witness:
  "\<exists>c j q' s'. KueueImpl_clear mem_engine (Some 0) (ex_kueue 2) ex_qstore = Some (assign c (Some 0), q', s') \<and>
     j \<le> 2 \<and> kueue_inv mem_obs 6 (drop j [[9], [8]]) q' s' \<and> (c = 0 \<longleftrightarrow> j = 2)"
proof -
  have len: "length [[9 :: byte], [8]] = 2" "([[9 :: byte], [8]] = []) = False" by simp_all
  from kueue_clear_correct [OF mem.rocksdb_spec_axioms ex_queue, of "Some 0"]
  show ?thesis unfolding len if_False by blast
qed

text \<open>
  C14: \<^verbatim>\<open>KueueImpl::erase\<close> with the key of the first message removes that message when it returns true
  and changes nothing when it returns false; with another key it returns false and changes nothing.  It does
  not look at the counter: on an empty queue the key \<open>minKey\<close> is accepted, and when the store reports 0 for
  the removal of the absent key the method returns true and leaves a queue of size \<open>-1\<close> whose next message is
  skipped.
\<close>

theorem kueue_erase_correct:
  assumes "rocksdb_spec eng obs pending" "kueue_inv obs h msgs q s"
  shows "(\<exists>b q' s'. KueueImpl_erase eng (minKey q) q s = Some (b, q', s') \<and>
      (msgs \<noteq> [] \<longrightarrow> kueue_inv obs h (if b then tl msgs else msgs) q' s' \<and> only_cf h (obs (rdb s)) (obs (rdb s')) \<and>
         store_frame s s' \<and> same_heap s s' \<and> q' = (if b then popped msgs q else q)) \<and>
      (msgs = [] \<longrightarrow> (b \<longrightarrow> KueueImpl_size q' = - 1 \<and> minKey q' = maxKey q' + 1) \<and> (\<not> b \<longrightarrow> q' = q))) \<and>
    (\<forall>key. key \<noteq> minKey q \<longrightarrow> KueueImpl_erase eng key q s = Some (False, q, s))"
proof (intro conjI allI impI)
  show "\<exists>b q' s'. KueueImpl_erase eng (minKey q) q s = Some (b, q', s') \<and>
      (msgs \<noteq> [] \<longrightarrow> kueue_inv obs h (if b then tl msgs else msgs) q' s' \<and> only_cf h (obs (rdb s)) (obs (rdb s')) \<and>
         store_frame s s' \<and> same_heap s s' \<and> q' = (if b then popped msgs q else q)) \<and>
      (msgs = [] \<longrightarrow> (b \<longrightarrow> KueueImpl_size q' = - 1 \<and> minKey q' = maxKey q' + 1) \<and> (\<not> b \<longrightarrow> q' = q))"
  proof (cases msgs)
    case Nil
    with assms show ?thesis using kueue_erase_empty [of eng obs pending h q s] by simp
  next
    case (Cons v vs)
    have "kueue_inv obs h (v # vs) q s" using assms(2) Cons by simp
    from rocksdb_spec.kueue_erase_spec [OF assms(1) this] show ?thesis
      unfolding Cons list.sel by (simp split del: if_split)
  qed
qed (rule kueue_erase_other)

theorem kueue_erase_correct_witness:
  "(\<exists>b q' s'. KueueImpl_erase mem_engine (minKey (ex_kueue 2)) (ex_kueue 2) ex_qstore = Some (b, q', s') \<and>
      kueue_inv mem_obs 6 (if b then [[8]] else [[9], [8]]) q' s') \<and>
   (\<exists>q' s'. KueueImpl_erase mem_engine (minKey (ex_kueue 0)) (ex_kueue 0) ex_store = Some (True, q', s') \<and>
      KueueImpl_size q' = - 1 \<and> minKey q' = maxKey q' + 1)"
proof
  show "\<exists>b q' s'. KueueImpl_erase mem_engine (minKey (ex_kueue 2)) (ex_kueue 2) ex_qstore = Some (b, q', s') \<and>
      kueue_inv mem_obs 6 (if b then [[8]] else [[9], [8]]) q' s'"
    using kueue_erase_correct [OF mem.rocksdb_spec_axioms ex_queue, THEN conjunct1, unfolded list.sel] by blast
  have "map_option fst (KueueImpl_erase mem_engine (minKey (ex_kueue 0)) (ex_kueue 0) ex_store) = Some True"
    by code_simp
  with kueue_erase_correct [OF mem.rocksdb_spec_axioms ex_queue_empty, THEN conjunct1]
  show "\<exists>q' s'. KueueImpl_erase mem_engine (minKey (ex_kueue 0)) (ex_kueue 0) ex_store = Some (True, q', s') \<and>
      KueueImpl_size q' = - 1 \<and> minKey q' = maxKey q' + 1" by auto
qed

text \<open>
  C15: \<^verbatim>\<open>KueueImpl::readNext\<close> on a queue with messages returns without waiting and changes neither the
  queue nor the contents.  With status 0 the caller has a copy of the first message and its key,
  which is the key that \<open>erase\<close> accepts.
\<close>

theorem kueue_readNext_correct:
  assumes "rocksdb_spec eng obs pending" "kueue_inv obs h (v # vs) q s"
  shows "\<exists>c r len s'. KueueImpl_readNext eng status (Some n) pKey timeout q s =
      Some (Done (r, assign c status, len,
        if c = 0 then map_option (\<lambda>_. minKey q) pKey else pKey, q, s')) \<and>
    kueue_inv obs h (v # vs) q s' \<and> obs (rdb s') = obs (rdb s) \<and> store_frame s s' \<and>
    fetched c r (Some 0) len (Some v) s s'"
  by (rule rocksdb_spec.kueue_readNext_spec [OF assms])

theorem kueue_readNext_correct_witness:
  "\<exists>c r len s'. KueueImpl_readNext mem_engine (Some 0) (Some 0) (Some 77) 10 (ex_kueue 2) ex_qstore =
      Some (Done (r, assign c (Some 0), len,
        Some (if c = 0 then minKey (ex_kueue 2) else 77), ex_kueue 2, s')) \<and>
    fetched c r (Some 0) len (Some [9]) ex_qstore s'"
  using kueue_readNext_correct [OF mem.rocksdb_spec_axioms ex_queue, of "Some 0" 0 "Some 77" 10]
  unfolding option.map if_distrib [of Some, symmetric] by blast

text \<open>
  C16: on an empty queue \<open>take\<close> and \<open>readNext\<close> with a positive time-out report \<open>TimedOut\<close>, return null
  and change nothing; without a time-out they wait.
\<close>

theorem kueue_empty_waits:
  assumes "rocksdb_spec eng obs pending" "kueue_inv obs h [] q s"
  shows "KueueImpl_take eng status len q s = Some Blocked \<and>
    KueueImpl_take_timeout eng status len timeout q s =
      Some (if timeout > 0 then Done (None, assign SC_TimedOut status, len, q, s) else Blocked) \<and>
    KueueImpl_readNext eng status len pKey timeout q s =
      Some (if timeout > 0 then Done (None, assign SC_TimedOut status, len, pKey, q, s) else Blocked)"
  by (intro conjI rocksdb_spec.kueue_take_empty [OF assms])

theorem kueue_empty_waits_witness:
  "KueueImpl_take_timeout mem_engine (Some 0) None 5 (ex_kueue 0) ex_store =
     Some (Done (None, Some SC_TimedOut, None, ex_kueue 0, ex_store))"
  using kueue_empty_waits [OF mem.rocksdb_spec_axioms ex_queue_empty, of "Some 0" None 5] by (simp add: assign_def)

end
