(* ===== verification/Store_Lifecycle.thy ===== *)
theory Store_Lifecycle
  imports Store_Spec
begin

text \<open>
  The life of a store: opening, creating kinds, closing, and the refusals of every operation on
  null arguments, invalid kinds and closed stores.  \<open>kinds_ok\<close> is the invariant that distinct kinds
  have distinct live column families; it makes the kinds of a store independent of each other.
\<close>

section \<open>Kinds and column families\<close>

definition kinds_ok :: "('d \<Rightarrow> dbobs) \<Rightarrow> 'd StoreImpl \<Rightarrow> bool" where
  "kinds_ok obs s \<longleftrightarrow> distinct (map (\<lambda>x. khandle (snd x)) (kinds s)) \<and>
     (\<forall>k \<in> snd ` set (kinds s). \<exists>h \<in> cfs (obs (rdb s)). khandle k = Some h)"

lemma kinds_ok_frame:
  "kinds_ok obs s \<Longrightarrow> store_frame s s' \<Longrightarrow> cfs (obs (rdb s)) \<subseteq> cfs (obs (rdb s')) \<Longrightarrow> kinds_ok obs s'"
  by (fastforce simp: kinds_ok_def store_frame_def)

lemma kinds_ok_independent:
  assumes "store_wf s" "kinds_ok obs s" "live_kind s (InKinds a) h" "live_kind s (InKinds b) h"
  shows "a = b"
proof -
  obtain ka kb where k: "map_of (kinds s) a = Some ka" "khandle ka = Some h"
    "map_of (kinds s) b = Some kb" "khandle kb = Some h"
    using assms(3,4) by (auto simp: live_kind_def deref_kind_def)
  then have "(a, ka) \<in> set (kinds s)" "(b, kb) \<in> set (kinds s)" by (auto dest: map_of_SomeD)
  moreover have "distinct (map (\<lambda>x. khandle (snd x)) (kinds s))" using assms(2) by (simp add: kinds_ok_def)
  ultimately have "(a, ka) = (b, kb)"
    using k(2,4) unfolding distinct_map inj_on_def by (metis snd_conv)
  then show ?thesis by simp
qed

lemma update_new: "map_of ks n = None \<Longrightarrow> AList.update n k ks = ks @ [(n, k)]"
  by (induction ks) auto

lemma add_kinds_total:
  "length hs = length ns \<Longrightarrow> \<exists>ks'. add_kinds ns hs ks = Some ks'"
  by (induction ns hs ks rule: add_kinds.induct) auto

lemma add_kinds_names:
  "add_kinds ns hs ks = Some ks' \<Longrightarrow> set (map fst ks') = set (map fst ks) \<union> set ns"
  by (induction ns hs ks rule: add_kinds.induct) (auto simp: dom_update)

lemma add_kinds_distinct:
  "add_kinds ns hs ks = Some ks' \<Longrightarrow> distinct (map fst ks) \<Longrightarrow> distinct (map fst ks')"
  by (induction ns hs ks rule: add_kinds.induct) (auto simp: distinct_update)

lemma set_update_snd: "snd ` set (AList.update n k ks) \<subseteq> insert k (snd ` set ks)"
  by (induction ks) auto

lemma add_kinds_handles:
  "add_kinds ns hs ks = Some ks' \<Longrightarrow>
   khandle ` snd ` set ks' \<subseteq> khandle ` snd ` set ks \<union> Some ` set hs"
proof (induction ns hs ks rule: add_kinds.induct)
  case (2 n ns h hs ks)
  let ?k = "KindImpl_ctor n (Some h)"
  have "khandle ` snd ` set (AList.update n ?k ks) \<subseteq> khandle ` insert ?k (snd ` set ks)"
    by (rule image_mono) (rule set_update_snd)
  with 2 show ?case by (simp, blast)
qed auto

lemma distinct_update_handles:
  "distinct (map (\<lambda>x. khandle (snd x)) ks) \<Longrightarrow> khandle k \<notin> khandle ` snd ` set ks \<Longrightarrow>
   distinct (map (\<lambda>x. khandle (snd x)) (AList.update n k ks))"
proof (induction ks)
  case (Cons x ks)
  have "khandle (snd x) \<notin> khandle ` snd ` set (AList.update n k ks)"
    using Cons.prems set_update_snd [of n k ks] by (fastforce simp: image_iff)
  with Cons show ?case by (cases x) (auto simp: image_iff)
qed simp

lemma add_kinds_distinct_handles:
  "add_kinds ns hs ks = Some ks' \<Longrightarrow> distinct hs \<Longrightarrow> distinct (map (\<lambda>x. khandle (snd x)) ks) \<Longrightarrow>
   khandle ` snd ` set ks \<inter> Some ` set hs = {} \<Longrightarrow> distinct (map (\<lambda>x. khandle (snd x)) ks')"
proof (induction ns hs ks rule: add_kinds.induct)
  case (2 n ns h hs ks)
  let ?ks = "AList.update n (KindImpl_ctor n (Some h)) ks"
  have "khandle ` snd ` set ?ks \<inter> Some ` set hs = {}"
    using "2.prems" set_update_snd [of n "KindImpl_ctor n (Some h)" ks] by fastforce
  moreover have "distinct (map (\<lambda>x. khandle (snd x)) ?ks)"
    using "2.prems" by (intro distinct_update_handles) auto
  ultimately show ?case using 2 by simp
qed auto

section \<open>Creating kinds\<close>

text \<open>The kind \<open>n\<close> was added to the store on the new, empty column family \<open>h\<close> of that name.\<close>

definition kind_created :: "('d \<Rightarrow> dbobs) \<Rightarrow> string \<Rightarrow> handle \<Rightarrow> 'd StoreImpl \<Rightarrow> 'd StoreImpl \<Rightarrow> bool" where
  "kind_created obs n h s s' \<longleftrightarrow> h \<notin> cfs (obs (rdb s)) \<and>
     kinds s' = kinds s @ [(n, KindImpl_ctor n (Some h))] \<and>
     cfs (obs (rdb s')) = insert h (cfs (obs (rdb s))) \<and>
     cells (obs (rdb s')) = (cells (obs (rdb s)))(h := (\<lambda>_. Absent)) \<and>
     names (obs (rdb s')) = (names (obs (rdb s)))(h \<mapsto> n) \<and>
     location (obs (rdb s')) = location (obs (rdb s)) \<and>
     (\<forall>h' \<in> cfs (obs (rdb s)). names (obs (rdb s)) h' \<noteq> Some n)"

lemma kind_created_live:
  "map_of (kinds s) n = None \<Longrightarrow> kind_created obs n h s s' \<Longrightarrow> live_kind s' (InKinds n) h"
  by (simp add: kind_created_def live_kind_def deref_kind_def map_add_def)

context rocksdb_spec
begin

text \<open>
  \<open>getOrCreateKind\<close> returns the kind of that name if there is one and otherwise makes a new, empty
  column family; a failure leaves the store as it was.
\<close>

lemma getOrCreateKind_spec:
  assumes wf: "store_wf s" and o1: "open_flag s"
  shows "\<exists>c k s'. StoreImpl_getOrCreateKind eng status n s = Some (k, assign c status, s') \<and>
    store_wf s' \<and> open_flag s' \<and> same_heap s s' \<and> path s' = path s \<and>
    (if map_of (kinds s) (c_str n) \<noteq> None then c = 0 \<and> k = InKinds (c_str n) \<and> s' = s
     else if c = 0 then k = InKinds (c_str n) \<and> (\<exists>h. kind_created obs (c_str n) h s s')
     else k = EmptyKindRef \<and> kinds s' = kinds s \<and> obs (rdb s') = obs (rdb s))"
proof (cases "map_of (kinds s) (c_str n)")
  case (Some ki)
  have "unlock (s\<lparr>monitor := True\<rparr>) = s" using wf by (simp add: unlock_def store_wf_def)
  then have "StoreImpl_getOrCreateKind eng status n s = Some (InKinds (c_str n), assign 0 status, s)"
    using Some o1 locked_facts [OF wf]
    by (simp add: StoreImpl_getOrCreateKind_def validateOpen_open)
  then show ?thesis using Some wf o1 by auto
next
  case None
  obtain db where db: "txnDb s = Some db" using wf o1 by (auto simp: store_wf_def)
  obtain st h d where c: "CreateColumnFamily eng db (columnFamilyOptions s) (c_str n) (rdb s) = (st, h, d)"
    using prod_cases3 by blast
  have asg: "assign x (assign 0 status) = assign x status" for x by (cases status) auto
  have ok0: "Status_ok st \<Longrightarrow> Status_code st = 0" by simp
  let ?k = "if Status_ok st then InKinds (c_str n) else EmptyKindRef"
  let ?s' = "if Status_ok st then s\<lparr>rdb := d, kinds := kinds s @ [(c_str n, KindImpl_ctor (c_str n) (Some h))]\<rparr>
    else s\<lparr>rdb := d\<rparr>"
  have eq: "StoreImpl_getOrCreateKind eng status n s = Some (?k, assign (Status_code st) status, ?s')"
    using None o1 locked_facts [OF wf] db c asg wf update_new [OF None]
    by (auto simp: StoreImpl_getOrCreateKind_def StoreImpl_createKind_def validateOpen_open unlock_def
        store_wf_def Let_def ok0)
  have "store_wf ?s'" "open_flag ?s'" "same_heap s ?s'"
    using wf o1 None by (auto simp: store_wf_def heap_fresh_def same_heap_def map_of_eq_None_iff)
  then show ?thesis
    unfolding eq using None create_ok [OF c] create_fail [OF c]
    by (intro exI [where x = "Status_code st"] exI [where x = ?k] exI [where x = ?s'])
       (auto simp: kind_created_def)
qed

lemma getOrCreateKind_kinds_ok:
  assumes "store_wf s" "open_flag s" "kinds_ok obs s"
    and "StoreImpl_getOrCreateKind eng status n s = Some (k, st, s')"
  shows "kinds_ok obs s'"
proof -
  from getOrCreateKind_spec [OF assms(1,2), of status n] assms(4)
  have "s' = s \<or> (kinds s' = kinds s \<and> obs (rdb s') = obs (rdb s)) \<or> (\<exists>h. kind_created obs (c_str n) h s s')"
    by (auto split: if_splits)
  then show ?thesis using assms(3)
  proof (elim disjE exE conjE)
    fix h
    assume "kind_created obs (c_str n) h s s'"
    then have h: "h \<notin> cfs (obs (rdb s))" "kinds s' = kinds s @ [(c_str n, KindImpl_ctor (c_str n) (Some h))]"
      "cfs (obs (rdb s')) = insert h (cfs (obs (rdb s)))" by (simp_all add: kind_created_def)
    have "Some h \<notin> khandle ` snd ` set (kinds s)" using assms(3) h(1) by (force simp: kinds_ok_def)
    then show "kinds_ok obs s'" using assms(3) h by (auto simp: kinds_ok_def image_iff)
  qed (auto simp: kinds_ok_def)
qed

end

section \<open>Opening\<close>

lemma configure_frame:
  assumes "StoreImpl_configure eng s = s'"
  shows "heap s' = heap s" "next_addr s' = next_addr s" "open_flag s' = open_flag s"
    "monitor s' = monitor s" "txnDb s' = txnDb s" "reusable_tx s' = reusable_tx s" "kinds s' = kinds s"
    "readOptions s' = readOptions s" "totalSinceLastSync s' = totalSinceLastSync s" "code s' = code s"
    "path s' = path s" "version s' = version s" "clock s' = clock s" "reads s' = reads s"
  unfolding assms [symmetric]
  by (auto simp: StoreImpl_configure_def Let_def split: option.splits prod.splits)

text \<open>
  Opening when every library call succeeds: the result is an open store in the invariant, with one
  kind per column family that the database lists, or the default one when it lists none.
\<close>

context rocksdb_spec
begin

lemma openDatabase_ok:
  assumes l: "ListColumnFamilies eng (options s) (path s) (rdb s) = (st0, families, d0)"
    and st0: "Status_ok st0 \<or> Status_IsPathNotFound st0"
    and t: "TransactionDB_Open eng (options s) (txnDbOptions s) (path s)
      (map (\<lambda>n. (n, columnFamilyOptions s)) (if families = [] then [DefaultCF] else families)) d0 =
      (st, hs, p, d1)"
    and st: "Status_ok st" and k0: "kinds s = []"
  shows "\<exists>s' ks. StoreImpl_openDatabase eng s = Some (st, s') \<and> s' = s\<lparr>rdb := rdb s', txnDb := p, kinds := ks\<rparr> \<and>
    p \<noteq> None \<and> distinct (map fst ks) \<and> set (map fst ks) = set (if families = [] then [DefaultCF] else families) \<and>
    (\<forall>k \<in> snd ` set ks. KindImpl_isValid k) \<and> kinds_ok obs s' \<and> obs (rdb s') = obs d1 \<and>
    add_kinds (if families = [] then [DefaultCF] else families) hs [] = Some ks"
proof -
  let ?ns = "if families = [] then [DefaultCF] else families"
  have o1: "p \<noteq> None" "length hs = length ?ns" "distinct hs" "set hs = cfs (obs d1)"
    using open_ok [OF t st] by auto
  obtain db where db: "p = Some db" using o1 by blast
  obtain ks where ks: "add_kinds ?ns hs [] = Some ks" using add_kinds_total [OF o1(2)] by blast
  let ?d = "snd (EnableFileDeletions eng db d1)" and ?s' = "s\<lparr>rdb := snd (EnableFileDeletions eng db d1),
    txnDb := p, kinds := ks\<rparr>"
  have fst: "map fst (map (\<lambda>n. (n, columnFamilyOptions s)) ?ns) = ?ns" by (simp add: comp_def)
  have eq: "StoreImpl_openDatabase eng s = Some (st, ?s')"
    using l st0 t st ks db k0 fst
    by (simp add: StoreImpl_openDatabase_def Let_def cong: if_cong del: map_map)
  have obs: "obs ?d = obs d1" by (rule enable_obs [of db d1 _ ?d]) (rule prod.collapse [symmetric])
  have hh: "khandle ` snd ` set ks \<subseteq> Some ` set hs" using add_kinds_handles [OF ks] by simp
  have "\<forall>k \<in> snd ` set ks. KindImpl_isValid k" using hh by (force simp: KindImpl_isValid_def)
  moreover have "kinds_ok obs ?s'"
    using add_kinds_distinct_handles [OF ks o1(3)] hh o1(4) obs by (force simp: kinds_ok_def)
  moreover have "distinct (map fst ks)" using add_kinds_distinct [OF ks] by simp
  moreover have "set (map fst ks) = set ?ns" using add_kinds_names [OF ks] by simp
  ultimately show ?thesis using eq o1(1) obs ks
    by (intro exI [where x = ?s'] exI [where x = ks]) simp
qed

end

text \<open>The state in which \<open>open_\<close> calls the library, and the names it asks for.\<close>

definition open_state :: "'d rocksdb \<Rightarrow> string \<Rightarrow> 'd world \<Rightarrow> 'd StoreImpl" where
  "open_state eng pth w = StoreImpl_configure eng (StoreImpl_init eng pth w)"

lemma open_state_simps [simp]:
  "heap (open_state eng pth w) = heap w" "next_addr (open_state eng pth w) = next_addr w"
  "open_flag (open_state eng pth w) = False" "monitor (open_state eng pth w) = False"
  "txnDb (open_state eng pth w) = None" "reusable_tx (open_state eng pth w) = None"
  "kinds (open_state eng pth w) = []" "readOptions (open_state eng pth w) = ReadOptions_default"
  "totalSinceLastSync (open_state eng pth w) = 0" "code (open_state eng pth w) = SC_Ok"
  "path (open_state eng pth w) = c_str pth"
  using configure_frame [of eng "StoreImpl_init eng pth w", OF refl]
  by (simp_all add: open_state_def StoreImpl_init_def)

definition families_of :: "string list \<Rightarrow> string list" where
  "families_of families = (if families = [] then [DefaultCF] else families)"

context rocksdb_spec
begin

lemma ctor_open:
  assumes fresh: "heap_fresh w"
    and l: "ListColumnFamilies eng (options (open_state eng pth w)) (c_str pth) (rdb (open_state eng pth w)) =
      (st0, families, d0)" "Status_ok st0 \<or> Status_IsPathNotFound st0"
    and t: "TransactionDB_Open eng (options (open_state eng pth w)) (txnDbOptions (open_state eng pth w))
      (c_str pth) (map (\<lambda>n. (n, columnFamilyOptions (open_state eng pth w))) (families_of families)) d0 =
      (st, hs, p, d1)" "Status_ok st"
    and build: "GetRocksBuildProperties eng ''rocksdb_build_git_sha'' \<noteq> None"
      "GetRocksBuildProperties eng ''rocksdb_build_date'' \<noteq> None"
  shows "\<exists>s. StoreImpl_ctor eng pth w = Some s \<and> store_wf s \<and> open_flag s \<and> kinds_ok obs s \<and>
    code s = SC_Ok \<and> heap s = heap w \<and> set (map fst (kinds s)) = set (families_of families) \<and>
    path s = c_str pth \<and> obs (rdb s) = obs d1 \<and> add_kinds (families_of families) hs [] = Some (kinds s)"
proof -
  let ?s0 = "open_state eng pth w"
  obtain s1 ks where s1: "StoreImpl_openDatabase eng ?s0 = Some (st, s1)"
    "s1 = ?s0\<lparr>rdb := rdb s1, txnDb := p, kinds := ks\<rparr>" "p \<noteq> None" "distinct (map fst ks)"
    "set (map fst ks) = set (families_of families)" "\<forall>k \<in> snd ` set ks. KindImpl_isValid k" "kinds_ok obs s1"
    "obs (rdb s1) = obs d1" "add_kinds (families_of families) hs [] = Some ks"
    using openDatabase_ok [of ?s0 st0 families d0 st hs p d1] l t by (auto simp: families_of_def)
  have ks: "kinds s1 = ks" "txnDb s1 = p" by (subst s1(2), simp)+
  obtain db where db: "txnDb s1 = Some db" using s1(3) ks by blast
  obtain t s2 where s2: "StoreImpl_reusableTx eng s1 = Some (t, s2)" "obs (rdb s2) = obs (rdb s1)"
    "store_frame s1 s2" "same_heap s1 s2" "totalSinceLastSync s2 = totalSinceLastSync s1"
    using reusableTx_spec [OF db] by blast
  have f1: "monitor s1 = False" "heap s1 = heap w" "next_addr s1 = next_addr w" "code s1 = SC_Ok"
    "readOptions s1 = ReadOptions_default" "totalSinceLastSync s1 = 0" "path s1 = c_str pth"
    by (subst s1(2), simp)+
  obtain sha date where b: "GetRocksBuildProperties eng ''rocksdb_build_git_sha'' = Some sha"
    "GetRocksBuildProperties eng ''rocksdb_build_date'' = Some date" using build by blast
  obtain s where s: "StoreImpl_ctor eng pth w = Some s"
    "s = s2\<lparr>reusable_tx := t, version := version s, open_flag := True, lastSync := lastSync s, reads := reads s\<rparr>"
    using s1(1) s2(1) b t(2)
    by (auto simp: StoreImpl_ctor_def StoreImpl_open'_def steady_now_def simp flip: open_state_def)
  have "store_wf s"
    by (subst s(2)) (use f1 s1 s2 ks fresh in \<open>auto simp: store_wf_def store_frame_def same_heap_def heap_fresh_def\<close>)
  moreover have "kinds_ok obs s" "code s = SC_Ok" "heap s = heap w" "kinds s = ks" "open_flag s"
    "path s = c_str pth" "obs (rdb s) = obs d1"
    by (subst s(2), use f1 s1(7,8) s2 ks in \<open>simp add: kinds_ok_def store_frame_def same_heap_def\<close>)+
  ultimately show ?thesis using s(1) s1(5,9) by blast
qed

lemma ctor_not_listed:
  assumes fresh: "heap_fresh w"
    and l: "ListColumnFamilies eng (options (open_state eng pth w)) (c_str pth) (rdb (open_state eng pth w)) =
      (st0, families, d0)" "\<not> Status_ok st0" "\<not> Status_IsPathNotFound st0"
  shows "\<exists>s. StoreImpl_ctor eng pth w = Some s \<and> store_wf s \<and> \<not> open_flag s \<and>
    code s = Status_code st0 \<and> txnDb s = None \<and> kinds s = [] \<and> heap s = heap w"
  using assms
  by (auto simp: StoreImpl_ctor_def StoreImpl_open'_def StoreImpl_openDatabase_def Let_def
      store_wf_def heap_fresh_def steady_now_def simp flip: open_state_def)

lemma ctor_open_fails:
  assumes l: "ListColumnFamilies eng (options (open_state eng pth w)) (c_str pth) (rdb (open_state eng pth w)) =
      (st0, families, d0)" "Status_ok st0 \<or> Status_IsPathNotFound st0"
    and t: "TransactionDB_Open eng (options (open_state eng pth w)) (txnDbOptions (open_state eng pth w))
      (c_str pth) (map (\<lambda>n. (n, columnFamilyOptions (open_state eng pth w))) (families_of families)) d0 =
      (st, hs, p, d1)" "\<not> Status_ok st"
  shows "StoreImpl_ctor eng pth w = None"
  using assms open_fail [OF t]
  by (simp add: StoreImpl_ctor_def StoreImpl_open'_def StoreImpl_openDatabase_def Let_def families_of_def
      flip: open_state_def cong: if_cong)

end

section \<open>Closing\<close>

lemma close_open:
  assumes "store_wf s" "open_flag s"
  shows "\<exists>db. txnDb s = Some db \<and> StoreImpl_close eng s = Some (s\<lparr>open_flag := False, kinds := [],
    txnDb := None, rdb := DB_destroy eng db (close_handles eng (kinds s) (rdb s))\<rparr>)"
  using assms
  by (auto simp: StoreImpl_close_def synchronize_def store_wf_def StoreImpl_syncWALNoLock_def
      StoreImpl_flushNoLock_def unlock_def Let_def)

lemma close_closed: "store_wf s \<Longrightarrow> \<not> open_flag s \<Longrightarrow> StoreImpl_close eng s = Some s"
  by (simp add: StoreImpl_close_def synchronize_def store_wf_def unlock_def)

lemma close_wf:
  assumes "store_wf s"
  shows "\<exists>s'. StoreImpl_close eng s = Some s' \<and> store_wf s' \<and> \<not> open_flag s' \<and> kinds s' = [] \<and>
    heap s' = heap s"
proof (cases "open_flag s")
  case True
  then show ?thesis using close_open [OF assms True] assms by (fastforce simp: store_wf_def heap_fresh_def)
next
  case False
  then show ?thesis using close_closed [OF assms False] assms by (simp add: store_wf_def)
qed

section \<open>Refusals\<close>

lemma null_key_refused:
  "StoreImpl_put eng status k None v s = Some (assign SC_InvalidArgument status, s)"
  "StoreImpl_putIfAbsent eng status k None v s = Some (assign SC_InvalidArgument status, s)"
  "StoreImpl_remove eng status k None s = Some (assign SC_InvalidArgument status, s)"
  "StoreImpl_singleRemove eng status k None s = Some (assign SC_InvalidArgument status, s)"
  "StoreImpl_get eng status k len None s = Some (None, assign SC_InvalidArgument status, len, s)"
  "StoreImpl_updateIfPresent eng status k len None v s =
     Some (None, assign SC_InvalidArgument status, len, s)"
  "StoreImpl_removeIfPresent eng status k len None s =
     Some (None, assign SC_InvalidArgument status, len, s)"
  "StoreImpl_singleRemoveIfPresent eng status k len None s =
     Some (None, assign SC_InvalidArgument status, len, s)"
  "StoreImpl_removeRange eng status k None e s = Some (assign SC_InvalidArgument status, s)"
  "StoreImpl_removeRange eng status k b None s = Some (assign SC_InvalidArgument status, s)"
  by (simp_all add: StoreImpl_put_def StoreImpl_putIfAbsent_def StoreImpl_remove_def
      StoreImpl_singleRemove_def StoreImpl_get_def StoreImpl_updateIfPresent_def
      StoreImpl_removeIfPresent_def StoreImpl_singleRemoveIfPresent_def StoreImpl_removeRange_def
      bad_args_def)

lemma null_length_refused:
  "StoreImpl_get eng status k None key s = Some (None, assign SC_InvalidArgument status, None, s)"
  "StoreImpl_updateIfPresent eng status k None key v s =
     Some (None, assign SC_InvalidArgument status, None, s)"
  "StoreImpl_removeIfPresent eng status k None key s =
     Some (None, assign SC_InvalidArgument status, None, s)"
  "StoreImpl_singleRemoveIfPresent eng status k None key s =
     Some (None, assign SC_InvalidArgument status, None, s)"
  by (simp_all add: StoreImpl_get_def StoreImpl_updateIfPresent_def StoreImpl_removeIfPresent_def
      StoreImpl_singleRemoveIfPresent_def bad_args_def)

text \<open>A kind that is not valid, such as the empty kind that a failed lookup returns.\<close>

lemma bad_args_invalid:
  "deref_kind s k = Some ko \<Longrightarrow> \<not> Kind_isValid ko \<Longrightarrow> bad_args b k s = Some True"
  by (simp add: bad_args_def)

lemma invalid_kind_refused:
  assumes "deref_kind s k = Some ko" "\<not> Kind_isValid ko"
  shows "StoreImpl_put eng status k key v s = Some (assign SC_InvalidArgument status, s)"
    "StoreImpl_putIfAbsent eng status k key v s = Some (assign SC_InvalidArgument status, s)"
    "StoreImpl_remove eng status k key s = Some (assign SC_InvalidArgument status, s)"
    "StoreImpl_singleRemove eng status k key s = Some (assign SC_InvalidArgument status, s)"
    "StoreImpl_removeRange eng status k b e s = Some (assign SC_InvalidArgument status, s)"
    "StoreImpl_get eng status k len key s = Some (None, assign SC_InvalidArgument status, len, s)"
    "StoreImpl_updateIfPresent eng status k len key v s =
       Some (None, assign SC_InvalidArgument status, len, s)"
    "StoreImpl_removeIfPresent eng status k len key s =
       Some (None, assign SC_InvalidArgument status, len, s)"
    "StoreImpl_singleRemoveIfPresent eng status k len key s =
       Some (None, assign SC_InvalidArgument status, len, s)"
    "StoreImpl_findMinKey eng status k len s = Some (None, assign SC_InvalidArgument status, len, s)"
    "StoreImpl_findMaxKey eng status k len s = Some (None, assign SC_InvalidArgument status, len, s)"
    "StoreImpl_compact eng status k s = Some (assign SC_InvalidArgument status, s)"
  using assms bad_args_invalid [OF assms]
  by (simp_all add: StoreImpl_put_def StoreImpl_putIfAbsent_def StoreImpl_remove_def
      StoreImpl_singleRemove_def StoreImpl_get_def StoreImpl_updateIfPresent_def
      StoreImpl_removeIfPresent_def StoreImpl_singleRemoveIfPresent_def StoreImpl_removeRange_def
      StoreImpl_findMinKey_def StoreImpl_findMaxKey_def StoreImpl_findKey_def StoreImpl_compact_def)

text \<open>
  A closed store answers \<open>Closed\<close> to every call whose kind is still a valid object and records the
  code; the references to its own kinds dangle, and using one is undefined.
\<close>

lemma closed_lock:
  assumes "store_wf s" "\<not> open_flag s"
  shows "synchronize s = Some (s\<lparr>monitor := True\<rparr>)" "\<not> open_flag (s\<lparr>monitor := True\<rparr>)"
    "unlock (s\<lparr>monitor := True, code := c\<rparr>) = s\<lparr>code := c\<rparr>" "unlock (s\<lparr>monitor := True\<rparr>) = s"
  using assms by (auto simp: synchronize_def store_wf_def unlock_def)

lemma assign_twice: "assign x (assign y status) = assign x status"
  by (cases status) auto

lemma closed_refused:
  assumes "store_wf s" "\<not> open_flag s"
  shows "StoreImpl_getOrCreateKind eng status kn s =
      Some (EmptyKindRef, assign SC_Closed status, s\<lparr>code := SC_Closed\<rparr>)"
    "StoreImpl_getDefaultKind status s =
      Some (EmptyKindRef, assign SC_Closed status, s\<lparr>code := SC_Closed\<rparr>)"
    "StoreImpl_getKinds status rl s = Some (None, assign SC_Closed status, rl, s\<lparr>code := SC_Closed\<rparr>)"
    "StoreImpl_getKindManager status s = (assign SC_Closed status, s\<lparr>code := SC_Closed\<rparr>)"
    "StoreImpl_compactAll eng status s = Some (assign SC_Closed status, s\<lparr>code := SC_Closed\<rparr>)"
    "StoreImpl_syncWAL eng s = Some s"
    "StoreImpl_flush eng s = Some s"
    "StoreImpl_flushNoWait eng s = Some s"
  using assms(2) closed_lock [OF assms]
  by (simp_all add: assign_twice [simplified] StoreImpl_getOrCreateKind_def StoreImpl_getDefaultKind_def StoreImpl_getKinds_def
      StoreImpl_getKindManager_def StoreImpl_compactAll_def StoreImpl_syncWAL_def StoreImpl_flush_def
      StoreImpl_flushNoWait_def StoreImpl_syncWALNoLock_def StoreImpl_flushNoLock_def
      validateOpen_closed)

lemma closed_kind_refused:
  assumes "store_wf s" "\<not> open_flag s" and ko: "deref_kind s k = Some ko" "Kind_isValid ko"
  shows "StoreImpl_put eng status k (Some key) v s =
      Some (assign SC_Closed status, s\<lparr>code := SC_Closed\<rparr>)"
    "StoreImpl_putIfAbsent eng status k (Some key) v s =
      Some (assign SC_Closed status, s\<lparr>code := SC_Closed\<rparr>)"
    "StoreImpl_remove eng status k (Some key) s =
      Some (assign SC_Closed status, s\<lparr>code := SC_Closed\<rparr>)"
    "StoreImpl_singleRemove eng status k (Some key) s =
      Some (assign SC_Closed status, s\<lparr>code := SC_Closed\<rparr>)"
    "StoreImpl_removeRange eng status k (Some b) (Some e) s =
      Some (assign SC_Closed status, s\<lparr>code := SC_Closed\<rparr>)"
    "StoreImpl_get eng status k (Some len) (Some key) s =
      Some (None, assign SC_Closed status, Some 0, s\<lparr>code := SC_Closed\<rparr>)"
    "StoreImpl_updateIfPresent eng status k (Some len) (Some key) v s =
      Some (None, assign SC_Closed status, Some 0, s\<lparr>code := SC_Closed\<rparr>)"
    "StoreImpl_removeIfPresent eng status k (Some len) (Some key) s =
      Some (None, assign SC_Closed status, Some 0, s\<lparr>code := SC_Closed\<rparr>)"
    "StoreImpl_singleRemoveIfPresent eng status k (Some len) (Some key) s =
      Some (None, assign SC_Closed status, Some 0, s\<lparr>code := SC_Closed\<rparr>)"
    "StoreImpl_findMinKey eng status k (Some len) s =
      (case ko of
         Impl ki \<Rightarrow> Some (None, assign SC_Closed status, Some 0, s\<lparr>code := SC_Closed\<rparr>)
       | Foreign _ _ \<Rightarrow> Some (None, assign SC_InvalidArgument status, Some len, s))"
    "StoreImpl_findMaxKey eng status k (Some len) s =
      (case ko of
         Impl ki \<Rightarrow> Some (None, assign SC_Closed status, Some 0, s\<lparr>code := SC_Closed\<rparr>)
       | Foreign _ _ \<Rightarrow> Some (None, assign SC_InvalidArgument status, Some len, s))"
    "StoreImpl_compact eng status k s =
      (case ko of
         Impl ki \<Rightarrow> Some (assign SC_Closed status, s\<lparr>code := SC_Closed\<rparr>)
       | Foreign _ _ \<Rightarrow> Some (assign SC_InvalidArgument status, s))"
proof -
  have bad: "bad_args False k s = Some False" using ko by (simp add: bad_args_def)
  note lock = closed_lock [OF assms(1,2)] and closed = validateOpen_closed assign_twice [simplified]
  show "StoreImpl_put eng status k (Some key) v s =
      Some (assign SC_Closed status, s\<lparr>code := SC_Closed\<rparr>)"
    "StoreImpl_putIfAbsent eng status k (Some key) v s =
      Some (assign SC_Closed status, s\<lparr>code := SC_Closed\<rparr>)"
    "StoreImpl_remove eng status k (Some key) s =
      Some (assign SC_Closed status, s\<lparr>code := SC_Closed\<rparr>)"
    "StoreImpl_singleRemove eng status k (Some key) s =
      Some (assign SC_Closed status, s\<lparr>code := SC_Closed\<rparr>)"
    "StoreImpl_removeRange eng status k (Some b) (Some e) s =
      Some (assign SC_Closed status, s\<lparr>code := SC_Closed\<rparr>)"
    "StoreImpl_get eng status k (Some len) (Some key) s =
      Some (None, assign SC_Closed status, Some 0, s\<lparr>code := SC_Closed\<rparr>)"
    "StoreImpl_updateIfPresent eng status k (Some len) (Some key) v s =
      Some (None, assign SC_Closed status, Some 0, s\<lparr>code := SC_Closed\<rparr>)"
    "StoreImpl_removeIfPresent eng status k (Some len) (Some key) s =
      Some (None, assign SC_Closed status, Some 0, s\<lparr>code := SC_Closed\<rparr>)"
    "StoreImpl_singleRemoveIfPresent eng status k (Some len) (Some key) s =
      Some (None, assign SC_Closed status, Some 0, s\<lparr>code := SC_Closed\<rparr>)"
    using assms(2) bad lock
    by (simp_all add: closed StoreImpl_put_def StoreImpl_putIfAbsent_def StoreImpl_remove_def StoreImpl_singleRemove_def
        StoreImpl_removeRange_def StoreImpl_get_def StoreImpl_updateIfPresent_def StoreImpl_removeIfPresent_def
        StoreImpl_singleRemoveIfPresent_def)
  show "StoreImpl_findMinKey eng status k (Some len) s =
      (case ko of
         Impl ki \<Rightarrow> Some (None, assign SC_Closed status, Some 0, s\<lparr>code := SC_Closed\<rparr>)
       | Foreign _ _ \<Rightarrow> Some (None, assign SC_InvalidArgument status, Some len, s))"
    "StoreImpl_findMaxKey eng status k (Some len) s =
      (case ko of
         Impl ki \<Rightarrow> Some (None, assign SC_Closed status, Some 0, s\<lparr>code := SC_Closed\<rparr>)
       | Foreign _ _ \<Rightarrow> Some (None, assign SC_InvalidArgument status, Some len, s))"
    "StoreImpl_compact eng status k s =
      (case ko of
         Impl ki \<Rightarrow> Some (assign SC_Closed status, s\<lparr>code := SC_Closed\<rparr>)
       | Foreign _ _ \<Rightarrow> Some (assign SC_InvalidArgument status, s))"
    using assms(2) ko lock
    by (simp_all add: closed StoreImpl_findMinKey_def StoreImpl_findMaxKey_def StoreImpl_findKey_def StoreImpl_compact_def
        toKindImpl_def split: kindobj.splits)
qed

lemma dangling_kind:
  assumes "store_wf s" "\<not> open_flag s"
  shows "StoreImpl_put eng status (InKinds n) (Some key) v s = None"
    "StoreImpl_putIfAbsent eng status (InKinds n) (Some key) v s = None"
    "StoreImpl_remove eng status (InKinds n) (Some key) s = None"
    "StoreImpl_singleRemove eng status (InKinds n) (Some key) s = None"
    "StoreImpl_removeRange eng status (InKinds n) (Some b) (Some e) s = None"
    "StoreImpl_get eng status (InKinds n) (Some len) (Some key) s = None"
    "StoreImpl_updateIfPresent eng status (InKinds n) (Some len) (Some key) v s = None"
    "StoreImpl_removeIfPresent eng status (InKinds n) (Some len) (Some key) s = None"
    "StoreImpl_singleRemoveIfPresent eng status (InKinds n) (Some len) (Some key) s = None"
    "StoreImpl_findMinKey eng status (InKinds n) (Some len) s = None"
    "StoreImpl_findMaxKey eng status (InKinds n) (Some len) s = None"
    "StoreImpl_compact eng status (InKinds n) s = None"
proof -
  have "deref_kind s (InKinds n) = None" "bad_args False (InKinds n) s = None"
    using assms by (simp_all add: store_wf_def deref_kind_def bad_args_def)
  then show "StoreImpl_put eng status (InKinds n) (Some key) v s = None"
    "StoreImpl_putIfAbsent eng status (InKinds n) (Some key) v s = None"
    "StoreImpl_remove eng status (InKinds n) (Some key) s = None"
    "StoreImpl_singleRemove eng status (InKinds n) (Some key) s = None"
    "StoreImpl_removeRange eng status (InKinds n) (Some b) (Some e) s = None"
    "StoreImpl_get eng status (InKinds n) (Some len) (Some key) s = None"
    "StoreImpl_updateIfPresent eng status (InKinds n) (Some len) (Some key) v s = None"
    "StoreImpl_removeIfPresent eng status (InKinds n) (Some len) (Some key) s = None"
    "StoreImpl_singleRemoveIfPresent eng status (InKinds n) (Some len) (Some key) s = None"
    "StoreImpl_findMinKey eng status (InKinds n) (Some len) s = None"
    "StoreImpl_findMaxKey eng status (InKinds n) (Some len) s = None"
    "StoreImpl_compact eng status (InKinds n) s = None"
    by (simp_all add: StoreImpl_put_def StoreImpl_putIfAbsent_def StoreImpl_remove_def StoreImpl_singleRemove_def
        StoreImpl_removeRange_def StoreImpl_get_def StoreImpl_updateIfPresent_def StoreImpl_removeIfPresent_def
        StoreImpl_singleRemoveIfPresent_def StoreImpl_findMinKey_def StoreImpl_findMaxKey_def StoreImpl_findKey_def
        StoreImpl_compact_def)
qed

section \<open>Ranges, WAL synchronisation, compaction\<close>

lemma wal_sync_policy:
  assumes "open_flag s" "txnDb s = Some db"
  shows "StoreImpl_occasionalWalSync eng s = Some (
    if 985 \<le> to_millis (clock s (reads s) - lastSync s) \<or> 16384 dvd unat (totalSinceLastSync s + 1)
    then s\<lparr>totalSinceLastSync := 0, reads := reads s + 2, lastSync := clock s (reads s + 1),
           rdb := snd (FlushWAL eng db True (rdb s))\<rparr>
    else s\<lparr>totalSinceLastSync := totalSinceLastSync s + 1, reads := reads s + 1\<rparr>)"
proof -
  let ?n = "totalSinceLastSync s + 1"
  have "FLUSH_BATCH_SIZE = mask 14" by (simp add: FLUSH_BATCH_SIZE_def mask_eq_exp_minus_1)
  then have "and ?n FLUSH_BATCH_SIZE = take_bit 14 ?n" by (simp add: take_bit_eq_mask)
  moreover have "unat (take_bit 14 ?n) = take_bit 14 (unat ?n)" by (rule unsigned_take_bit_eq)
  ultimately have "and ?n FLUSH_BATCH_SIZE = 0 \<longleftrightarrow> 16384 dvd unat ?n"
    by (simp add: take_bit_eq_mod dvd_eq_mod_eq_0 flip: unat_eq_0)
  then show ?thesis using assms
    by (simp add: StoreImpl_occasionalWalSync_def StoreImpl_syncAndReset_def since_def steady_now_def
        StoreImpl_syncWALNoLock_def FLUSH_TIME_WINDOW_MILLIS_def Let_def)
qed

lemma flush_default_family:
  assumes "store_wf s" "open_flag s" "txnDb s = Some db"
  shows "StoreImpl_flush eng s = Some (s\<lparr>rdb :=
      snd (DB_Flush_cf eng db (flushOptions s) (DefaultColumnFamily eng db (rdb s)) (rdb s))\<rparr>)"
    "StoreImpl_flushNoWait eng s = Some (s\<lparr>rdb :=
      snd (DB_Flush_cf eng db (flushOptionsNoWait s) (DefaultColumnFamily eng db (rdb s)) (rdb s))\<rparr>)"
    "StoreImpl_syncWAL eng s = Some (s\<lparr>rdb := snd (FlushWAL eng db True (rdb s))\<rparr>)"
  using assms
  by (simp_all add: StoreImpl_flush_def StoreImpl_flushNoWait_def StoreImpl_syncWAL_def synchronize_def
      store_wf_def StoreImpl_flushNoLock_def StoreImpl_syncWALNoLock_def DB_Flush_def unlock_def)

context rocksdb_spec
begin

lemma removeRange_spec:
  assumes wf: "store_wf s" and o1: "open_flag s" and k: "live_kind s k h"
  shows "\<exists>c s'. StoreImpl_removeRange eng status k (Some a) (Some b) s = Some (assign c status, s') \<and>
    outcome obs (WDeleteRange h a b) c s s'"
proof -
  obtain ki where ki: "deref_kind s k = Some (Impl ki)" "khandle ki = Some h"
    using k by (auto simp: live_kind_def)
  then have ki': "deref_kind (s\<lparr>monitor := True\<rparr>) k = Some (Impl ki)"
    by (simp add: deref_kind_def split: kindref.splits)
  obtain db where db: "txnDb s = Some db" using wf o1 by (auto simp: store_wf_def)
  obtain st wb where w: "WriteBatch_DeleteRange eng h a b [] = (st, wb)" by fastforce
  let ?opt = "TransactionDBWriteOptimizations_default\<lparr>skip_concurrency_control := True\<rparr>"
  obtain st2 d where t: "TransactionDB_Write eng db (writeOptions s) ?opt wb (rdb s) = (st2, d)" by fastforce
  have asg: "assign x (assign SC_Ok status) = assign x status" for x by (cases status) auto
  let ?c = "if Status_ok st then Status_code st2 else Status_code st"
  let ?s' = "if Status_ok st then s\<lparr>rdb := d\<rparr> else s"
  have ok0: "Status_ok x \<Longrightarrow> Status_code x = 0" for x by simp
  have eq: "StoreImpl_removeRange eng status k (Some a) (Some b) s = Some (assign ?c status, ?s')"
    using wf o1 ki' ki db w t locked_facts [OF wf] bad_args_live [OF k] asg [simplified]
    by (auto simp: StoreImpl_removeRange_def validateOpen_open toKindImpl_def KindImpl_handle_def
        unlock_def store_wf_def ok0)
  have "if ?c = 0 then op_effect (WDeleteRange h a b) (obs (rdb s)) (obs (rdb ?s'))
      else obs (rdb ?s') = obs (rdb s)"
    using wb_range [OF w] write_ok [OF t] write_fail [OF t] by auto
  moreover have "store_wf ?s'" "store_frame s ?s'" "same_heap s ?s'" "tx_code ?c"
    using wf by (auto simp: store_wf_def store_frame_def same_heap_def heap_fresh_def)
  ultimately show ?thesis unfolding eq outcome_def by blast
qed

lemma compact_loop_spec:
  assumes "txnDb s = Some db" "\<forall>k \<in> snd ` set ks. KindImpl_isValid k"
  shows "\<exists>c d. compact_loop eng (assign 0 status) ks s = Some (assign c status, s\<lparr>rdb := d\<rparr>) \<and>
    obs d = obs (rdb s) \<and> 0 \<le> c \<and> c \<le> 16"
  using assms
proof (induction ks arbitrary: s)
  case Nil
  then show ?case by (intro exI [where x = "0::int"] exI [where x = "rdb s"]) simp
next
  case (Cons x ks)
  obtain n k h where x: "x = (n, k)" "khandle k = Some h"
    using Cons.prems(2) by (cases x) (auto simp: KindImpl_isValid_def)
  obtain st d where c: "CompactRange eng db CompactRangeOptions_default h (rdb s) = (st, d)" by fastforce
  have asg: "assign y (assign 0 status) = assign y status" for y by (cases status) auto
  have d: "obs d = obs (rdb s)" using compact_obs [OF c] .
  show ?case
  proof (cases "Status_ok st")
    case True
    from Cons.IH [of "s\<lparr>rdb := d\<rparr>"] Cons.prems True x c d show ?thesis
      by (simp add: StoreImpl_compactKind_def KindImpl_handle_def)
  next
    case False
    with x c d Cons.prems(1) asg Status_code_range [of st] show ?thesis
      by (intro exI [where x = "Status_code st"] exI [where x = d])
         (simp add: StoreImpl_compactKind_def KindImpl_handle_def)
  qed
qed

lemma compactAll_spec:
  assumes wf: "store_wf s" and o1: "open_flag s"
  shows "\<exists>c s'. StoreImpl_compactAll eng status s = Some (assign c status, s') \<and> store_wf s' \<and>
    store_frame s s' \<and> same_heap s s' \<and> obs (rdb s') = obs (rdb s) \<and> 0 \<le> c \<and> c \<le> 16"
proof -
  let ?s = "s\<lparr>monitor := True\<rparr>"
  obtain db where db: "txnDb ?s = Some db" "\<forall>k \<in> snd ` set (kinds s). KindImpl_isValid k"
    using wf o1 by (auto simp: store_wf_def)
  from compact_loop_spec [OF this, of status] obtain c d where
    l: "compact_loop eng (assign 0 status) (kinds s) ?s = Some (assign c status, ?s\<lparr>rdb := d\<rparr>)"
    and d: "obs d = obs (rdb s)" "0 \<le> c" "c \<le> 16" by auto
  have "StoreImpl_compactAll eng status s = Some (assign c status, s\<lparr>rdb := d\<rparr>)"
    using l o1 wf locked_facts [OF wf]
    by (simp add: StoreImpl_compactAll_def validateOpen_open unlock_def store_wf_def)
  moreover have "store_wf (s\<lparr>rdb := d\<rparr>)" "store_frame s (s\<lparr>rdb := d\<rparr>)" "same_heap s (s\<lparr>rdb := d\<rparr>)"
    using wf by (auto simp: store_wf_def store_frame_def same_heap_def heap_fresh_def)
  ultimately show ?thesis using d by (intro exI [where x = c] exI [where x = "s\<lparr>rdb := d\<rparr>"]) simp
qed

end

section \<open>A store opened on the in-memory engine\<close>

definition ex_world :: "Status list \<Rightarrow> memdb world" where
  "ex_world faults = \<lparr>rdb = mem_empty\<lparr>m_faults := faults\<rparr>, heap = (\<lambda>_. None), next_addr = 0,
     clock = (\<lambda>_. 0), reads = 0, cpus = 4\<rparr>"

lemma ex_world_fresh: "heap_fresh (ex_world faults)"
  by (simp add: ex_world_def heap_fresh_def)

lemma ex_world_rdb: "rdb (open_state mem_engine pth (ex_world faults)) = mem_empty\<lparr>m_faults := faults\<rparr>"
  by (simp add: open_state_def StoreImpl_configure_def StoreImpl_init_def mem_engine_def ex_world_def
      Let_def mem_consts_def split: option.splits)

lemma ex_store_kinds_ok: "kinds_ok mem_obs ex_store"
  by (simp add: kinds_ok_def ex_store_def mem_obs_def)

section \<open>Properties\<close>

text \<open>
  C26: when \<^verbatim>\<open>TransactionDB::Open\<close> fails and leaves the pointer null, the constructor of \<^verbatim>\<open>StoreImpl\<close>
  calls \<^verbatim>\<open>EnableFileDeletions\<close> through the null pointer: the outcome is undefined, and the code of the
  failure is never reported.
\<close>

theorem store_open_failure_undefined:
  assumes "ListColumnFamilies eng (options (open_state eng pth w)) (c_str pth) (rdb (open_state eng pth w)) =
      (st0, families, d0)" "Status_ok st0 \<or> Status_IsPathNotFound st0"
    "TransactionDB_Open eng (options (open_state eng pth w)) (txnDbOptions (open_state eng pth w))
      (c_str pth) (map (\<lambda>n. (n, columnFamilyOptions (open_state eng pth w))) (families_of families)) d0 =
      (st, hs, None, d1)" "\<not> Status_ok st"
  shows "StoreImpl_ctor eng pth w = None"
  using assms
  by (simp add: StoreImpl_ctor_def StoreImpl_open'_def StoreImpl_openDatabase_def Let_def families_of_def
      flip: open_state_def cong: if_cong)

theorem store_open_failure_undefined_witness:
  "StoreImpl_ctor mem_engine ''db'' (ex_world [Status_OK, Status_NoSpace]) = None"
proof -
  have ns: "\<not> Status_ok Status_NoSpace" by code_simp
  let ?w = "ex_world [Status_OK, Status_NoSpace]"
  let ?s = "open_state mem_engine ''db'' ?w"
  have l: "ListColumnFamilies mem_engine (options ?s) (c_str ''db'') (rdb ?s) =
      (Status_OK, [], mem_empty\<lparr>m_faults := [Status_NoSpace]\<rparr>)"
    unfolding ex_world_rdb by (simp add: mem_engine_def mem_list_def mem_fault_def mem_empty_def)
  have t: "TransactionDB_Open mem_engine (options ?s) (txnDbOptions ?s) (c_str ''db'')
      (map (\<lambda>n. (n, columnFamilyOptions ?s)) (families_of [])) (mem_empty\<lparr>m_faults := [Status_NoSpace]\<rparr>) =
      (Status_NoSpace, [], None, mem_empty)"
    by (simp add: ns mem_engine_def mem_open_def mem_fault_def mem_empty_def)
  show ?thesis
    by (rule store_open_failure_undefined [OF l _ t]) (simp_all add: ns)
qed

text \<open>
  C22: every operation that takes a kind refuses a kind that is not valid, such as the empty kind a
  failed lookup returns: it reports \<open>InvalidArgument\<close> and changes nothing.
\<close>

theorem store_refuses_invalid_kind:
  assumes "deref_kind s k = Some ko" "\<not> Kind_isValid ko"
  shows "StoreImpl_put eng status k key v s = Some (assign SC_InvalidArgument status, s) \<and>
    StoreImpl_putIfAbsent eng status k key v s = Some (assign SC_InvalidArgument status, s) \<and>
    StoreImpl_remove eng status k key s = Some (assign SC_InvalidArgument status, s) \<and>
    StoreImpl_singleRemove eng status k key s = Some (assign SC_InvalidArgument status, s) \<and>
    StoreImpl_removeRange eng status k b e s = Some (assign SC_InvalidArgument status, s) \<and>
    StoreImpl_get eng status k len key s = Some (None, assign SC_InvalidArgument status, len, s) \<and>
    StoreImpl_updateIfPresent eng status k len key v s =
       Some (None, assign SC_InvalidArgument status, len, s) \<and>
    StoreImpl_removeIfPresent eng status k len key s =
       Some (None, assign SC_InvalidArgument status, len, s) \<and>
    StoreImpl_singleRemoveIfPresent eng status k len key s =
       Some (None, assign SC_InvalidArgument status, len, s) \<and>
    StoreImpl_findMinKey eng status k len s = Some (None, assign SC_InvalidArgument status, len, s) \<and>
    StoreImpl_findMaxKey eng status k len s = Some (None, assign SC_InvalidArgument status, len, s) \<and>
    StoreImpl_compact eng status k s = Some (assign SC_InvalidArgument status, s)"
  by (intro conjI invalid_kind_refused [OF assms])

theorem store_refuses_invalid_kind_witness:
  "StoreImpl_put mem_engine (Some 0) EmptyKindRef (Some [1]) None ex_store = Some (Some SC_InvalidArgument, ex_store)"
  using store_refuses_invalid_kind [of ex_store EmptyKindRef "Impl KindImpl_default" mem_engine "Some 0" "Some [1]" None]
  by (simp add: deref_kind_def KindImpl_isValid_def KindImpl_default_def)

text \<open>
  C23: what every operation of a closed store does, given arguments that are not null.  Those that take no kind
  report \<open>Closed\<close> and record that code, and \<^verbatim>\<open>syncWAL\<close>, \<^verbatim>\<open>flush\<close> and \<^verbatim>\<open>flushNoWait\<close>, which report nothing, do nothing.  With
  a kind that is a valid object (one of another store, or of another class) the operations report
  \<open>Closed\<close> and record it as well; but \<^verbatim>\<open>findMinKey\<close>, \<^verbatim>\<open>findMaxKey\<close> and \<^verbatim>\<open>compact\<close> look at the class of the kind first and
  report \<open>InvalidArgument\<close> for an object of another class.  The kinds of the store itself dangle once it is closed, and
  every operation on one is undefined.
\<close>

theorem store_closed_refuses:
  assumes "store_wf s" "\<not> open_flag s"
  shows "StoreImpl_getOrCreateKind eng status kn s =
      Some (EmptyKindRef, assign SC_Closed status, s\<lparr>code := SC_Closed\<rparr>) \<and>
    StoreImpl_getDefaultKind status s =
      Some (EmptyKindRef, assign SC_Closed status, s\<lparr>code := SC_Closed\<rparr>) \<and>
    StoreImpl_getKinds status rl s = Some (None, assign SC_Closed status, rl, s\<lparr>code := SC_Closed\<rparr>) \<and>
    StoreImpl_getKindManager status s = (assign SC_Closed status, s\<lparr>code := SC_Closed\<rparr>) \<and>
    StoreImpl_compactAll eng status s = Some (assign SC_Closed status, s\<lparr>code := SC_Closed\<rparr>) \<and>
    StoreImpl_syncWAL eng s = Some s \<and>
    StoreImpl_flush eng s = Some s \<and>
    StoreImpl_flushNoWait eng s = Some s \<and>
    (deref_kind s k = Some ko \<and> Kind_isValid ko \<longrightarrow>
    StoreImpl_put eng status k (Some key) v s =
      Some (assign SC_Closed status, s\<lparr>code := SC_Closed\<rparr>) \<and>
    StoreImpl_putIfAbsent eng status k (Some key) v s =
      Some (assign SC_Closed status, s\<lparr>code := SC_Closed\<rparr>) \<and>
    StoreImpl_remove eng status k (Some key) s =
      Some (assign SC_Closed status, s\<lparr>code := SC_Closed\<rparr>) \<and>
    StoreImpl_singleRemove eng status k (Some key) s =
      Some (assign SC_Closed status, s\<lparr>code := SC_Closed\<rparr>) \<and>
    StoreImpl_removeRange eng status k (Some b) (Some e) s =
      Some (assign SC_Closed status, s\<lparr>code := SC_Closed\<rparr>) \<and>
    StoreImpl_get eng status k (Some len) (Some key) s =
      Some (None, assign SC_Closed status, Some 0, s\<lparr>code := SC_Closed\<rparr>) \<and>
    StoreImpl_updateIfPresent eng status k (Some len) (Some key) v s =
      Some (None, assign SC_Closed status, Some 0, s\<lparr>code := SC_Closed\<rparr>) \<and>
    StoreImpl_removeIfPresent eng status k (Some len) (Some key) s =
      Some (None, assign SC_Closed status, Some 0, s\<lparr>code := SC_Closed\<rparr>) \<and>
    StoreImpl_singleRemoveIfPresent eng status k (Some len) (Some key) s =
      Some (None, assign SC_Closed status, Some 0, s\<lparr>code := SC_Closed\<rparr>) \<and>
    StoreImpl_findMinKey eng status k (Some len) s =
      (case ko of
         Impl ki \<Rightarrow> Some (None, assign SC_Closed status, Some 0, s\<lparr>code := SC_Closed\<rparr>)
       | Foreign _ _ \<Rightarrow> Some (None, assign SC_InvalidArgument status, Some len, s)) \<and>
    StoreImpl_findMaxKey eng status k (Some len) s =
      (case ko of
         Impl ki \<Rightarrow> Some (None, assign SC_Closed status, Some 0, s\<lparr>code := SC_Closed\<rparr>)
       | Foreign _ _ \<Rightarrow> Some (None, assign SC_InvalidArgument status, Some len, s)) \<and>
    StoreImpl_compact eng status k s =
      (case ko of
         Impl ki \<Rightarrow> Some (assign SC_Closed status, s\<lparr>code := SC_Closed\<rparr>)
       | Foreign _ _ \<Rightarrow> Some (assign SC_InvalidArgument status, s))) \<and>
    StoreImpl_put eng status (InKinds n) (Some key) v s = None \<and>
    StoreImpl_putIfAbsent eng status (InKinds n) (Some key) v s = None \<and>
    StoreImpl_remove eng status (InKinds n) (Some key) s = None \<and>
    StoreImpl_singleRemove eng status (InKinds n) (Some key) s = None \<and>
    StoreImpl_removeRange eng status (InKinds n) (Some b) (Some e) s = None \<and>
    StoreImpl_get eng status (InKinds n) (Some len) (Some key) s = None \<and>
    StoreImpl_updateIfPresent eng status (InKinds n) (Some len) (Some key) v s = None \<and>
    StoreImpl_removeIfPresent eng status (InKinds n) (Some len) (Some key) s = None \<and>
    StoreImpl_singleRemoveIfPresent eng status (InKinds n) (Some len) (Some key) s = None \<and>
    StoreImpl_findMinKey eng status (InKinds n) (Some len) s = None \<and>
    StoreImpl_findMaxKey eng status (InKinds n) (Some len) s = None \<and>
    StoreImpl_compact eng status (InKinds n) s = None"
  by (intro conjI impI closed_refused [OF assms] dangling_kind [OF assms])
     (elim conjE, rule closed_kind_refused [OF assms]; assumption)+

theorem store_closed_refuses_witness:
  "StoreImpl_getDefaultKind (Some 0) (ex_store\<lparr>open_flag := False, kinds := []\<rparr>) =
     Some (EmptyKindRef, Some SC_Closed, ex_store\<lparr>open_flag := False, kinds := [], code := SC_Closed\<rparr>) \<and>
   StoreImpl_singleRemove mem_engine (Some 0) (ForeignRef ''q'' True) (Some [1]) (ex_store\<lparr>open_flag := False, kinds := []\<rparr>) =
     Some (Some SC_Closed, ex_store\<lparr>open_flag := False, kinds := [], code := SC_Closed\<rparr>) \<and>
   StoreImpl_removeRange mem_engine (Some 0) (InKinds ''q'') (Some [1]) (Some [2]) (ex_store\<lparr>open_flag := False, kinds := []\<rparr>) = None"
  using store_closed_refuses [of "ex_store\<lparr>open_flag := False, kinds := []\<rparr>" mem_engine "Some 0" "''q''" None
      "ForeignRef ''q'' True" "Foreign ''q'' True" "[1]" None "[1]" "[2]" 0 "''q''"] ex_store_wf
  by (simp add: store_wf_def heap_fresh_def assign_def deref_kind_def)

text \<open>
  C24: \<^verbatim>\<open>StoreImpl::close\<close> always returns on a well-formed store, leaves it well-formed and closed,
  without kinds, and closing it again changes nothing.
\<close>

theorem store_close_total:
  assumes "store_wf s"
  shows "\<exists>s'. StoreImpl_close eng s = Some s' \<and> store_wf s' \<and> \<not> StoreImpl_isOpen s' \<and>
    kinds s' = (if open_flag s then [] else kinds s) \<and> heap s' = heap s \<and> StoreImpl_close eng s' = Some s'"
proof -
  obtain s' where s': "StoreImpl_close eng s = Some s'" "store_wf s'" "\<not> open_flag s'" "kinds s' = []"
    "heap s' = heap s" using close_wf [OF assms] by blast
  moreover have "\<not> open_flag s \<Longrightarrow> s' = s" using close_closed [OF assms, of eng] s'(1) by simp
  ultimately show ?thesis using close_closed [OF s'(2,3), of eng]
    by (auto simp: StoreImpl_isOpen_def)
qed

theorem store_close_total_witness:
  "\<exists>s'. StoreImpl_close mem_engine ex_store = Some s' \<and> kinds s' = [] \<and> StoreImpl_close mem_engine s' = Some s'"
  using store_close_total [OF ex_store_wf(1), of mem_engine] ex_store_wf(2) by auto

text \<open>
  C25: \<^verbatim>\<open>close\<close> does not depend on what synchronising the WAL and flushing do: the two calls come after
  \<open>open\<close> was set to false, and both test it first, so the library is never asked to synchronise or flush.
\<close>

theorem store_close_skips_sync:
  "StoreImpl_close (eng\<lparr>FlushWAL := f, DB_Flush_cf := g\<rparr>) s = StoreImpl_close eng s"
proof -
  have "KindImpl_closeHandle (eng\<lparr>FlushWAL := f, DB_Flush_cf := g\<rparr>) = KindImpl_closeHandle eng"
    by (auto simp: KindImpl_closeHandle_def fun_eq_iff split: option.split)
  then have "close_handles (eng\<lparr>FlushWAL := f, DB_Flush_cf := g\<rparr>) = close_handles eng"
    by (simp add: close_handles_def fun_eq_iff)
  then show ?thesis
    by (auto simp: StoreImpl_close_def StoreImpl_syncWALNoLock_def StoreImpl_flushNoLock_def Let_def
        synchronize_def split: option.split)
qed

lemma removeRange_absent:
  assumes "rocksdb_spec eng obs pending" "store_wf s" "open_flag s" "live_kind s k h"
  shows "\<exists>c s'. StoreImpl_removeRange eng status k (Some a) (Some b) s = Some (assign c status, s') \<and>
    tx_code c \<and> store_wf s' \<and> store_frame s s' \<and> same_heap s s' \<and>
    (c \<noteq> 0 \<longrightarrow> obs (rdb s') = obs (rdb s)) \<and>
    (c = 0 \<longrightarrow> cfs (obs (rdb s')) = cfs (obs (rdb s)) \<and>
       present (obs (rdb s')) h = {x \<in> present (obs (rdb s)) h. \<not> (a \<le> x \<and> x < b)} \<and>
       (\<forall>h' x. h' \<noteq> h \<or> \<not> (a \<le> x \<and> x < b) \<longrightarrow> cells (obs (rdb s')) h' x = cells (obs (rdb s)) h' x))"
proof -
  obtain c s' where r: "StoreImpl_removeRange eng status k (Some a) (Some b) s = Some (assign c status, s')"
    and o: "outcome obs (WDeleteRange h a b) c s s'"
    using rocksdb_spec.removeRange_spec [OF assms] by blast
  have "c = 0 \<Longrightarrow> op_effect (WDeleteRange h a b) (obs (rdb s)) (obs (rdb s'))"
    using o by (simp add: outcome_def)
  then show ?thesis using o
    by (intro exI [where x = c] exI [where x = s'])
       (auto simp: r outcome_def present_def split: if_splits)
qed

text \<open>
  C11: a failed \<^verbatim>\<open>StoreImpl::remove\<close>, \<^verbatim>\<open>singleRemove\<close> or \<^verbatim>\<open>removeRange\<close> changes nothing.  On success \<^verbatim>\<open>remove\<close> makes the key absent
  for readers, and \<^verbatim>\<open>removeRange\<close> exactly the keys of the half-open interval.  A successful \<^verbatim>\<open>singleRemove\<close> changes no
  other key; it makes the key absent provided that this was written at most once since its last single removal.  For a
  key that was overwritten or deleted the library leaves the result of \<^verbatim>\<open>SingleDelete\<close> undefined (\<^verbatim>\<open>db.h\<close>), and the store
  does not check for it.
\<close>

theorem store_removes_correct:
  assumes "rocksdb_spec eng obs pending" "store_wf s" "open_flag s" "live_kind s k h"
  shows "(\<exists>c s'. StoreImpl_remove eng status k (Some key) s = Some (assign c status, s') \<and>
      store_wf s' \<and> store_frame s s' \<and> same_heap s s' \<and>
      obs (rdb s') = (if c = 0 then upd_cell h key (Multi None) (obs (rdb s)) else obs (rdb s))) \<and>
    (\<exists>c s'. StoreImpl_singleRemove eng status k (Some key) s = Some (assign c status, s') \<and>
      store_wf s' \<and> store_frame s s' \<and> same_heap s s' \<and>
      (c \<noteq> 0 \<longrightarrow> obs (rdb s') = obs (rdb s)) \<and>
      (c = 0 \<longrightarrow> (\<exists>x. obs (rdb s') = upd_cell h key x (obs (rdb s)) \<and>
         (single_ok (cells (obs (rdb s)) h key) \<longrightarrow> x = Absent)))) \<and>
    (\<exists>c s'. StoreImpl_removeRange eng status k (Some a) (Some b) s = Some (assign c status, s') \<and>
      tx_code c \<and> store_wf s' \<and> store_frame s s' \<and> same_heap s s' \<and>
      (c \<noteq> 0 \<longrightarrow> obs (rdb s') = obs (rdb s)) \<and>
      (c = 0 \<longrightarrow> cfs (obs (rdb s')) = cfs (obs (rdb s)) \<and>
         present (obs (rdb s')) h = {x \<in> present (obs (rdb s)) h. \<not> (a \<le> x \<and> x < b)} \<and>
         (\<forall>h' x. h' \<noteq> h \<or> \<not> (a \<le> x \<and> x < b) \<longrightarrow> cells (obs (rdb s')) h' x = cells (obs (rdb s)) h' x)))"
proof (intro conjI)
  obtain c s' where "StoreImpl_remove eng status k (Some key) s = Some (assign c status, s')"
    "outcome obs (WDelete h key) c s s'" using rocksdb_spec.remove_spec [OF assms] by blast
  then show "\<exists>c s'. StoreImpl_remove eng status k (Some key) s = Some (assign c status, s') \<and>
      store_wf s' \<and> store_frame s s' \<and> same_heap s s' \<and>
      obs (rdb s') = (if c = 0 then upd_cell h key (Multi None) (obs (rdb s)) else obs (rdb s))"
    by (intro exI [where x = c] exI [where x = s']) (auto simp: outcome_def)
next
  obtain c s' where "StoreImpl_singleRemove eng status k (Some key) s = Some (assign c status, s')"
    "outcome obs (WSingleDelete h key) c s s'" using rocksdb_spec.singleRemove_spec [OF assms] by blast
  then show "\<exists>c s'. StoreImpl_singleRemove eng status k (Some key) s = Some (assign c status, s') \<and>
      store_wf s' \<and> store_frame s s' \<and> same_heap s s' \<and>
      (c \<noteq> 0 \<longrightarrow> obs (rdb s') = obs (rdb s)) \<and>
      (c = 0 \<longrightarrow> (\<exists>x. obs (rdb s') = upd_cell h key x (obs (rdb s)) \<and>
         (single_ok (cells (obs (rdb s)) h key) \<longrightarrow> x = Absent)))"
    by (intro exI [where x = c] exI [where x = s']) (auto simp: outcome_def)
qed (rule removeRange_absent [OF assms])

theorem store_removes_correct_witness:
  "(\<exists>c s'. StoreImpl_singleRemove mem_engine (Some 0) (InKinds ''default'') (Some [1]) ex_store =
      Some (assign c (Some 0), s') \<and>
    mem_obs (rdb s') = (if c = 0 then upd_cell 5 [1] Absent (mem_obs (rdb ex_store)) else mem_obs (rdb ex_store))) \<and>
   (\<exists>c s'. StoreImpl_removeRange mem_engine (Some 0) (InKinds ''default'') (Some [1]) (Some [2]) ex_store =
      Some (assign c (Some 0), s') \<and>
    (c = 0 \<longrightarrow> present (mem_obs (rdb s')) 5 = {x \<in> present (mem_obs (rdb ex_store)) 5. \<not> ([1] \<le> x \<and> x < [2])}))"
proof
  note removes = store_removes_correct [OF ex_default, of "Some 0" "[1]" "[1]" "[2]"]
  show "\<exists>c s'. StoreImpl_singleRemove mem_engine (Some 0) (InKinds ''default'') (Some [1]) ex_store =
      Some (assign c (Some 0), s') \<and>
    mem_obs (rdb s') = (if c = 0 then upd_cell 5 [1] Absent (mem_obs (rdb ex_store)) else mem_obs (rdb ex_store))"
    using removes [THEN conjunct2, THEN conjunct1]
    by (elim exE conjE) (intro exI conjI, assumption, auto simp: ex_store_cells)
  show "\<exists>c s'. StoreImpl_removeRange mem_engine (Some 0) (InKinds ''default'') (Some [1]) (Some [2]) ex_store =
      Some (assign c (Some 0), s') \<and>
    (c = 0 \<longrightarrow> present (mem_obs (rdb s')) 5 = {x \<in> present (mem_obs (rdb ex_store)) 5. \<not> ([1] \<le> x \<and> x < [2])})"
    using removes [THEN conjunct2, THEN conjunct2]
    by (elim exE conjE) (intro exI conjI, assumption, simp)
qed

text \<open>
  C28: \<^verbatim>\<open>StoreImpl::getOrCreateKind\<close> returns the kind with that name: an existing one without any
  change, otherwise a new one on a fresh, empty column family, all others untouched.  When the library
  fails it returns the empty kind and its code.  Names are read up to their first zero character.
\<close>

theorem store_getOrCreateKind_correct:
  assumes "rocksdb_spec eng obs pending" "store_wf s" "open_flag s"
  shows "\<exists>c k s'. StoreImpl_getOrCreateKind eng status n s = Some (k, assign c status, s') \<and>
    store_wf s' \<and> open_flag s' \<and> same_heap s s' \<and> (kinds_ok obs s \<longrightarrow> kinds_ok obs s') \<and>
    (if map_of (kinds s) (c_str n) \<noteq> None then c = 0 \<and> k = InKinds (c_str n) \<and> s' = s
     else if c = 0
     then k = InKinds (c_str n) \<and> (\<exists>h. h \<notin> cfs (obs (rdb s)) \<and> live_kind s' k h \<and>
        cfs (obs (rdb s')) = insert h (cfs (obs (rdb s))) \<and>
        cells (obs (rdb s')) = (cells (obs (rdb s)))(h := (\<lambda>_. Absent)))
     else k = EmptyKindRef \<and> kinds s' = kinds s \<and> obs (rdb s') = obs (rdb s))"
proof -
  from rocksdb_spec.getOrCreateKind_spec [OF assms, of status n] obtain c k s' where
    g: "StoreImpl_getOrCreateKind eng status n s = Some (k, assign c status, s')" and
    s': "store_wf s'" "open_flag s'" "same_heap s s'" and
    e: "if map_of (kinds s) (c_str n) \<noteq> None then c = 0 \<and> k = InKinds (c_str n) \<and> s' = s
     else if c = 0 then k = InKinds (c_str n) \<and> (\<exists>h. kind_created obs (c_str n) h s s')
     else k = EmptyKindRef \<and> kinds s' = kinds s \<and> obs (rdb s') = obs (rdb s)" by (elim exE conjE) (rule that)
  have "\<exists>h. h \<notin> cfs (obs (rdb s)) \<and> live_kind s' (InKinds (c_str n)) h \<and>
        cfs (obs (rdb s')) = insert h (cfs (obs (rdb s))) \<and>
        cells (obs (rdb s')) = (cells (obs (rdb s)))(h := (\<lambda>_. Absent))"
    if "map_of (kinds s) (c_str n) = None" "kind_created obs (c_str n) h s s'" for h
    using kind_created_live [OF that] that(2) by (auto simp: kind_created_def)
  with e have "if map_of (kinds s) (c_str n) \<noteq> None then c = 0 \<and> k = InKinds (c_str n) \<and> s' = s
     else if c = 0
     then k = InKinds (c_str n) \<and> (\<exists>h. h \<notin> cfs (obs (rdb s)) \<and> live_kind s' k h \<and>
        cfs (obs (rdb s')) = insert h (cfs (obs (rdb s))) \<and>
        cells (obs (rdb s')) = (cells (obs (rdb s)))(h := (\<lambda>_. Absent)))
     else k = EmptyKindRef \<and> kinds s' = kinds s \<and> obs (rdb s') = obs (rdb s)"
    by (auto split: if_splits)
  then show ?thesis using g s' rocksdb_spec.getOrCreateKind_kinds_ok [OF assms _ g]
    by (intro exI [where x = c] exI [where x = k] exI [where x = s'] conjI impI; assumption?) auto
qed

theorem store_getOrCreateKind_correct_witness:
  "\<exists>c k s'. StoreImpl_getOrCreateKind mem_engine (Some 7) ''q'' ex_store = Some (k, assign c (Some 7), s') \<and>
     c = 0 \<and> k = InKinds ''q'' \<and> s' = ex_store"
proof -
  have c: "c_str ''q'' = ''q''" "map_of (kinds ex_store) ''q'' \<noteq> None" by (code_simp, simp add: ex_store_def)
  show ?thesis
    using store_getOrCreateKind_correct [OF mem.rocksdb_spec_axioms ex_store_wf, of "Some 7" "''q''"]
    by (simp add: c del: not_None_eq)
qed

text \<open>
  The kinds of a store are independent key spaces: a write through one kind leaves every value
  that another kind holds as it is.
\<close>

lemma store_kinds_independent:
  assumes "rocksdb_spec eng obs pending" "store_wf s" "open_flag s" "kinds_ok obs s"
    "live_kind s (InKinds a) h" "live_kind s (InKinds b) h'" "a \<noteq> b"
  shows "\<exists>st s'. StoreImpl_put eng status (InKinds a) (Some key) val s = Some (st, s') \<and>
    kinds_ok obs s' \<and> live_kind s' (InKinds b) h' \<and> cells (obs (rdb s')) h' = cells (obs (rdb s)) h'"
proof -
  have "h \<noteq> h'" using kinds_ok_independent [OF assms(2,4,5)] assms(6,7) by blast
  moreover obtain c s' where p: "StoreImpl_put eng status (InKinds a) (Some key) val s = Some (assign c status, s')"
    and o: "outcome obs (WPut h key (slice_of val)) c s s'"
    using rocksdb_spec.put_spec [OF assms(1,2,3,5)] by blast
  moreover have "kinds_ok obs s'"
    using o by (intro kinds_ok_frame [OF assms(4)]) (auto simp: outcome_def upd_cell_def split: if_splits)
  moreover have "live_kind s' (InKinds b) h'" using o live_kind_frame assms(6) by (auto simp: outcome_def)
  ultimately show ?thesis by (auto simp: outcome_def upd_cell_def split: if_splits)
qed

end
