(* ===== verification/Client_Bytes.thy ===== *)
theory Client_Bytes
  imports Prelude
begin

text \<open>
  \<^verbatim>\<open>bytes\<close> (\<^verbatim>\<open>include/client/bytes.h\<close>, \<^verbatim>\<open>src/client/bytes.cpp\<close>), the owner of an array that a store
  call returned.  The methods work on the heap of the machine; reading or releasing an array that
  is not allocated is undefined.  \<open>owns w b bs\<close> says that \<open>b\<close> is the only owner of an array with the
  bytes \<open>bs\<close>, or empty.  The lemmas show that copies are deep, moves transfer the ownership and the
  destructor releases exactly what is owned.
\<close>

section \<open>Definitions\<close>

record bytes =
  bsize :: nat
  bdata :: "addr option"

definition bytes_ctor :: "addr option \<Rightarrow> nat \<Rightarrow> bytes" where
  "bytes_ctor p n = \<lparr>bsize = n, bdata = p\<rparr>"

definition bytes_empty :: bytes where
  "bytes_empty = \<lparr>bsize = 0, bdata = None\<rparr>"

text \<open>\<open>memcpy\<close> reads \<open>n\<close> bytes through a pointer.\<close>

definition read_array :: "addr option \<Rightarrow> nat \<Rightarrow> ('d, 'a) world_scheme \<Rightarrow> data option" where
  "read_array p n w = do {
     a \<leftarrow> p;
     bs \<leftarrow> heap w a;
     if n \<le> length bs then Some (take n bs) else None
   }"

definition bytes_copy :: "bytes \<Rightarrow> ('d, 'a) world_scheme \<Rightarrow> (bytes \<times> ('d, 'a) world_scheme) option" where
  "bytes_copy other w = do {
     bs \<leftarrow> read_array (bdata other) (bsize other) w;
     let (tmp, w) = new_copy bs w;
     Some (\<lparr>bsize = bsize other, bdata = Some tmp\<rparr>, w)
   }"

definition bytes_copy_ctor :: "bytes \<Rightarrow> ('d, 'a) world_scheme \<Rightarrow> (bytes \<times> ('d, 'a) world_scheme) option" where
  "bytes_copy_ctor other w = (if bsize other > 0 then bytes_copy other w else Some (bytes_empty, w))"

definition bytes_clear :: "bytes \<Rightarrow> ('d, 'a) world_scheme \<Rightarrow> (bytes \<times> ('d, 'a) world_scheme) option" where
  "bytes_clear b w =
     (if bsize b > 0
      then do { w \<leftarrow> delete_array (bdata b) w; Some (\<lparr>bsize = 0, bdata = None\<rparr>, w) }
      else Some (b, w))"

text \<open>\<open>same\<close> is \<open>this == &other\<close>.\<close>

definition bytes_assign ::
  "bool \<Rightarrow> bytes \<Rightarrow> bytes \<Rightarrow> ('d, 'a) world_scheme \<Rightarrow> (bytes \<times> ('d, 'a) world_scheme) option" where
  "bytes_assign same this other w =
     (if \<not> same
      then do {
        (this, w) \<leftarrow> bytes_clear this w;
        if bsize other > 0 then bytes_copy other w else Some (this, w)
      }
      else Some (this, w))"

definition bytes_swap :: "bytes \<Rightarrow> bytes \<Rightarrow> bytes \<times> bytes" where
  "bytes_swap this src = (\<lparr>bsize = bsize src, bdata = bdata src\<rparr>, \<lparr>bsize = bsize this, bdata = bdata this\<rparr>)"

text \<open>The move operations return the new object and what is left in the argument.\<close>

definition bytes_move_ctor :: "bytes \<Rightarrow> bytes \<times> bytes" where
  "bytes_move_ctor moving = (let (moving, this) = bytes_swap moving bytes_empty in (this, moving))"

definition bytes_move_assign :: "bytes \<Rightarrow> bytes \<Rightarrow> bytes \<times> bytes" where
  "bytes_move_assign this moving = (let (moving, this) = bytes_swap moving this in (this, moving))"

definition bytes_dtor :: "bytes \<Rightarrow> ('d, 'a) world_scheme \<Rightarrow> ('d, 'a) world_scheme option" where
  "bytes_dtor b w = map_option snd (bytes_clear b w)"

definition bytes_size :: "bytes \<Rightarrow> nat" where
  "bytes_size b = bsize b"

definition bytes_data :: "bytes \<Rightarrow> addr option" where
  "bytes_data b = bdata b"

definition bytes_nth :: "bytes \<Rightarrow> nat \<Rightarrow> ('d, 'a) world_scheme \<Rightarrow> byte option" where
  "bytes_nth b i w =
     (if i < bsize b
      then do { a \<leftarrow> bdata b; bs \<leftarrow> heap w a; if i < length bs then Some (bs ! i) else None }
      else None)"

definition bytes_bool :: "bytes \<Rightarrow> bool" where
  "bytes_bool b \<longleftrightarrow> bdata b \<noteq> None"

definition bytes_isEmpty :: "bytes \<Rightarrow> bool" where
  "bytes_isEmpty b \<longleftrightarrow> bsize b = 0"

text \<open>\<open>std::string{nullptr, 0}\<close> is the empty string.\<close>

definition bytes_toString :: "bytes \<Rightarrow> ('d, 'a) world_scheme \<Rightarrow> data option" where
  "bytes_toString b w = (if bsize b = 0 then Some [] else read_array (bdata b) (bsize b) w)"

section \<open>Ownership\<close>

definition owns :: "('d, 'a) world_scheme \<Rightarrow> bytes \<Rightarrow> data \<Rightarrow> bool" where
  "owns w b bs \<longleftrightarrow> bsize b = length bs \<and>
     (if bs = [] then bdata b = None else (\<exists>a. bdata b = Some a \<and> heap w a = Some bs))"

lemma owns_toString: "owns w b bs \<Longrightarrow> bytes_toString b w = Some bs"
  by (auto simp: owns_def bytes_toString_def read_array_def split: if_splits)

lemma owns_nth: "owns w b bs \<Longrightarrow> i < length bs \<Longrightarrow> bytes_nth b i w = Some (bs ! i)"
  by (cases "bs = []") (auto simp: owns_def bytes_nth_def)

lemma owns_copy:
  assumes "heap_fresh w" "owns w b bs"
  shows "\<exists>b' w'. bytes_copy_ctor b w = Some (b', w') \<and> owns w' b' bs \<and> owns w' b bs \<and> heap_fresh w' \<and>
    (\<forall>a. bdata b = Some a \<longrightarrow> bdata b' \<noteq> Some a) \<and> (\<forall>a \<in> dom (heap w). heap w' a = heap w a) \<and>
    bytes_dtor b' w' = Some (w'\<lparr>heap := heap w\<rparr>)"
proof (cases "bs = []")
  case True
  then show ?thesis using assms
    by (auto simp: owns_def bytes_copy_ctor_def bytes_empty_def bytes_dtor_def bytes_clear_def)
next
  case False
  then obtain a where a: "bdata b = Some a" "heap w a = Some bs" "bsize b = length bs"
    using assms(2) by (auto simp: owns_def)
  then have "a < next_addr w" using assms(1) by (auto simp: heap_fresh_def dom_def)
  with False a assms(1) show ?thesis
    by (auto simp: owns_def bytes_copy_ctor_def bytes_copy_def read_array_def new_copy_def
        bytes_dtor_def bytes_clear_def delete_array_def heap_fresh_def less_Suc_eq dom_def fun_eq_iff)
qed

lemma owns_dtor:
  assumes "owns w b bs"
  shows "bytes_dtor b w = Some (case bdata b of None \<Rightarrow> w | Some a \<Rightarrow> w\<lparr>heap := (heap w)(a := None)\<rparr>)"
  using assms by (auto simp: owns_def bytes_dtor_def bytes_clear_def delete_array_def split: if_splits)

lemma owns_move:
  assumes "owns w b bs" "owns w t cs"
  shows "fst (bytes_move_ctor b) = b" "snd (bytes_move_ctor b) = bytes_empty"
    "bytes_move_assign t b = (b, t)"
  by (simp_all add: bytes_move_ctor_def bytes_move_assign_def bytes_swap_def bytes_empty_def)

lemma owns_assign:
  assumes fresh: "heap_fresh w" and b: "owns w b bs" and t: "owns w t ts"
    and apart: "\<forall>a. bdata b = Some a \<longrightarrow> bdata t \<noteq> Some a"
  shows "\<exists>t' w'. bytes_assign False t b w = Some (t', w') \<and> owns w' t' bs \<and> owns w' b bs \<and>
    (\<forall>a. bdata t = Some a \<and> bdata t' \<noteq> Some a \<longrightarrow> heap w' a = None)"
proof -
  obtain w1 where c: "bytes_clear t w = Some (bytes_empty, w1)"
    and w1: "owns w1 b bs" "heap_fresh w1" "next_addr w1 = next_addr w"
      "\<forall>a. bdata t = Some a \<longrightarrow> heap w1 a = None"
    using fresh b t apart
    by (fastforce simp: owns_def bytes_clear_def delete_array_def bytes_empty_def heap_fresh_def
        split: if_splits)
  show ?thesis
    using c w1 owns_copy [OF w1(2,1)]
    by (cases "bs = []")
       (fastforce simp: bytes_assign_def bytes_copy_ctor_def owns_def bytes_empty_def bytes_copy_def
          new_copy_def read_array_def split: if_splits)+
qed

section \<open>Properties\<close>

definition ex_heap :: "unit world" where
  "ex_heap = \<lparr>rdb = (), heap = [0 \<mapsto> [5, 6], 1 \<mapsto> [7]], next_addr = 2, clock = (\<lambda>_. 0), reads = 0, cpus = 4\<rparr>"

lemma ex_heap_owns:
  "heap_fresh ex_heap" "owns ex_heap (bytes_ctor (Some 0) 2) [5, 6]" "owns ex_heap (bytes_ctor (Some 1) 1) [7]"
  by (auto simp: ex_heap_def heap_fresh_def owns_def bytes_ctor_def split: if_splits)

text \<open>
  C32: ownership in \<^verbatim>\<open>bytes\<close>.  The copy constructor makes a deep copy: both objects own the same bytes in
  different arrays, no allocated array changes, and destroying the copy gives the heap back as it was;
  the copy reads as the original through \<^verbatim>\<open>toString\<close> and \<^verbatim>\<open>operator[]\<close>.  Copy assignment from another object
  releases the array the target owned and makes the target the owner of a copy, while the source keeps
  its array; a self assignment changes nothing.  Moving exchanges the arrays and allocates none.
\<close>

theorem bytes_ownership:
  assumes "heap_fresh w" "owns w b bs" "owns w t ts" "\<forall>a. bdata b = Some a \<longrightarrow> bdata t \<noteq> Some a"
  shows "(\<exists>b' w'. bytes_copy_ctor b w = Some (b', w') \<and> owns w' b' bs \<and> owns w' b bs \<and> heap_fresh w' \<and>
      (\<forall>a. bdata b = Some a \<longrightarrow> bdata b' \<noteq> Some a) \<and> (\<forall>a \<in> dom (heap w). heap w' a = heap w a) \<and>
      bytes_dtor b' w' = Some (w'\<lparr>heap := heap w\<rparr>) \<and> bytes_toString b' w' = Some bs \<and>
      (\<forall>i < length bs. bytes_nth b' i w' = Some (bs ! i))) \<and>
    (\<exists>t' w'. bytes_assign False t b w = Some (t', w') \<and> owns w' t' bs \<and> owns w' b bs \<and>
      (\<forall>a. bdata t = Some a \<and> bdata t' \<noteq> Some a \<longrightarrow> heap w' a = None)) \<and>
    bytes_assign True t t w = Some (t, w) \<and> bytes_move_assign t b = (b, t) \<and>
    bytes_move_ctor b = (b, bytes_empty)"
proof (intro conjI)
  obtain b' w' where c: "bytes_copy_ctor b w = Some (b', w')" "owns w' b' bs" "owns w' b bs" "heap_fresh w'"
    "\<forall>a. bdata b = Some a \<longrightarrow> bdata b' \<noteq> Some a" "\<forall>a \<in> dom (heap w). heap w' a = heap w a"
    "bytes_dtor b' w' = Some (w'\<lparr>heap := heap w\<rparr>)"
    using owns_copy [OF assms(1,2)] by (elim exE conjE) (rule that)
  then show "\<exists>b' w'. bytes_copy_ctor b w = Some (b', w') \<and> owns w' b' bs \<and> owns w' b bs \<and> heap_fresh w' \<and>
      (\<forall>a. bdata b = Some a \<longrightarrow> bdata b' \<noteq> Some a) \<and> (\<forall>a \<in> dom (heap w). heap w' a = heap w a) \<and>
      bytes_dtor b' w' = Some (w'\<lparr>heap := heap w\<rparr>) \<and> bytes_toString b' w' = Some bs \<and>
      (\<forall>i < length bs. bytes_nth b' i w' = Some (bs ! i))"
    using owns_toString [OF c(2)] owns_nth [OF c(2)] by blast
qed (use owns_assign [OF assms] owns_move [OF assms(2,3)] prod.collapse [of "bytes_move_ctor b"]
     in \<open>simp_all add: bytes_assign_def\<close>)

theorem bytes_ownership_witness:
  "(\<exists>b' w'. bytes_copy_ctor (bytes_ctor (Some 0) 2) ex_heap = Some (b', w') \<and> bytes_toString b' w' = Some [5, 6]) \<and>
   (\<exists>t' w'. bytes_assign False (bytes_ctor (Some 1) 1) (bytes_ctor (Some 0) 2) ex_heap = Some (t', w') \<and>
     owns w' t' [5, 6] \<and> owns w' (bytes_ctor (Some 0) 2) [5, 6])"
proof -
  have "\<forall>a. bdata (bytes_ctor (Some 0) 2) = Some a \<longrightarrow> bdata (bytes_ctor (Some 1) 1) \<noteq> Some a"
    by (simp add: bytes_ctor_def)
  from bytes_ownership [OF ex_heap_owns this] show ?thesis by blast
qed

end
