(* ===== verification/Kueue_Fifo.thy ===== *)
theory Kueue_Fifo
  imports Kueue_Spec Store_Lifecycle Client_Bytes
begin

text \<open>
  Opening a queue, and the FIFO contract of the queue as an interface.  \<open>fifo\<close> is a bounded queue
  whose operations may fail without effect; its client lemma says that in any sequence of calls
  the messages taken are the messages put, in order, without loss or duplication.  The queue of the
  library, used the way a client does (put, or take with a time-out and release of the array), is an
  instance for every engine with the documented behaviour.
\<close>

section \<open>Opening a queue\<close>

lemma present_queue_cells:
  assumes "cells m h = queue_cells n msgs"
  shows "present m h = {putU64BE (n + of_nat i) | i. i < length msgs}"
  using queue_cells_keys [of n msgs] by (auto simp: present_def assms)

lemma unat_plus_of_nat:
  assumes "unat (n :: u64) + i < 2 ^ 64"
  shows "unat (n + of_nat i) = unat n + i"
proof -
  have "unat (of_nat i :: u64) = i" using assms by (intro unat_of_nat_u64) simp
  with assms show ?thesis by (simp add: unat_word_ariths)
qed

text \<open>The smallest and the greatest key of the column family of a queue that is not empty.\<close>

lemma queue_min:
  assumes c: "cells m h = queue_cells n msgs" "unat n + length msgs < 2 ^ 64" "msgs \<noteq> []"
    and x: "x \<in> present m h" "\<forall>y \<in> present m h. x \<le> y"
  shows "x = putU64BE n"
proof -
  note p = present_queue_cells [OF c(1)]
  have "putU64BE (n + of_nat 0) \<in> present m h" unfolding p using c(3) by blast
  with x(2) have "x \<le> putU64BE n" by auto
  moreover obtain i where i: "x = putU64BE (n + of_nat i)" "i < length msgs" using x(1) p by auto
  moreover have "n \<le> n + of_nat i" using c(2) i(2) unat_plus_of_nat [of n i] by (simp add: word_le_nat_alt)
  ultimately show ?thesis by (simp add: word_le_nat_alt word_unat_eq_iff)
qed

lemma queue_max:
  assumes c: "cells m h = queue_cells n msgs" "unat n + length msgs < 2 ^ 64" "msgs \<noteq> []"
    and x: "x \<in> present m h" "\<forall>y \<in> present m h. y \<le> x"
  shows "x = putU64BE (n + of_nat (length msgs - 1))"
proof -
  note p = present_queue_cells [OF c(1)]
  have "length msgs - 1 < length msgs" using c(3) by simp
  then have "putU64BE (n + of_nat (length msgs - 1)) \<in> present m h" unfolding p by blast
  with x(2) have le: "putU64BE (n + of_nat (length msgs - 1)) \<le> x" by auto
  obtain i where i: "x = putU64BE (n + of_nat i)" "i < length msgs" using x(1) p by auto
  have "unat (n + of_nat i) = unat n + i" by (rule unat_plus_of_nat) (use c(2) i(2) in linarith)
  moreover have "unat (n + of_nat (length msgs - 1)) = unat n + (length msgs - 1)"
    by (rule unat_plus_of_nat) (use c(2) i(2) in linarith)
  ultimately have "length msgs - 1 \<le> i" using le unfolding i(1) putU64BE_le word_le_nat_alt by linarith
  with i(2) have "i = length msgs - 1" by simp
  with i(1) show ?thesis by simp
qed

lemma read_key_found:
  assumes "found 0 r len (Some (putU64BE x)) s s'"
  shows "read_key r len s' = Some (Some x)"
  using assms by (simp add: found_def read_key_def)

lemma read_key_none: "found 0 r len None s s' \<Longrightarrow> read_key r len s' = Some None"
  by (simp add: found_def read_key_def)

lemma read_key_total:
  assumes "found 0 r len ko s s'"
  shows "\<exists>x. read_key r len s' = Some x"
  using assms by (cases "slice_of ko = []") (auto simp: found_def read_key_def getU64BE_def)

lemma found_fresh_len: "found c r len ko s s' \<Longrightarrow> \<exists>n. len = Some n"
  by (auto simp: found_def split: if_splits)

text \<open>
  The queue object that the constructor makes from the extreme keys of the column family.
\<close>

definition kueue_from :: "kindref \<Rightarrow> u64 option \<Rightarrow> u64 option \<Rightarrow> KueueImpl" where
  "kueue_from k small great = (
     let q = KueueImpl_init\<lparr>queueKind := Some k\<rparr>;
         q = (case small of Some x \<Rightarrow> q\<lparr>minKey := x\<rparr> | None \<Rightarrow> q);
         (lastMax, q) = (case great of Some x \<Rightarrow> (x, q\<lparr>maxKey := x + 1\<rparr>) | None \<Rightarrow> (maxKey q, q))
     in if lastMax \<ge> minKey q
        then (let c = maxKey q - minKey q in q\<lparr>kcount := c, kvalid := (sint c \<ge> 0)\<rparr>)
        else q)"

lemma kueue_from_empty: "kueue_repr m h [] (kueue_from k None None) \<longleftrightarrow> cells m h = (\<lambda>_. Absent)"
  by (auto simp: kueue_from_def KueueImpl_init_def kueue_repr_def fun_eq_iff MIN_KEY_def)

lemma kueue_from_repr:
  assumes "cells m h = queue_cells n msgs" "unat n + length msgs < 2 ^ 64" "length msgs < 2 ^ 63" "msgs \<noteq> []"
  shows "kueue_repr m h msgs (kueue_from k (Some n) (Some (n + of_nat (length msgs - 1))))"
proof -
  let ?l = "length msgs"
  have l: "of_nat (?l - 1) + 1 = (of_nat ?l :: u64)" using assms(4) by (cases msgs) simp_all
  have le: "n \<le> n + of_nat (?l - 1)"
    using assms(2) unat_plus_of_nat [of n "?l - 1"] by (simp add: word_le_nat_alt)
  have mx: "n + of_nat (?l - Suc 0) + 1 = n + of_nat ?l" using l by (simp add: add.assoc)
  have "sint (of_nat ?l :: u64) = int ?l" using assms(3) by (rule sint_of_nat_u64)
  then show ?thesis
    using assms le unat_plus_of_nat [of n ?l]
    by (simp add: kueue_from_def KueueImpl_init_def kueue_repr_def Let_def mx)
qed

lemma kueue_from_max:
  assumes "kueue_repr m h msgs (kueue_from k small great)"
  shows "unat (maxKey (kueue_from k small great)) = unat (case small of None \<Rightarrow> 0 | Some x \<Rightarrow> x) + length msgs"
proof -
  have "minKey (kueue_from k small great) = (case small of None \<Rightarrow> 0 | Some x \<Rightarrow> x)"
    by (auto simp: kueue_from_def KueueImpl_init_def MIN_KEY_def Let_def split: option.splits)
  then show ?thesis using assms by (simp add: kueue_repr_def)
qed

text \<open>
  The two seeks of the constructor, to the smallest and then to the greatest key of the kind, do not fail.
  The constructor cannot see such a failure (\<open>store_extreme_keys\<close>).
\<close>

definition seeks_ok :: "'d rocksdb \<Rightarrow> kindref \<Rightarrow> 'd StoreImpl \<Rightarrow> bool" where
  "seeks_ok eng k s =
     (case deref_kind s k of
        Some (Impl ki) \<Rightarrow>
          (case khandle ki of
             None \<Rightarrow> True
           | Some h \<Rightarrow> seek_ok eng (It_SeekToFirst eng) h s \<and>
               (case StoreImpl_findMinKey eng (Some SC_Ok) k (Some 0) s of
                  None \<Rightarrow> True
                | Some (r, status, len, s2) \<Rightarrow> seek_ok eng (It_SeekToLast eng) h s2))
      | _ \<Rightarrow> True)"

lemma seeks_okD:
  assumes "seeks_ok eng k s" "live_kind s k h"
    and "StoreImpl_findMinKey eng (Some SC_Ok) k (Some 0) s = Some (r, status, len, s2)"
  shows "seek_ok eng (It_SeekToFirst eng) h s" "seek_ok eng (It_SeekToLast eng) h s2"
  using assms by (auto simp: seeks_ok_def live_kind_def)

context rocksdb_spec
begin

text \<open>
  The constructor on an open store, once the kind is there: either it finds the queue that the
  column family holds, or an iterator could not be made and the queue is not valid; provided that the
  seeks do not fail when there is a message.
\<close>

lemma ctor_from_kind:
  assumes wf: "store_wf s" and o1: "open_flag s" and n: "n = c_str qid"
    and g: "StoreImpl_getOrCreateKind eng (Some SC_Ok) qid s = Some (InKinds n, Some SC_Ok, s1)"
    and s1: "store_wf s1" "open_flag s1" "live_kind s1 (InKinds n) h"
    and c: "cells (obs (rdb s1)) h = queue_cells m msgs" "unat m + length msgs < 2 ^ 64" "length msgs < 2 ^ 63"
    and sk: "msgs \<noteq> [] \<longrightarrow> seeks_ok eng (InKinds n) s1"
  shows "\<exists>q s'. KueueImpl_ctor eng qid s = Some (q, s') \<and> obs (rdb s') = obs (rdb s1) \<and> store_frame s1 s' \<and>
    store_wf s' \<and> (kvalid q \<longrightarrow> kueue_inv obs h msgs q s') \<and>
    (kvalid q \<longrightarrow> queueKind q = Some (InKinds n) \<and> unat (maxKey q) \<le> unat m + length msgs)"
proof -
  let ?k = "InKinds n"
  obtain ko where ko: "deref_kind s1 ?k = Some ko" "Kind_isValid ko"
    using s1(3) by (auto simp: live_kind_def KindImpl_isValid_def)
  obtain c1 r1 l1 k1 s2 where f1: "StoreImpl_findMinKey eng (Some SC_Ok) ?k (Some 0) s1 =
      Some (r1, assign c1 (Some SC_Ok), l1, s2)"
    and p1: "store_wf s2" "store_frame s1 s2" "obs (rdb s2) = obs (rdb s1)" "found c1 r1 l1 k1 s1 s2"
    and e1: "c1 = 0 \<longrightarrow> (k1 = None \<longleftrightarrow> \<not> seek_ok eng (It_SeekToFirst eng) h s1 \<or> present (obs (rdb s1)) h = {}) \<and>
      (\<forall>x. k1 = Some x \<longrightarrow> x \<in> present (obs (rdb s1)) h \<and> (\<forall>y \<in> present (obs (rdb s1)) h. x \<le> y))"
    using findMinKey_spec [OF s1, of "Some SC_Ok" 0] by (elim exE conjE) (rule that)
  have m1: "c1 = 0 \<Longrightarrow> k1 = None \<longleftrightarrow> \<not> seek_ok eng (It_SeekToFirst eng) h s1 \<or> present (obs (rdb s1)) h = {}"
    "\<And>x. c1 = 0 \<Longrightarrow> k1 = Some x \<Longrightarrow> x \<in> present (obs (rdb s1)) h \<and> (\<forall>y \<in> present (obs (rdb s1)) h. x \<le> y)"
    using e1 by simp_all
  obtain n1 where n1: "l1 = Some n1" using found_fresh_len [OF p1(4)] by blast
  have s2: "open_flag s2" "live_kind s2 ?k h" using p1(2) s1 live_kind_frame by (auto simp: store_frame_def)
  obtain c2 r2 l2 k2 s3 where f2: "StoreImpl_findMaxKey eng (Some SC_Ok) ?k (Some n1) s2 =
      Some (r2, assign c2 (Some SC_Ok), l2, s3)"
    and p2: "store_wf s3" "store_frame s2 s3" "obs (rdb s3) = obs (rdb s2)" "found c2 r2 l2 k2 s2 s3"
    and e2: "c2 = 0 \<longrightarrow> (k2 = None \<longleftrightarrow> \<not> seek_ok eng (It_SeekToLast eng) h s2 \<or> present (obs (rdb s2)) h = {}) \<and>
      (\<forall>x. k2 = Some x \<longrightarrow> x \<in> present (obs (rdb s2)) h \<and> (\<forall>y \<in> present (obs (rdb s2)) h. y \<le> x))"
    using findMaxKey_spec [OF p1(1) s2, of "Some SC_Ok" n1] by (elim exE conjE) (rule that)
  have m2: "c2 = 0 \<Longrightarrow> k2 = None \<longleftrightarrow> \<not> seek_ok eng (It_SeekToLast eng) h s2 \<or> present (obs (rdb s2)) h = {}"
    "\<And>x. c2 = 0 \<Longrightarrow> k2 = Some x \<Longrightarrow> x \<in> present (obs (rdb s2)) h \<and> (\<forall>y \<in> present (obs (rdb s2)) h. y \<le> x)"
    using e2 by simp_all
  have gm: "StoreImpl_getKindManager (Some SC_Ok) s = (Some SC_Ok, s)"
    using o1 by (simp add: StoreImpl_getKindManager_def StoreImpl_validateOpen_def StoreImpl_isOpen_def)
  note simps = KueueImpl_ctor_def gm [simplified] g [simplified] ko f1 [simplified] f2 [simplified] n1 Let_def
  let ?q0 = "KueueImpl_init\<lparr>queueKind := Some ?k\<rparr>"
  show ?thesis
  proof (cases "c1 = 0 \<and> c2 = 0")
    case False
    have inv: "\<not> kvalid (KueueImpl_init\<lparr>queueKind := Some ?k, minKey := x\<rparr>)" "\<not> kvalid ?q0" for x
      by (simp_all add: KueueImpl_init_def)
    show ?thesis
    proof (cases "c1 = 0")
      case False
      then have "KueueImpl_ctor eng qid s = Some (?q0, s2)" by (simp add: simps)
      then show ?thesis using p1 inv by blast
    next
      case True
      obtain small where small: "read_key r1 l1 s2 = Some small"
        using read_key_total [of r1 l1 k1 s1 s2] p1(4) True by blast
      then have "\<exists>q. KueueImpl_ctor eng qid s = Some (q, s3) \<and> \<not> kvalid q"
        using True False inv [unfolded KueueImpl_init_def] small [unfolded n1]
        by (auto simp: simps KueueImpl_init_def split: option.splits)
      then show ?thesis using p1 p2 store_frame_trans [OF p1(2) p2(2)] by auto
    qed
  next
    case True
    have ok: "read_key r1 l1 s2 = Some small \<Longrightarrow> read_key r2 l2 s3 = Some great \<Longrightarrow>
        KueueImpl_ctor eng qid s = Some (kueue_from ?k small great, s3)" for small great
      using True by (simp add: simps kueue_from_def split: option.splits)
    have fin: "obs (rdb s3) = obs (rdb s1)" "store_frame s1 s3" using p1 p2 store_frame_trans by auto
    have qk: "queueKind (kueue_from ?k small great) = Some ?k" for small great
      by (auto simp: kueue_from_def KueueImpl_init_def Let_def split: option.splits)
    have inv: "kueue_inv obs h msgs (kueue_from ?k small great) s3"
      if "kueue_repr (obs (rdb s1)) h msgs (kueue_from ?k small great)" for small great
      using that p2(1,2) s2 live_kind_frame [OF p2(2)] fin(1)
      by (auto simp: kueue_inv_def store_frame_def kueue_from_def KueueImpl_init_def Let_def split: option.splits)
    show ?thesis
    proof (cases "msgs = []")
      case e: True
      then have "present (obs (rdb s1)) h = {}" using present_queue_cells [OF c(1)] by simp
      then have "k1 = None" "k2 = None" using m1(1) m2(1) True p1(3) by auto
      then have "read_key r1 l1 s2 = Some None" "read_key r2 l2 s3 = Some None"
        using p1(4) p2(4) True read_key_none [of r1 l1 s1 s2] read_key_none [of r2 l2 s2 s3] by simp_all
      moreover have r: "kueue_repr (obs (rdb s1)) h msgs (kueue_from ?k None None)"
        using e c(1) kueue_from_empty by (simp add: fun_eq_iff)
      moreover have "unat (maxKey (kueue_from ?k None None)) \<le> unat m + length msgs"
        using kueue_from_max [OF r] by simp
      ultimately show ?thesis using ok inv fin p2(1) qk by blast
    next
      case e: False
      then have ne: "present (obs (rdb s1)) h \<noteq> {}" using present_queue_cells [OF c(1)] by auto
      moreover have "seek_ok eng (It_SeekToFirst eng) h s1" "seek_ok eng (It_SeekToLast eng) h s2"
        using seeks_okD [OF _ s1(3) f1] sk e by simp_all
      ultimately obtain x1 x2 where x: "k1 = Some x1" "k2 = Some x2" using m1(1) m2(1) True p1(3) by auto
      have "x1 = putU64BE m" "x2 = putU64BE (m + of_nat (length msgs - 1))"
        using queue_min [OF c(1,2) e] queue_max [OF c(1,2) e] m1(2) m2(2) x True p1(3) by auto
      then have "read_key r1 l1 s2 = Some (Some m)"
        "read_key r2 l2 s3 = Some (Some (m + of_nat (length msgs - 1)))"
        using p1(4) p2(4) True x read_key_found [of r1 l1 m s1 s2]
          read_key_found [of r2 l2 "m + of_nat (length msgs - 1)" s2 s3] by simp_all
      moreover note r = kueue_from_repr [OF c e, of ?k]
      moreover have "unat (maxKey (kueue_from ?k (Some m) (Some (m + of_nat (length msgs - 1))))) \<le> unat m + length msgs"
        using kueue_from_max [OF r] by simp
      ultimately show ?thesis using ok inv fin p2(1) qk by blast
    qed
  qed
qed

end

context rocksdb_spec
begin

text \<open>A queue whose column family exists is found again with all its messages, if the seeks do not fail.\<close>

lemma ctor_existing:
  assumes wf: "store_wf s" and o1: "open_flag s" and k: "live_kind s (InKinds (c_str qid)) h"
    and c: "cells (obs (rdb s)) h = queue_cells m msgs" "unat m + length msgs < 2 ^ 64" "length msgs < 2 ^ 63"
    and sk: "msgs \<noteq> [] \<longrightarrow> seeks_ok eng (InKinds (c_str qid)) s"
  shows "\<exists>q s'. KueueImpl_ctor eng qid s = Some (q, s') \<and> obs (rdb s') = obs (rdb s) \<and> store_frame s s' \<and>
    store_wf s' \<and> (kvalid q \<longrightarrow> kueue_inv obs h msgs q s') \<and>
    (kvalid q \<longrightarrow> queueKind q = Some (InKinds (c_str qid)) \<and> unat (maxKey q) \<le> unat m + length msgs)"
proof -
  have "map_of (kinds s) (c_str qid) \<noteq> None"
    using k by (auto simp: live_kind_def deref_kind_def)
  then have "StoreImpl_getOrCreateKind eng (Some SC_Ok) qid s = Some (InKinds (c_str qid), Some SC_Ok, s)"
    using getOrCreateKind_spec [OF wf o1, of "Some SC_Ok" qid] by auto
  from ctor_from_kind [OF wf o1 refl this wf o1 k c sk] show ?thesis .
qed

text \<open>
  A queue with a new name: either no column family could be created, and the queue is not valid, or there
  is a new one, and the queue is empty unless it is not valid.
\<close>

lemma kind_created_frame:
  "kind_created obs n h s s1 \<Longrightarrow> store_frame s1 s' \<Longrightarrow> obs (rdb s') = obs (rdb s1) \<Longrightarrow> kind_created obs n h s s'"
  by (simp add: kind_created_def store_frame_def)

lemma kind_created_keeps: "kind_created obs n h s s' \<Longrightarrow> live_kind s k h' \<Longrightarrow> live_kind s' k h'"
  by (auto simp: kind_created_def live_kind_def deref_kind_def map_add_def split: kindref.splits option.splits)

lemma ctor_created:
  assumes wf: "store_wf s" and o1: "open_flag s" and k: "map_of (kinds s) (c_str qid) = None"
  shows "\<exists>q s'. KueueImpl_ctor eng qid s = Some (q, s') \<and> store_wf s' \<and> open_flag s' \<and> path s' = path s \<and>
    (kinds_ok obs s \<longrightarrow> kinds_ok obs s') \<and>
    (\<not> kvalid q \<and> kinds s' = kinds s \<and> obs (rdb s') = obs (rdb s) \<or>
     (\<exists>h. kind_created obs (c_str qid) h s s' \<and> (kvalid q \<longrightarrow> kueue_inv obs h [] q s' \<and>
        queueKind q = Some (InKinds (c_str qid)) \<and> maxKey q = 0)))"
proof -
  obtain c kr s1 where g: "StoreImpl_getOrCreateKind eng (Some SC_Ok) qid s = Some (kr, assign c (Some SC_Ok), s1)"
    and s1: "store_wf s1" "open_flag s1" "path s1 = path s"
    and e: "if c = 0 then kr = InKinds (c_str qid) \<and> (\<exists>h. kind_created obs (c_str qid) h s s1)
      else kr = EmptyKindRef \<and> kinds s1 = kinds s \<and> obs (rdb s1) = obs (rdb s)"
    using getOrCreateKind_spec [OF wf o1, of "Some SC_Ok" qid] k by (elim exE conjE) (rule that; simp)
  have ko: "kinds_ok obs s \<Longrightarrow> kinds_ok obs s1" using getOrCreateKind_kinds_ok [OF wf o1 _ g] .
  show ?thesis
  proof (cases "c = 0")
    case True
    then obtain h where kr: "kr = InKinds (c_str qid)" and kc: "kind_created obs (c_str qid) h s s1"
      using e by auto
    have l: "live_kind s1 (InKinds (c_str qid)) h" by (rule kind_created_live [OF k kc])
    have c0: "cells (obs (rdb s1)) h = queue_cells 0 []" using kc by (simp add: kind_created_def fun_eq_iff)
    from g kr True have g1: "StoreImpl_getOrCreateKind eng (Some SC_Ok) qid s =
        Some (InKinds (c_str qid), Some SC_Ok, s1)" by simp
    obtain q s' where q: "KueueImpl_ctor eng qid s = Some (q, s')" "obs (rdb s') = obs (rdb s1)"
      "store_frame s1 s'" "store_wf s'" "kvalid q \<longrightarrow> kueue_inv obs h [] q s'"
      "kvalid q \<longrightarrow> queueKind q = Some (InKinds (c_str qid)) \<and> maxKey q = 0"
      using ctor_from_kind [OF wf o1 refl g1 s1(1,2) l c0] by (auto simp: word_unat_eq_iff)
    have "kinds_ok obs s \<longrightarrow> kinds_ok obs s'" using ko kinds_ok_frame [OF _ q(3)] q(2) by simp
    moreover have "open_flag s'" "path s' = path s" using q(3) s1(2,3) by (simp_all add: store_frame_def)
    ultimately show ?thesis using q kind_created_frame [OF kc q(3,2)] by blast
  next
    case False
    have "StoreImpl_getKindManager (Some SC_Ok) s = (Some SC_Ok, s)"
      using o1 by (simp add: StoreImpl_getKindManager_def StoreImpl_validateOpen_def StoreImpl_isOpen_def)
    then have "KueueImpl_ctor eng qid s = Some (KueueImpl_init, s1)"
      using g [simplified] False by (simp add: KueueImpl_ctor_def)
    then show ?thesis using s1 e False ko by (auto simp: KueueImpl_init_def)
  qed
qed

lemma ctor_new:
  assumes "store_wf s" "open_flag s" "map_of (kinds s) (c_str qid) = None"
  shows "\<exists>q s'. KueueImpl_ctor eng qid s = Some (q, s') \<and> store_wf s' \<and> open_flag s' \<and>
    (kinds_ok obs s \<longrightarrow> kinds_ok obs s') \<and>
    (\<forall>h \<in> cfs (obs (rdb s)). cells (obs (rdb s')) h = cells (obs (rdb s)) h) \<and>
    (\<forall>k h. live_kind s k h \<longrightarrow> live_kind s' k h) \<and>
    (kvalid q \<longrightarrow> queueKind q = Some (InKinds (c_str qid)) \<and>
       (\<exists>h. h \<notin> cfs (obs (rdb s)) \<and> kueue_inv obs h [] q s'))"
proof -
  obtain q s' where q: "KueueImpl_ctor eng qid s = Some (q, s')" "store_wf s'" "open_flag s'"
    "kinds_ok obs s \<longrightarrow> kinds_ok obs s'"
    and e: "\<not> kvalid q \<and> kinds s' = kinds s \<and> obs (rdb s') = obs (rdb s) \<or>
     (\<exists>h. kind_created obs (c_str qid) h s s' \<and> (kvalid q \<longrightarrow> kueue_inv obs h [] q s' \<and>
        queueKind q = Some (InKinds (c_str qid)) \<and> maxKey q = 0))"
    using ctor_created [OF assms] by (elim exE conjE) (rule that)
  from e show ?thesis
  proof (elim disjE exE conjE)
    assume "\<not> kvalid q" "kinds s' = kinds s" "obs (rdb s') = obs (rdb s)"
    then show ?thesis using q by (auto simp: live_kind_def deref_kind_def split: kindref.splits)
  next
    fix h
    assume h: "kind_created obs (c_str qid) h s s'" "kvalid q \<longrightarrow> kueue_inv obs h [] q s' \<and>
        queueKind q = Some (InKinds (c_str qid)) \<and> maxKey q = 0"
    then have "h \<notin> cfs (obs (rdb s))" "cells (obs (rdb s')) = (cells (obs (rdb s)))(h := (\<lambda>_. Absent))"
      by (simp_all add: kind_created_def)
    then show ?thesis using q h kind_created_keeps [OF h(1)] by auto
  qed
qed

end

section \<open>The interface\<close>

datatype 'a qop = Enq 'a | Deq

datatype 'a qres = Enqueued bool | Dequeued "'a option"

fun q_run :: "('a \<Rightarrow> 's \<Rightarrow> (bool \<times> 's) option) \<Rightarrow> ('s \<Rightarrow> ('a option \<times> 's) option) \<Rightarrow>
    'a qop list \<Rightarrow> 's \<Rightarrow> ('a qres list \<times> 's) option" where
  "q_run enq deq [] s = Some ([], s)"
| "q_run enq deq (Enq a # ops) s = do {
     (b, s) \<leftarrow> enq a s;
     (rs, s) \<leftarrow> q_run enq deq ops s;
     Some (Enqueued b # rs, s)
   }"
| "q_run enq deq (Deq # ops) s = do {
     (r, s) \<leftarrow> deq s;
     (rs, s) \<leftarrow> q_run enq deq ops s;
     Some (Dequeued r # rs, s)
   }"

text \<open>The messages that were accepted and the messages that came out, in order.\<close>

fun accepted :: "'a qop list \<Rightarrow> 'a qres list \<Rightarrow> 'a list" where
  "accepted (Enq a # ops) (Enqueued b # rs) = (if b then a # accepted ops rs else accepted ops rs)"
| "accepted (_ # ops) (_ # rs) = accepted ops rs"
| "accepted _ _ = []"

fun delivered :: "'a qres list \<Rightarrow> 'a list" where
  "delivered (Dequeued (Some a) # rs) = a # delivered rs"
| "delivered (_ # rs) = delivered rs"
| "delivered [] = []"

definition enqs :: "'a qop list \<Rightarrow> nat" where
  "enqs ops = length (filter (\<lambda>x. x \<noteq> Deq) ops)"

locale fifo =
  fixes holds :: "'a list \<Rightarrow> 's \<Rightarrow> bool"
    and room :: "'s \<Rightarrow> nat"
    and enq :: "'a \<Rightarrow> 's \<Rightarrow> (bool \<times> 's) option"
    and deq :: "'s \<Rightarrow> ('a option \<times> 's) option"
  assumes enq_law: "holds xs s \<Longrightarrow> 0 < room s \<Longrightarrow> \<exists>b s'. enq a s = Some (b, s') \<and>
      holds (if b then xs @ [a] else xs) s' \<and> room s - 1 \<le> room s'"
    and deq_law: "holds xs s \<Longrightarrow> \<exists>r s'. deq s = Some (r, s') \<and> room s \<le> room s' \<and>
      (case r of None \<Rightarrow> holds xs s' | Some a \<Rightarrow> \<exists>ys. xs = a # ys \<and> holds ys s')"
begin

lemma run_fifo:
  "holds xs s \<Longrightarrow> enqs ops \<le> room s \<Longrightarrow> \<exists>rs s' ys. q_run enq deq ops s = Some (rs, s') \<and>
     holds ys s' \<and> xs @ accepted ops rs = delivered rs @ ys"
proof (induction ops arbitrary: xs s)
  case (Cons x ops)
  show ?case
  proof (cases x)
    case (Enq a)
    have "0 < room s" using Cons.prems(2) Enq by (simp add: enqs_def)
    from enq_law [OF Cons.prems(1) this, of a] obtain b s1 where
      e: "enq a s = Some (b, s1)" "holds (if b then xs @ [a] else xs) s1" "room s - 1 \<le> room s1" by blast
    have "enqs ops \<le> room s1" using Cons.prems(2) e(3) Enq by (simp add: enqs_def)
    from Cons.IH [OF e(2) this] obtain rs s' ys where
      "q_run enq deq ops s1 = Some (rs, s')" "holds ys s'"
      "(if b then xs @ [a] else xs) @ accepted ops rs = delivered rs @ ys" by blast
    with e Enq show ?thesis
      by (intro exI [where x = "Enqueued b # rs"] exI [where x = s'] exI [where x = ys]) (auto split: if_splits)
  next
    case Deq
    from deq_law [OF Cons.prems(1)] obtain r s1 where d: "deq s = Some (r, s1)" "room s \<le> room s1"
      "case r of None \<Rightarrow> holds xs s1 | Some a \<Rightarrow> \<exists>ys. xs = a # ys \<and> holds ys s1" by blast
    have le: "enqs ops \<le> room s1" using Cons.prems(2) d(2) Deq by (simp add: enqs_def)
    obtain zs where z: "holds zs s1" "xs = (case r of None \<Rightarrow> zs | Some a \<Rightarrow> a # zs)"
      using d(3) by (cases r) auto
    from Cons.IH [OF z(1) le] obtain rs s' ys where
      "q_run enq deq ops s1 = Some (rs, s')" "holds ys s'" "zs @ accepted ops rs = delivered rs @ ys" by blast
    with d(1) z(2) Deq show ?thesis
      by (intro exI [where x = "Dequeued r # rs"] exI [where x = s'] exI [where x = ys]) (cases r; simp)
  qed
qed simp

end

section \<open>The queue is an instance\<close>

definition kueue_enq ::
  "'d rocksdb \<Rightarrow> data \<Rightarrow> KueueImpl \<times> 'd StoreImpl \<Rightarrow> (bool \<times> KueueImpl \<times> 'd StoreImpl) option" where
  "kueue_enq eng v qs = do {
     (st, q, s) \<leftarrow> KueueImpl_put eng (Some SC_Ok) (Some v) (fst qs) (snd qs);
     Some (st = Some SC_Ok, q, s)
   }"

text \<open>A client's \<open>take\<close>: read the message out of the array and release it.\<close>

definition kueue_deq ::
  "'d rocksdb \<Rightarrow> KueueImpl \<times> 'd StoreImpl \<Rightarrow> (data option \<times> KueueImpl \<times> 'd StoreImpl) option" where
  "kueue_deq eng qs = do {
     w \<leftarrow> KueueImpl_take_timeout eng (Some SC_Ok) (Some 0) 1 (fst qs) (snd qs);
     case w of
       Blocked \<Rightarrow> None
     | Done (p, st, len, q, s) \<Rightarrow> do {
         n \<leftarrow> len;
         v \<leftarrow> bytes_toString (bytes_ctor p n) s;
         s \<leftarrow> bytes_dtor (bytes_ctor p n) s;
         Some (if st = Some SC_Ok then Some v else None, q, s)
       }
   }"

definition kueue_holds :: "('d \<Rightarrow> dbobs) \<Rightarrow> data list \<Rightarrow> KueueImpl \<times> 'd StoreImpl \<Rightarrow> bool" where
  "kueue_holds obs msgs qs \<longleftrightarrow> (\<exists>h. kueue_inv obs h msgs (fst qs) (snd qs))"

definition kueue_room :: "KueueImpl \<times> 'd StoreImpl \<Rightarrow> nat" where
  "kueue_room qs = min (2 ^ 64 - 1 - unat (maxKey (fst qs))) (nat (2 ^ 63 - 1 - sint (kcount (fst qs))))"

lemma kueue_room_inv:
  assumes "kueue_inv obs h msgs q s"
  shows "kueue_room (q, s) = min (2 ^ 64 - 1 - unat (maxKey q)) (2 ^ 63 - 1 - length msgs)"
proof -
  have "kueue_repr (obs (rdb s)) h msgs q" using assms by (simp add: kueue_inv_def)
  note r = kueue_reprD [OF this]
  have "nat (2 ^ 63 - 1 - sint (kcount q)) = 2 ^ 63 - 1 - length msgs" unfolding r(8) by simp
  then show ?thesis by (simp only: kueue_room_def fst_conv)
qed

lemma delete_handed_out:
  assumes f: "fetched g p (Some 0) len (Some v) s s'" and fr: "heap_fresh s"
  shows "\<exists>n w. len = Some n \<and> bytes_toString (bytes_ctor p n) s' = Some w \<and> (g = 0 \<longrightarrow> w = v) \<and>
    bytes_dtor (bytes_ctor p n) s' = Some (s'\<lparr>heap := heap s\<rparr>)"
proof -
  have "(heap s)(next_addr s := None) = heap s" using fr by (simp add: fun_upd_idem)
  then show ?thesis using f
    by (cases "g = 0")
       (auto simp: fetched_def bytes_ctor_def same_heap_def bytes_dtor_def bytes_clear_def
        bytes_toString_def read_array_def delete_array_def split: if_splits)
qed

context rocksdb_spec
begin

text \<open>One call of the client, and what else it leaves alone.\<close>

lemma kueue_enq_spec:
  assumes i: "kueue_inv obs h msgs q s" and room: "unat (maxKey q) + 1 < 2 ^ 64" "length msgs + 1 < 2 ^ 63"
  shows "\<exists>b q' s'. kueue_enq eng v (q, s) = Some (b, q', s') \<and> kueue_inv obs h (if b then msgs @ [v] else msgs) q' s' \<and>
    only_cf h (obs (rdb s)) (obs (rdb s')) \<and> store_frame s s' \<and> queueKind q' = queueKind q \<and>
    unat (maxKey q') \<le> unat (maxKey q) + 1"
proof -
  have mx: "maxKey q \<noteq> MAX_KEY" using room(1) by (auto simp: MAX_KEY_def)
  obtain c q' s' where p: "KueueImpl_put eng (Some SC_Ok) (Some v) q s = Some (assign c (Some SC_Ok), q', s')"
    and i': "kueue_inv obs h (if c = 0 then msgs @ [slice_of (Some v)] else msgs) q' s'"
    and f: "only_cf h (obs (rdb s)) (obs (rdb s'))" "store_frame s s'"
    and q': "q' = (if c = 0 then q\<lparr>maxKey := maxKey q + 1, kcount := kcount q + 1,
        totalPuts := totalPuts q + 1, signals := signals q + (if msgs = [] then 1 else 0)\<rparr> else q)"
    using kueue_put_spec [OF i mx room(2), of "Some SC_Ok" "Some v"] by (elim exE conjE) (rule that)
  have "kueue_enq eng v (q, s) = Some (c = 0, q', s')" using p [simplified] by (simp add: kueue_enq_def)
  moreover have "unat (maxKey q') \<le> unat (maxKey q) + 1" "queueKind q' = queueKind q"
    using q' unat_Suc_u64 [OF room(1)] by auto
  ultimately show ?thesis using i' f by auto
qed

lemma kueue_deq_spec:
  assumes i: "kueue_inv obs h msgs q s"
  shows "\<exists>r q' s'. kueue_deq eng (q, s) = Some (r, q', s') \<and>
    kueue_inv obs h (if r = None then msgs else tl msgs) q' s' \<and> (\<forall>v. r = Some v \<longrightarrow> msgs \<noteq> [] \<and> hd msgs = v) \<and>
    only_cf h (obs (rdb s)) (obs (rdb s')) \<and> store_frame s s' \<and> queueKind q' = queueKind q \<and> maxKey q' = maxKey q"
proof (cases msgs)
  case Nil
  have "kueue_deq eng (q, s) = Some (None, q, s)"
    using kueue_take_empty(2) [OF i [unfolded Nil], of "Some SC_Ok" "Some 0" 1]
    by (simp add: kueue_deq_def bytes_toString_def bytes_ctor_def bytes_dtor_def bytes_clear_def)
  then show ?thesis using i by simp
next
  case (Cons v vs)
  obtain c p len q' s' g where t: "KueueImpl_take eng (Some SC_Ok) (Some 0) q s =
      Some (Done (p, assign c (Some SC_Ok), len, q', s'))"
    "KueueImpl_take_timeout eng (Some SC_Ok) (Some 0) 1 q s = KueueImpl_take eng (Some SC_Ok) (Some 0) q s"
    and i': "kueue_inv obs h (if c = 0 then vs else v # vs) q' s'"
    and f: "only_cf h (obs (rdb s)) (obs (rdb s'))" "store_frame s s'"
    and g: "fetched g p (Some 0) len (Some v) s s'" "c = 0 \<longrightarrow> g = 0"
    and q': "q' = (if c = 0 then popped (v # vs) q else q)"
    using kueue_take_spec [OF i [unfolded Cons], of "Some SC_Ok" 0 1] by (elim exE conjE) (rule that)
  have fr: "heap_fresh s" using i by (simp add: kueue_inv_def store_wf_def)
  obtain n w where n: "len = Some n" "bytes_toString (bytes_ctor p n) s' = Some w" "g = 0 \<longrightarrow> w = v"
    "bytes_dtor (bytes_ctor p n) s' = Some (s'\<lparr>heap := heap s\<rparr>)"
    using delete_handed_out [OF g(1) fr] by blast
  let ?s = "s'\<lparr>heap := heap s\<rparr>" and ?msgs = "if c = 0 then vs else v # vs"
  have d: "kueue_deq eng (q, s) = Some (if c = 0 then Some v else None, q', ?s)"
    using t [simplified] n g(2) by (auto simp: kueue_deq_def)
  have "heap_fresh ?s"
    using fr g(1) by (auto simp: heap_fresh_def fetched_def same_heap_def less_Suc_eq split: if_splits)
  then have "kueue_inv obs h ?msgs q' ?s"
    using i' by (auto simp: kueue_inv_def store_wf_def live_kind_def deref_kind_def split: kindref.splits)
  moreover have "store_frame s ?s" using f(2) by (simp add: store_frame_def)
  moreover have "queueKind q' = queueKind q" "maxKey q' = maxKey q" using q' by (simp_all add: popped_def)
  ultimately show ?thesis using d Cons f(1)
    by (intro exI [where x = "if c = 0 then Some v else None"] exI [where x = q'] exI [where x = ?s]) auto
qed

lemma kueue_enq_law:
  assumes "kueue_holds obs msgs qs" "0 < kueue_room qs"
  shows "\<exists>b qs'. kueue_enq eng v qs = Some (b, qs') \<and>
    kueue_holds obs (if b then msgs @ [v] else msgs) qs' \<and> kueue_room qs - 1 \<le> kueue_room qs'"
proof -
  obtain h q s where qs: "qs = (q, s)" and i: "kueue_inv obs h msgs q s"
    using assms(1) by (cases qs) (auto simp: kueue_holds_def)
  have rm: "unat (maxKey q) + 1 < 2 ^ 64" "length msgs + 1 < 2 ^ 63"
    using assms(2) unfolding qs kueue_room_inv [OF i] by linarith+
  obtain b q' s' where e: "kueue_enq eng v (q, s) = Some (b, q', s')"
    "kueue_inv obs h (if b then msgs @ [v] else msgs) q' s'" "unat (maxKey q') \<le> unat (maxKey q) + 1"
    using kueue_enq_spec [OF i rm] by blast
  have "kueue_room qs - 1 \<le> kueue_room (q', s')"
    using e(3) unfolding qs kueue_room_inv [OF i] kueue_room_inv [OF e(2)] by (auto split: if_splits)
  then show ?thesis using e qs by (auto simp: kueue_holds_def)
qed

lemma kueue_deq_law:
  assumes "kueue_holds obs msgs qs"
  shows "\<exists>r qs'. kueue_deq eng qs = Some (r, qs') \<and> kueue_room qs \<le> kueue_room qs' \<and>
    (case r of None \<Rightarrow> kueue_holds obs msgs qs' | Some v \<Rightarrow> \<exists>vs. msgs = v # vs \<and> kueue_holds obs vs qs')"
proof -
  obtain h q s where qs: "qs = (q, s)" and i: "kueue_inv obs h msgs q s"
    using assms(1) by (cases qs) (auto simp: kueue_holds_def)
  obtain r q' s' where d: "kueue_deq eng (q, s) = Some (r, q', s')"
    "kueue_inv obs h (if r = None then msgs else tl msgs) q' s'" "\<forall>v. r = Some v \<longrightarrow> msgs \<noteq> [] \<and> hd msgs = v"
    "maxKey q' = maxKey q"
    using kueue_deq_spec [OF i] by blast
  have "kueue_room qs \<le> kueue_room (q', s')"
    using d(4) unfolding qs kueue_room_inv [OF i] kueue_room_inv [OF d(2)] by auto
  then show ?thesis using d(1-3) qs by (cases r; cases msgs) (auto simp: kueue_holds_def)
qed

end

sublocale rocksdb_spec \<subseteq> kueue: fifo "kueue_holds obs" kueue_room "kueue_enq eng" "kueue_deq eng"
  by unfold_locales (fact kueue_enq_law kueue_deq_law)+

context rocksdb_spec
begin

lemma kueue_run_fifo:
  "kueue_holds obs msgs qs \<Longrightarrow> enqs ops \<le> kueue_room qs \<Longrightarrow>
   \<exists>rs qs' msgs'. q_run (kueue_enq eng) (kueue_deq eng) ops qs = Some (rs, qs') \<and>
     kueue_holds obs msgs' qs' \<and> msgs @ accepted ops rs = delivered rs @ msgs'"
  by (rule kueue.run_fifo)

end

text \<open>
  What a failed seek does to a queue that is opened again: the column family \<open>q\<close> holds two messages under the keys 0 and
  1, both seeks fail, and the queue is valid and empty; its next message gets the key 0 and overwrites the first
  one.
\<close>

lemma failed_seek_restarts_queue:
  "map_option (\<lambda>(q, s'). (kvalid q, minKey q, maxKey q, kcount q)) (KueueImpl_ctor mem_engine ''q''
     (ex_qstore\<lparr>rdb := (rdb ex_qstore)\<lparr>m_faults := [Status_of kIOError kNone, Status_of kIOError kNone]\<rparr>\<rparr>)) =
   Some (True, 0, 0, 0)"
  by code_simp

section \<open>Properties\<close>

text \<open>
  C1: the queue is a FIFO queue.  Any sequence of puts and takes by a client runs to its end, for
  every engine with the documented behaviour, also when single calls fail: the messages that were in
  the queue followed by the messages accepted are the messages delivered followed by the messages
  the queue holds at the end.  Nothing is lost, duplicated or reordered.  The only bound is that the
  keys and the signed counter do not run out.
\<close>

theorem kueue_fifo:
  assumes "rocksdb_spec eng obs pending" "kueue_holds obs msgs qs" "enqs ops \<le> kueue_room qs"
  shows "\<exists>rs qs' msgs'. q_run (kueue_enq eng) (kueue_deq eng) ops qs = Some (rs, qs') \<and>
     kueue_holds obs msgs' qs' \<and> msgs @ accepted ops rs = delivered rs @ msgs'"
  by (rule rocksdb_spec.kueue_run_fifo [OF assms])

theorem kueue_fifo_witness:
  "\<exists>rs qs' msgs'. q_run (kueue_enq mem_engine) (kueue_deq mem_engine) [Deq, Enq [3]] (ex_kueue 2, ex_qstore) =
       Some (rs, qs') \<and>
     kueue_holds mem_obs msgs' qs' \<and> delivered rs = [[9]] \<and> msgs' = [[8], [3]]"
proof -
  let ?qs = "(ex_kueue 2, ex_qstore)" and ?ops = "[Deq, Enq [3 :: byte]]"
  have h: "kueue_holds mem_obs [[9], [8]] ?qs"
    using ex_queue by (auto simp: kueue_holds_def)
  have r: "enqs ?ops \<le> kueue_room ?qs"
    unfolding kueue_room_inv [OF ex_queue] by (simp add: enqs_def ex_kueue_def)
  have e: "map_option fst (q_run (kueue_enq mem_engine) (kueue_deq mem_engine) ?ops ?qs) =
      Some [Dequeued (Some [9]), Enqueued True]"
    by code_simp
  obtain rs qs' msgs' where q: "q_run (kueue_enq mem_engine) (kueue_deq mem_engine) ?ops ?qs = Some (rs, qs')"
    "kueue_holds mem_obs msgs' qs'" "[[9], [8]] @ accepted ?ops rs = delivered rs @ msgs'"
    using kueue_fifo [OF mem.rocksdb_spec_axioms h r] by blast
  moreover have "rs = [Dequeued (Some [9]), Enqueued True]" using e unfolding q(1) by simp
  ultimately show ?thesis by (auto simp del: q_run.simps)
qed

text \<open>
  C18: the constructor on a name the store does not know creates a column family of its own; unless
  the object is invalid it is an empty queue on it.  The contents of all other column families, the
  kinds of the store and the invariant that they are distinct are kept.
\<close>

theorem kueue_create:
  assumes "rocksdb_spec eng obs pending" "store_wf s" "open_flag s" "map_of (kinds s) (c_str qid) = None"
    "kinds_ok obs s"
  shows "\<exists>q s'. KueueImpl_ctor eng qid s = Some (q, s') \<and> store_wf s' \<and> open_flag s' \<and> kinds_ok obs s' \<and>
    (\<forall>h \<in> cfs (obs (rdb s)). cells (obs (rdb s')) h = cells (obs (rdb s)) h) \<and>
    (\<forall>k h. live_kind s k h \<longrightarrow> live_kind s' k h) \<and>
    (KueueImpl_isValid q \<longrightarrow> queueKind q = Some (InKinds (c_str qid)) \<and>
       (\<exists>h. h \<notin> cfs (obs (rdb s)) \<and> kueue_inv obs h [] q s'))"
  using rocksdb_spec.ctor_new [OF assms(1-4)] assms(5) by (auto simp: KueueImpl_isValid_def)

theorem kueue_create_witness:
  "\<exists>q s' h. KueueImpl_ctor mem_engine ''new'' ex_store = Some (q, s') \<and> kinds_ok mem_obs s' \<and>
    h \<noteq> 5 \<and> h \<noteq> 6 \<and> kueue_inv mem_obs h [] q s'"
proof -
  have "map_of (kinds ex_store) (c_str ''new'') = None" by code_simp
  moreover have "kinds_ok mem_obs ex_store" by (rule ex_store_kinds_ok)
  moreover have "map_option (KueueImpl_isValid \<circ> fst) (KueueImpl_ctor mem_engine ''new'' ex_store) = Some True"
    by code_simp
  moreover have "cfs (mem_obs (rdb ex_store)) = {5, 6}" by (simp add: mem_obs_def ex_store_def)
  ultimately show ?thesis
    using kueue_create [OF mem.rocksdb_spec_axioms ex_store_wf, of "''new''"] by auto
qed

end
