(* ===== verification/Librocks.thy ===== *)
theory Librocks
  imports Store_Lifecycle
begin

text \<open>
  The entry point \<^verbatim>\<open>openStore\<close> of the library (\<^verbatim>\<open>src/impl/librocks.cpp\<close>).  A null result gives
  back the machine.
\<close>

definition openStore ::
  "'d rocksdb \<Rightarrow> status \<Rightarrow> string \<Rightarrow> 'd world \<Rightarrow> (('d world + 'd StoreImpl) \<times> status) option" where
  "openStore eng status pth w = do {
     let status = assign SC_Ok status;
     impl \<leftarrow> StoreImpl_ctor eng pth w;
     if StoreImpl_isOpen impl then Some (Inr impl, status)
     else do {
       let status = assign (StoreImpl_getCode impl) status;
       impl \<leftarrow> StoreImpl_close eng impl;
       w \<leftarrow> StoreImpl_dtor eng impl;
       Some (Inl w, status)
     }
   }"

context rocksdb_spec
begin

lemma openStore_ok:
  assumes "StoreImpl_ctor eng pth w = Some s" "open_flag s"
  shows "openStore eng status pth w = Some (Inr s, assign SC_Ok status)"
  using assms by (simp add: openStore_def StoreImpl_isOpen_def)

lemma openStore_fails:
  assumes "StoreImpl_ctor eng pth w = Some s" "\<not> open_flag s" "store_wf s"
  shows "openStore eng status pth w = Some (Inl (world.truncate s), assign (code s) status)"
proof -
  have "assign x (assign SC_Ok status) = assign x status" for x by (cases status) auto
  then show ?thesis using assms close_closed [OF assms(3,2), of eng]
    by (simp add: openStore_def StoreImpl_isOpen_def StoreImpl_getCode_def StoreImpl_dtor_def)
qed

end

end
