(* ===== verification/Kueue_Manager.thy ===== *)
theory Kueue_Manager
  imports Kueue_Fifo Librocks
begin

text \<open>
  \<^verbatim>\<open>KueueManagerImpl\<close> (\<^verbatim>\<open>include/impl/KueueManagerImpl.h\<close>) and \<^verbatim>\<open>openKueueManager\<close>
  (\<^verbatim>\<open>src/impl/librocks.cpp\<close>): a store and the queues opened on it, by name.  The manager owns the
  store (a null pointer is \<open>Inl\<close> with the machine) and the queue objects; a pointer to a queue is its
  name in the map.
\<close>

section \<open>Definitions\<close>

record 'd KueueManagerImpl =
  mgr_monitor :: bool
  mgr_store :: "'d world + 'd StoreImpl"
  mgr_version :: string
  mgr_queues :: "(string \<times> KueueImpl) list"

definition KueueManagerImpl_isOpen :: "'d KueueManagerImpl \<Rightarrow> bool" where
  "KueueManagerImpl_isOpen m = (case mgr_store m of Inl _ \<Rightarrow> False | Inr s \<Rightarrow> StoreImpl_isOpen s)"

definition KueueManagerImpl_validateOpen :: "status \<Rightarrow> 'd KueueManagerImpl \<Rightarrow> bool \<times> status" where
  "KueueManagerImpl_validateOpen status m =
     (if KueueManagerImpl_isOpen m then (True, assign SC_Ok status) else (False, assign SC_Closed status))"

definition mgr_synchronize :: "'d KueueManagerImpl \<Rightarrow> 'd KueueManagerImpl option" where
  "mgr_synchronize m = (if mgr_monitor m then None else Some (m\<lparr>mgr_monitor := True\<rparr>))"

definition KueueManagerImpl_ctor ::
  "'d rocksdb \<Rightarrow> status \<Rightarrow> string \<Rightarrow> 'd world \<Rightarrow> ('d KueueManagerImpl \<times> status) option" where
  "KueueManagerImpl_ctor eng status pth w = do {
     let status = assign SC_Ok status;
     impl \<leftarrow> StoreImpl_ctor eng pth w;
     if StoreImpl_isOpen impl
     then Some (\<lparr>mgr_monitor = False, mgr_store = Inr impl,
                 mgr_version = GetRocksVersionAsString eng, mgr_queues = []\<rparr>, status)
     else do {
       let status = assign (StoreImpl_getCode impl) status;
       impl \<leftarrow> StoreImpl_close eng impl;
       w \<leftarrow> StoreImpl_dtor eng impl;
       Some (\<lparr>mgr_monitor = False, mgr_store = Inl w, mgr_version = '''', mgr_queues = []\<rparr>, status)
     }
   }"

definition KueueManagerImpl_get ::
  "'d rocksdb \<Rightarrow> status \<Rightarrow> string \<Rightarrow> 'd KueueManagerImpl \<Rightarrow>
   (string option \<times> status \<times> 'd KueueManagerImpl) option" where
  "KueueManagerImpl_get eng status qid m = do {
     m \<leftarrow> mgr_synchronize m;
     let (v, status) = KueueManagerImpl_validateOpen status m;
     (r, m) \<leftarrow>
       (if v
        then (let identifier = c_str qid in
              if map_of (mgr_queues m) identifier \<noteq> None then Some (Some identifier, m)
              else (case mgr_store m of
                      Inl _ \<Rightarrow> None
                    | Inr s \<Rightarrow> do {
                        (q, s) \<leftarrow> KueueImpl_ctor eng identifier s;
                        Some (Some identifier, m\<lparr>mgr_store := Inr s,
                          mgr_queues := AList.update identifier q (mgr_queues m)\<rparr>)
                      }))
        else Some (None, m));
     Some (r, status, m\<lparr>mgr_monitor := False\<rparr>)
   }"

text \<open>\<open>delete\<close> of a queue object releases nothing but the object itself.\<close>

definition KueueManagerImpl_close' :: "'d rocksdb \<Rightarrow> 'd KueueManagerImpl \<Rightarrow> 'd KueueManagerImpl option" where
  "KueueManagerImpl_close' eng m =
     (if KueueManagerImpl_isOpen m
      then (case mgr_store m of
              Inl _ \<Rightarrow> None
            | Inr s \<Rightarrow> do {
                w \<leftarrow> StoreImpl_dtor eng s;
                Some (m\<lparr>mgr_queues := [], mgr_store := Inl w\<rparr>)
              })
      else Some m)"

definition KueueManagerImpl_close :: "'d rocksdb \<Rightarrow> 'd KueueManagerImpl \<Rightarrow> 'd KueueManagerImpl option" where
  "KueueManagerImpl_close eng m = do {
     m \<leftarrow> mgr_synchronize m;
     m \<leftarrow> KueueManagerImpl_close' eng m;
     Some (m\<lparr>mgr_monitor := False\<rparr>)
   }"

text \<open>A closed store that is still pointed to is not deleted; its machine goes on.\<close>

definition KueueManagerImpl_dtor :: "'d rocksdb \<Rightarrow> 'd KueueManagerImpl \<Rightarrow> 'd world option" where
  "KueueManagerImpl_dtor eng m = do {
     m \<leftarrow> KueueManagerImpl_close' eng m;
     Some (case mgr_store m of Inl w \<Rightarrow> w | Inr s \<Rightarrow> world.truncate s)
   }"

definition KueueManagerImpl_compactAll ::
  "'d rocksdb \<Rightarrow> status \<Rightarrow> 'd KueueManagerImpl \<Rightarrow> (status \<times> 'd KueueManagerImpl) option" where
  "KueueManagerImpl_compactAll eng status m = do {
     m \<leftarrow> mgr_synchronize m;
     let (v, status) = KueueManagerImpl_validateOpen status m;
     (status, m) \<leftarrow>
       (if v
        then (case mgr_store m of
                Inl _ \<Rightarrow> None
              | Inr s \<Rightarrow> do {
                  (status, s) \<leftarrow> StoreImpl_compactAll eng status s;
                  Some (status, m\<lparr>mgr_store := Inr s\<rparr>)
                })
        else Some (status, m));
     Some (status, m\<lparr>mgr_monitor := False\<rparr>)
   }"

definition KueueManagerImpl_syncWal ::
  "'d rocksdb \<Rightarrow> status \<Rightarrow> 'd KueueManagerImpl \<Rightarrow> (status \<times> 'd KueueManagerImpl) option" where
  "KueueManagerImpl_syncWal eng status m = do {
     m \<leftarrow> mgr_synchronize m;
     let (v, status) = KueueManagerImpl_validateOpen status m;
     m \<leftarrow>
       (if v
        then (case mgr_store m of
                Inl _ \<Rightarrow> None
              | Inr s \<Rightarrow> do {
                  s \<leftarrow> StoreImpl_syncWAL eng s;
                  Some (m\<lparr>mgr_store := Inr s\<rparr>)
                })
        else Some m);
     Some (status, m\<lparr>mgr_monitor := False\<rparr>)
   }"

definition KueueManagerImpl_getRocksDBVersion :: "'d KueueManagerImpl \<Rightarrow> string" where
  "KueueManagerImpl_getRocksDBVersion m = c_str (mgr_version m)"

definition openKueueManager ::
  "'d rocksdb \<Rightarrow> status \<Rightarrow> string \<Rightarrow> 'd world \<Rightarrow> (('d world + 'd KueueManagerImpl) \<times> status) option" where
  "openKueueManager eng status pth w = do {
     let status = assign SC_Ok status;
     (mgr, status) \<leftarrow> KueueManagerImpl_ctor eng status pth w;
     if KueueManagerImpl_isOpen mgr then Some (Inr mgr, status)
     else do {
       mgr \<leftarrow> KueueManagerImpl_close eng mgr;
       w \<leftarrow> KueueManagerImpl_dtor eng mgr;
       Some (Inl w, status)
     }
   }"

section \<open>Invariant\<close>

text \<open>
  Every valid queue of the manager sits on the kind of its own name and holds some messages;
  \<open>mgr_holds obs m n msgs\<close> names the messages of one queue.
\<close>

definition mgr_holds :: "('d \<Rightarrow> dbobs) \<Rightarrow> 'd KueueManagerImpl \<Rightarrow> string \<Rightarrow> data list \<Rightarrow> bool" where
  "mgr_holds obs m n msgs \<longleftrightarrow> (\<exists>s q h. mgr_store m = Inr s \<and> map_of (mgr_queues m) n = Some q \<and>
     queueKind q = Some (InKinds n) \<and> kueue_inv obs h msgs q s)"

definition mgr_inv :: "('d \<Rightarrow> dbobs) \<Rightarrow> 'd KueueManagerImpl \<Rightarrow> bool" where
  "mgr_inv obs m \<longleftrightarrow> \<not> mgr_monitor m \<and> distinct (map fst (mgr_queues m)) \<and>
     (case mgr_store m of
        Inl w \<Rightarrow> mgr_queues m = []
      | Inr s \<Rightarrow> store_wf s \<and> open_flag s \<and> kinds_ok obs s \<and>
          (\<forall>n q. map_of (mgr_queues m) n = Some q \<and> kvalid q \<longrightarrow> (\<exists>msgs. mgr_holds obs m n msgs)))"

text \<open>A change of one column family leaves the queues of the others alone.\<close>

lemma kueue_inv_other:
  assumes "kueue_inv obs h' msgs q s" "only_cf h (obs (rdb s)) (obs (rdb s'))" "store_frame s s'"
    "store_wf s'" "h' \<noteq> h"
  shows "kueue_inv obs h' msgs q s'"
proof (rule kueue_inv_step [OF assms(1,4,3) refl])
  have "cells (obs (rdb s')) h' = cells (obs (rdb s)) h'"
    using assms(2,5) unfolding only_cf_def by (metis fun_upd_other)
  then show "kueue_repr (obs (rdb s')) h' msgs q" using assms(1) by (simp add: kueue_inv_def kueue_repr_def)
qed

lemma live_kind_cfs: "kinds_ok obs s \<Longrightarrow> live_kind s (InKinds n) h \<Longrightarrow> h \<in> cfs (obs (rdb s))"
  by (force simp: live_kind_def deref_kind_def kinds_ok_def dest!: map_of_SomeD)

lemma mgr_get_cached:
  assumes "mgr_inv obs m" "mgr_store m = Inr s" "map_of (mgr_queues m) (c_str qid) = Some q"
  shows "KueueManagerImpl_get eng status qid m = Some (Some (c_str qid), assign SC_Ok status, m)"
  using assms
  by (simp add: KueueManagerImpl_get_def mgr_inv_def mgr_synchronize_def KueueManagerImpl_validateOpen_def
      KueueManagerImpl_isOpen_def StoreImpl_isOpen_def Let_def del: map_of_eq_Some_iff)

lemma mgr_get_closed:
  assumes "mgr_inv obs m" "mgr_store m = Inl w"
  shows "KueueManagerImpl_get eng status qid m = Some (None, assign SC_Closed status, m)"
  using assms
  by (simp add: KueueManagerImpl_get_def mgr_inv_def mgr_synchronize_def KueueManagerImpl_validateOpen_def
      KueueManagerImpl_isOpen_def Let_def)

context rocksdb_spec
begin

text \<open>A queue that the manager does not have yet is made and cached.\<close>

lemma mgr_get_adds:
  assumes inv: "mgr_inv obs m" "mgr_store m = Inr s" and n: "map_of (mgr_queues m) (c_str qid) = None"
    and c: "KueueImpl_ctor eng (c_str qid) s = Some (q, s')" and s': "store_wf s'" "open_flag s'" "kinds_ok obs s'"
    and same: "\<forall>h \<in> cfs (obs (rdb s)). cells (obs (rdb s')) h = cells (obs (rdb s)) h"
    and lk: "\<forall>k h. live_kind s k h \<longrightarrow> live_kind s' k h"
    and v: "kvalid q \<longrightarrow> queueKind q = Some (InKinds (c_str qid)) \<and> (\<exists>h. kueue_inv obs h msgs q s')"
  shows "\<exists>m' q s'. KueueManagerImpl_get eng status qid m = Some (Some (c_str qid), assign SC_Ok status, m') \<and>
    mgr_inv obs m' \<and> mgr_store m' = Inr s' \<and> map_of (mgr_queues m') (c_str qid) = Some q \<and>
    (kvalid q \<longrightarrow> mgr_holds obs m' (c_str qid) msgs) \<and>
    (\<forall>n ms. n \<noteq> c_str qid \<and> mgr_holds obs m n ms \<longrightarrow> mgr_holds obs m' n ms)"
proof -
  have s: "store_wf s" "open_flag s" and ko: "kinds_ok obs s" using inv by (simp_all add: mgr_inv_def)
  have all: "map_of (mgr_queues m) n = Some q \<Longrightarrow> kvalid q \<Longrightarrow> \<exists>msgs. mgr_holds obs m n msgs" for n q
    using inv by (simp add: mgr_inv_def del: map_of_eq_Some_iff)
  let ?m = "m\<lparr>mgr_store := Inr s', mgr_queues := AList.update (c_str qid) q (mgr_queues m)\<rparr>"
  have g: "KueueManagerImpl_get eng status qid m = Some (Some (c_str qid), assign SC_Ok status, ?m)"
    using inv n c s
    by (simp add: KueueManagerImpl_get_def mgr_inv_def mgr_synchronize_def KueueManagerImpl_validateOpen_def
        KueueManagerImpl_isOpen_def StoreImpl_isOpen_def Let_def del: map_of_eq_Some_iff)
  have new: "kvalid q \<longrightarrow> mgr_holds obs ?m (c_str qid) msgs" using v by (auto simp: mgr_holds_def update_conv)
  have old: "mgr_holds obs ?m n' msgs" if h: "mgr_holds obs m n' msgs" "n' \<noteq> c_str qid" for n' msgs
  proof -
    obtain q' h where q': "map_of (mgr_queues m) n' = Some q'" "queueKind q' = Some (InKinds n')"
      "kueue_inv obs h msgs q' s" using h(1) inv(2) by (auto simp: mgr_holds_def)
    have "live_kind s (InKinds n') h" using q'(2,3) by (auto simp: kueue_inv_def)
    then have "h \<in> cfs (obs (rdb s))" "live_kind s' (InKinds n') h"
      using live_kind_cfs [OF ko] lk by blast+
    with q' same s' have "kueue_inv obs h msgs q' s'"
      by (auto simp: kueue_inv_def kueue_repr_def)
    with q' h(2) show ?thesis by (auto simp: mgr_holds_def update_conv)
  qed
  have "mgr_inv obs ?m"
  proof -
    have "\<exists>msgs. mgr_holds obs ?m n' msgs"
      if new_q: "map_of (mgr_queues ?m) n' = Some q'" "kvalid q'" for n' q'
    proof (cases "n' = c_str qid")
      case True
      then show ?thesis using new_q new by (auto simp: update_conv)
    next
      case False
      then have "map_of (mgr_queues m) n' = Some q'" using new_q(1) by (simp add: update_conv)
      then obtain msgs where "mgr_holds obs m n' msgs" using new_q(2) all by blast
      then show ?thesis using old False by blast
    qed
    then show ?thesis using inv s' by (auto simp: mgr_inv_def distinct_update)
  qed
  with g new old show ?thesis
    by (intro exI [where x = ?m] exI [where x = q] exI [where x = s']) (auto simp: update_conv)
qed

lemma mgr_get_new:
  assumes inv: "mgr_inv obs m" "mgr_store m = Inr s"
    and n: "map_of (mgr_queues m) (c_str qid) = None" "map_of (kinds s) (c_str qid) = None"
  shows "\<exists>m' q s'. KueueManagerImpl_get eng status qid m = Some (Some (c_str qid), assign SC_Ok status, m') \<and>
    mgr_inv obs m' \<and> mgr_store m' = Inr s' \<and> map_of (mgr_queues m') (c_str qid) = Some q \<and>
    (kvalid q \<longrightarrow> mgr_holds obs m' (c_str qid) []) \<and>
    (\<forall>n msgs. n \<noteq> c_str qid \<and> mgr_holds obs m n msgs \<longrightarrow> mgr_holds obs m' n msgs)"
proof -
  have s: "store_wf s" "open_flag s" and ko: "kinds_ok obs s" using inv by (simp_all add: mgr_inv_def)
  have n2: "map_of (kinds s) (c_str (c_str qid)) = None" using n(2) by simp
  obtain q s' where "KueueImpl_ctor eng (c_str qid) s = Some (q, s')" "store_wf s'" "open_flag s'" "kinds_ok obs s'"
    "\<forall>h \<in> cfs (obs (rdb s)). cells (obs (rdb s')) h = cells (obs (rdb s)) h"
    "\<forall>k h. live_kind s k h \<longrightarrow> live_kind s' k h"
    "kvalid q \<longrightarrow> queueKind q = Some (InKinds (c_str qid)) \<and> (\<exists>h. kueue_inv obs h [] q s')"
    using ctor_new [OF s n2] ko by (elim exE conjE) (rule that; simp; blast)
  from mgr_get_adds [OF inv n(1) this] show ?thesis .
qed

lemma mgr_get_existing:
  assumes inv: "mgr_inv obs m" "mgr_store m = Inr s"
    and n: "map_of (mgr_queues m) (c_str qid) = None" and k: "live_kind s (InKinds (c_str qid)) h"
    and c: "cells (obs (rdb s)) h = queue_cells x msgs" "unat x + length msgs < 2 ^ 64" "length msgs < 2 ^ 63"
    and sk: "msgs \<noteq> [] \<longrightarrow> seeks_ok eng (InKinds (c_str qid)) s"
  shows "\<exists>m' q s'. KueueManagerImpl_get eng status qid m = Some (Some (c_str qid), assign SC_Ok status, m') \<and>
    mgr_inv obs m' \<and> mgr_store m' = Inr s' \<and> map_of (mgr_queues m') (c_str qid) = Some q \<and>
    (kvalid q \<longrightarrow> mgr_holds obs m' (c_str qid) msgs) \<and>
    (\<forall>n ms. n \<noteq> c_str qid \<and> mgr_holds obs m n ms \<longrightarrow> mgr_holds obs m' n ms)"
proof -
  have s: "store_wf s" "open_flag s" and ko: "kinds_ok obs s" using inv by (simp_all add: mgr_inv_def)
  obtain q s' where q: "KueueImpl_ctor eng (c_str qid) s = Some (q, s')" "obs (rdb s') = obs (rdb s)" "store_frame s s'"
    "store_wf s'" "kvalid q \<longrightarrow> kueue_inv obs h msgs q s'" "kvalid q \<longrightarrow> queueKind q = Some (InKinds (c_str qid))"
    using ctor_existing [of s "c_str qid", unfolded c_str_c_str, OF s k c sk] by (elim exE conjE) (rule that; auto)
  have "open_flag s'" "kinds_ok obs s'" "\<forall>k h. live_kind s k h \<longrightarrow> live_kind s' k h"
    using q(2,3) s(2) kinds_ok_frame [OF ko q(3)] live_kind_frame [OF q(3)] by (auto simp: store_frame_def)
  with q show ?thesis by (intro mgr_get_adds [OF inv n q(1)]) auto
qed

text \<open>
  A step of one queue, by any operation that changes only its own column family, keeps the manager's
  invariant and the messages of all other queues.
\<close>

lemma mgr_step:
  assumes inv: "mgr_inv obs m" "mgr_store m = Inr s"
    and q: "map_of (mgr_queues m) n = Some q" "queueKind q = Some (InKinds n)" "kueue_inv obs h msgs q s"
    and q': "kueue_inv obs h msgs' q' s'" "queueKind q' = queueKind q"
    and f: "only_cf h (obs (rdb s)) (obs (rdb s'))" "store_frame s s'"
    and m': "m' = m\<lparr>mgr_store := Inr s', mgr_queues := AList.update n q' (mgr_queues m)\<rparr>"
  shows "mgr_inv obs m' \<and> mgr_holds obs m' n msgs' \<and>
    (\<forall>n' ms. n' \<noteq> n \<and> mgr_holds obs m n' ms \<longrightarrow> mgr_holds obs m' n' ms)"
proof -
  have s: "store_wf s" "open_flag s" and ko: "kinds_ok obs s" using inv by (simp_all add: mgr_inv_def)
  have all: "map_of (mgr_queues m) n = Some q \<Longrightarrow> kvalid q \<Longrightarrow> \<exists>msgs. mgr_holds obs m n msgs" for n q
    using inv by (simp add: mgr_inv_def del: map_of_eq_Some_iff)
  have s': "store_wf s'" "open_flag s'" using q'(1) by (simp_all add: kueue_inv_def)
  have ko': "kinds_ok obs s'" using kinds_ok_frame [OF ko f(2)] f(1) by (simp add: only_cf_def)
  have lk: "live_kind s (InKinds n) h" using q by (auto simp: kueue_inv_def)
  have new: "mgr_holds obs m' n msgs'" using q' q(2) m' by (auto simp: mgr_holds_def update_conv)
  have old: "mgr_holds obs m' n' ms" if h: "mgr_holds obs m n' ms" "n' \<noteq> n" for n' ms
  proof -
    obtain q1 h1 where q1: "map_of (mgr_queues m) n' = Some q1" "queueKind q1 = Some (InKinds n')"
      "kueue_inv obs h1 ms q1 s" using h(1) inv(2) by (auto simp: mgr_holds_def)
    have "live_kind s (InKinds n') h1" using q1(2,3) by (auto simp: kueue_inv_def)
    then have "h1 \<noteq> h" using kinds_ok_independent [OF s(1) ko lk] h(2) by blast
    then have "kueue_inv obs h1 ms q1 s'" by (rule kueue_inv_other [OF q1(3) f s'(1)])
    with q1 h(2) m' show ?thesis by (auto simp: mgr_holds_def update_conv)
  qed
  have "\<exists>ms. mgr_holds obs m' n' ms" if new_q: "map_of (mgr_queues m') n' = Some q1" "kvalid q1" for n' q1
  proof (cases "n' = n")
    case False
    then have "map_of (mgr_queues m) n' = Some q1" using new_q(1) m' by (simp add: update_conv)
    then obtain ms where "mgr_holds obs m n' ms" using new_q(2) all by blast
    then show ?thesis using old False by blast
  qed (use new in blast)
  then have "mgr_inv obs m'" using inv s' ko' m' by (auto simp: mgr_inv_def distinct_update)
  with new old show ?thesis by blast
qed

lemma mgr_close_spec:
  assumes "mgr_inv obs m"
  shows "\<exists>m'. KueueManagerImpl_close eng m = Some m' \<and> mgr_inv obs m' \<and> \<not> KueueManagerImpl_isOpen m' \<and>
    mgr_queues m' = []"
proof (cases "mgr_store m")
  case (Inl w)
  then show ?thesis using assms
    by (auto simp: KueueManagerImpl_close_def KueueManagerImpl_close'_def mgr_synchronize_def mgr_inv_def
        KueueManagerImpl_isOpen_def)
next
  case (Inr s)
  then have "store_wf s" "open_flag s" using assms by (simp_all add: mgr_inv_def)
  then obtain s' where "StoreImpl_close eng s = Some s'" using close_wf [of s eng] by blast
  with Inr assms show ?thesis
    by (auto simp: KueueManagerImpl_close_def KueueManagerImpl_close'_def mgr_synchronize_def mgr_inv_def
        KueueManagerImpl_isOpen_def StoreImpl_isOpen_def StoreImpl_dtor_def)
qed

end

section \<open>A manager on the in-memory engine\<close>

definition ex_mgr :: "memdb KueueManagerImpl" where
  "ex_mgr = \<lparr>mgr_monitor = False, mgr_store = Inr ex_qstore, mgr_version = '''', mgr_queues = [(''q'', ex_kueue 2)]\<rparr>"

lemma ex_mgr_holds: "mgr_holds mem_obs ex_mgr ''q'' [[9], [8]]"
  using ex_queue by (auto simp: mgr_holds_def ex_mgr_def ex_kueue_def)

lemma ex_mgr_inv: "mgr_inv mem_obs ex_mgr"
proof -
  have "kinds_ok mem_obs ex_qstore" by (simp add: kinds_ok_def ex_qstore_def ex_store_def mem_obs_def)
  then show ?thesis using ex_qstore_wf ex_mgr_holds
    by (auto simp: mgr_inv_def ex_mgr_def split: if_splits)
qed

lemma ex_qstore_seeks: "seeks_ok mem_engine (InKinds ''q'') ex_qstore"
  by code_simp

section \<open>Properties\<close>

text \<open>
  C31: \<^verbatim>\<open>KueueManagerImpl::get\<close> in all its cases.  A closed manager answers null and \<open>Closed\<close> and does not change.  A
  queue that is cached is returned without any change.  Otherwise a queue is made, cached, whether its object is
  valid or not, and returned with the code 0, and the messages of every other queue are kept: for a name without a kind
  in the store the queue is empty, and for a kind whose column family holds the messages of a queue, as after a
  restart, it has these messages, provided that the seeks of its constructor do not fail (unless there are none);
  in both cases unless the queue object is not valid.
\<close>

theorem manager_get:
  assumes "rocksdb_spec eng obs pending" "mgr_inv obs m"
  shows "(\<forall>w. mgr_store m = Inl w \<longrightarrow>
      KueueManagerImpl_get eng status qid m = Some (None, assign SC_Closed status, m)) \<and>
    (\<forall>s q. mgr_store m = Inr s \<and> map_of (mgr_queues m) (c_str qid) = Some q \<longrightarrow>
      KueueManagerImpl_get eng status qid m = Some (Some (c_str qid), assign SC_Ok status, m)) \<and>
    (\<forall>s. mgr_store m = Inr s \<and> map_of (mgr_queues m) (c_str qid) = None \<and> map_of (kinds s) (c_str qid) = None \<longrightarrow>
      (\<exists>m' q s'. KueueManagerImpl_get eng status qid m = Some (Some (c_str qid), assign SC_Ok status, m') \<and>
        mgr_inv obs m' \<and> mgr_store m' = Inr s' \<and> map_of (mgr_queues m') (c_str qid) = Some q \<and>
        (kvalid q \<longrightarrow> mgr_holds obs m' (c_str qid) []) \<and>
        (\<forall>n ms. n \<noteq> c_str qid \<and> mgr_holds obs m n ms \<longrightarrow> mgr_holds obs m' n ms))) \<and>
    (\<forall>s h x msgs. mgr_store m = Inr s \<and> map_of (mgr_queues m) (c_str qid) = None \<and>
      live_kind s (InKinds (c_str qid)) h \<and> cells (obs (rdb s)) h = queue_cells x msgs \<and>
      unat x + length msgs < 2 ^ 64 \<and> length msgs < 2 ^ 63 \<and>
      (msgs \<noteq> [] \<longrightarrow> seeks_ok eng (InKinds (c_str qid)) s) \<longrightarrow>
      (\<exists>m' q s'. KueueManagerImpl_get eng status qid m = Some (Some (c_str qid), assign SC_Ok status, m') \<and>
        mgr_inv obs m' \<and> mgr_store m' = Inr s' \<and> map_of (mgr_queues m') (c_str qid) = Some q \<and>
        (kvalid q \<longrightarrow> mgr_holds obs m' (c_str qid) msgs) \<and>
        (\<forall>n ms. n \<noteq> c_str qid \<and> mgr_holds obs m n ms \<longrightarrow> mgr_holds obs m' n ms)))"
  using mgr_get_closed [OF assms(2), of _ eng status qid] mgr_get_cached [OF assms(2), of _ qid _ eng status]
    rocksdb_spec.mgr_get_new [OF assms, of _ qid status] rocksdb_spec.mgr_get_existing [OF assms, of _ qid _ _ _ status]
  by blast

theorem manager_get_witness:
  "KueueManagerImpl_get mem_engine (Some 7) ''q'' ex_mgr = Some (Some ''q'', Some SC_Ok, ex_mgr) \<and>
   (\<exists>m' q s'. KueueManagerImpl_get mem_engine (Some 7) ''q'' (ex_mgr\<lparr>mgr_queues := []\<rparr>) = Some (Some ''q'', Some SC_Ok, m') \<and>
      mgr_store m' = Inr s' \<and> map_of (mgr_queues m') ''q'' = Some q \<and>
      (kvalid q \<longrightarrow> mgr_holds mem_obs m' ''q'' [[9], [8]]))"
proof
  have c: "c_str ''q'' = ''q''" by code_simp
  have st: "mgr_store ex_mgr = Inr ex_qstore" by (simp add: ex_mgr_def)
  have "map_of (mgr_queues ex_mgr) (c_str ''q'') = Some (ex_kueue 2)" by (simp add: ex_mgr_def c)
  with st manager_get [OF mem.rocksdb_spec_axioms ex_mgr_inv, of "Some 7" "''q''"]
  show "KueueManagerImpl_get mem_engine (Some 7) ''q'' ex_mgr = Some (Some ''q'', Some SC_Ok, ex_mgr)"
    by (simp add: c)
  let ?m = "ex_mgr\<lparr>mgr_queues := []\<rparr>"
  have inv: "mgr_inv mem_obs ?m" using ex_mgr_inv by (simp add: mgr_inv_def ex_mgr_def)
  have "mgr_store ?m = Inr ex_qstore \<and> map_of (mgr_queues ?m) (c_str ''q'') = None \<and>
      live_kind ex_qstore (InKinds (c_str ''q'')) 6 \<and> cells (mem_obs (rdb ex_qstore)) 6 = queue_cells 0 [[9], [8]] \<and>
      unat (0 :: u64) + length [[9], [8 :: byte]] < 2 ^ 64 \<and> length [[9], [8 :: byte]] < 2 ^ 63 \<and>
      ([[9], [8 :: byte]] \<noteq> [] \<longrightarrow> seeks_ok mem_engine (InKinds (c_str ''q'')) ex_qstore)"
    using st ex_qstore_wf(3) ex_qstore_seeks
    by (auto simp: c ex_qstore_def mem_obs_def mem_cell_def fun_eq_iff)
  from manager_get [OF mem.rocksdb_spec_axioms inv, of "Some 7" "''q''", THEN conjunct2, THEN conjunct2, THEN conjunct2,
      THEN spec, THEN spec, THEN spec, THEN spec, THEN mp, OF this]
  show "\<exists>m' q s'. KueueManagerImpl_get mem_engine (Some 7) ''q'' ?m = Some (Some ''q'', Some SC_Ok, m') \<and>
      mgr_store m' = Inr s' \<and> map_of (mgr_queues m') ''q'' = Some q \<and>
      (kvalid q \<longrightarrow> mgr_holds mem_obs m' ''q'' [[9], [8]])"
    unfolding c assign_simps by blast
qed

end
