(* ===== verification/Store_Durable.thy ===== *)
theory Store_Durable
  imports Kueue_Fifo
begin

text \<open>
  A store survives being closed and opened again.  \<open>store_named\<close> is the invariant that ties the kinds
  of an open store to the named column families of its database; opening establishes it and every
  operation keeps it.  For an engine whose databases are durable, destroying the store object and
  constructing a new one on the same path gives a store with the same kinds, the same contents and,
  for a queue, the same messages.
\<close>

section \<open>Kinds and names of column families\<close>

definition store_named :: "('d \<Rightarrow> dbobs) \<Rightarrow> 'd StoreImpl \<Rightarrow> bool" where
  "store_named obs s \<longleftrightarrow> kinds s \<noteq> [] \<and> location (obs (rdb s)) = path s \<and>
     inj_on (names (obs (rdb s))) (cfs (obs (rdb s))) \<and>
     (\<forall>(n, k) \<in> set (kinds s). \<exists>h \<in> cfs (obs (rdb s)). khandle k = Some h \<and> names (obs (rdb s)) h = Some n) \<and>
     names (obs (rdb s)) ` cfs (obs (rdb s)) = Some ` fst ` set (kinds s)"

lemma store_named_frame:
  "store_named obs s \<Longrightarrow> store_frame s s' \<Longrightarrow> cfs (obs (rdb s')) = cfs (obs (rdb s)) \<Longrightarrow>
   names (obs (rdb s')) = names (obs (rdb s)) \<Longrightarrow> location (obs (rdb s')) = location (obs (rdb s)) \<Longrightarrow>
   store_named obs s'"
  by (simp add: store_named_def store_frame_def)

lemma store_named_only_cf:
  "store_named obs s \<Longrightarrow> store_frame s s' \<Longrightarrow> only_cf h (obs (rdb s)) (obs (rdb s')) \<Longrightarrow> store_named obs s'"
  by (rule store_named_frame) (simp_all add: only_cf_def)

lemma op_effect_frame:
  "op_effect W m m' \<Longrightarrow> cfs m' = cfs m \<and> names m' = names m \<and> location m' = location m"
  by (cases W) (auto simp: upd_cell_def)

lemma store_named_outcome:
  assumes "store_named obs s" "outcome obs W c s s'"
  shows "store_named obs s'"
proof (rule store_named_frame [OF assms(1)])
  show "store_frame s s'" using assms(2) by (simp add: outcome_def)
qed (use assms(2) op_effect_frame [of W "obs (rdb s)" "obs (rdb s')"]
     in \<open>auto simp: outcome_def simp del: op_effect.simps split: if_splits\<close>)

lemma store_named_live:
  assumes "store_named obs s" "live_kind s (InKinds n) h"
  shows "h \<in> cfs (obs (rdb s))" "names (obs (rdb s)) h = Some n"
  using assms by (auto simp: store_named_def live_kind_def deref_kind_def dest!: map_of_SomeD)

lemma inj_on_upd_insert: "inj_on f A \<Longrightarrow> a \<notin> A \<Longrightarrow> y \<notin> f ` A \<Longrightarrow> inj_on (f(a := y)) (insert a A)"
  by (auto simp: inj_on_def image_iff)

lemma store_named_created:
  assumes "store_named obs s" "kind_created obs n h s s'" "path s' = path s"
  shows "store_named obs s'"
proof -
  let ?m = "obs (rdb s)" and ?m' = "obs (rdb s')"
  have c: "h \<notin> cfs ?m" "kinds s' = kinds s @ [(n, KindImpl_ctor n (Some h))]" "cfs ?m' = insert h (cfs ?m)"
    "names ?m' = (names ?m)(h \<mapsto> n)" "location ?m' = location ?m" "\<And>h'. h' \<in> cfs ?m \<Longrightarrow> names ?m h' \<noteq> Some n"
    using assms(2) by (simp_all add: kind_created_def)
  note i = assms(1) [unfolded store_named_def]
  have "Some n \<notin> names ?m ` cfs ?m" using c(6) by (metis imageE)
  then have "inj_on (names ?m') (cfs ?m')"
    unfolding c(3,4) using c(1) i by (intro inj_on_upd_insert) simp_all
  moreover have "names ?m' ` cfs ?m' = insert (Some n) (names ?m ` cfs ?m)"
    using c(1,3,4) by (auto simp: image_iff)
  moreover have "\<exists>h' \<in> cfs ?m'. khandle k = Some h' \<and> names ?m' h' = Some a" if "(a, k) \<in> set (kinds s')" for a k
    using that i c(1-4) by (fastforce split: prod.splits)
  moreover have "location ?m' = path s'" using i assms(3) c(5) by simp
  moreover have "insert (Some n) (names ?m ` cfs ?m) = Some ` fst ` set (kinds s')" using i c(2) by simp
  ultimately show ?thesis unfolding store_named_def by (intro conjI) (auto simp del: c)
qed

context rocksdb_spec
begin

lemma getOrCreateKind_named:
  assumes "store_wf s" "open_flag s" "store_named obs s"
    and "StoreImpl_getOrCreateKind eng status n s = Some (k, st, s')"
  shows "store_named obs s'"
proof -
  from getOrCreateKind_spec [OF assms(1,2), of status n] assms(4)
  have "path s' = path s"
    "s' = s \<or> (kinds s' = kinds s \<and> obs (rdb s') = obs (rdb s)) \<or> (\<exists>h. kind_created obs (c_str n) h s s')"
    by (auto split: if_splits)
  then show ?thesis using assms(3) store_named_created [OF assms(3)]
    by (elim disjE conjE exE) (simp_all add: store_named_def)
qed

end

section \<open>Opening the families of a database\<close>

text \<open>
  The calls that opening a store at \<open>pth\<close> makes succeed: the library lists the column families or
  finds no database, opens it with them and knows its build properties.
\<close>

definition library_opens :: "'d rocksdb \<Rightarrow> string \<Rightarrow> 'd world \<Rightarrow> bool" where
  "library_opens eng pth w \<longleftrightarrow>
     (let s = open_state eng pth w;
          (st0, families, d0) = ListColumnFamilies eng (options s) (c_str pth) (rdb s);
          (st, hs, p, d1) = TransactionDB_Open eng (options s) (txnDbOptions s) (c_str pth)
            (map (\<lambda>n. (n, columnFamilyOptions s)) (families_of families)) d0
      in (Status_ok st0 \<or> Status_IsPathNotFound st0) \<and> Status_ok st \<and>
         GetRocksBuildProperties eng ''rocksdb_build_git_sha'' \<noteq> None \<and>
         GetRocksBuildProperties eng ''rocksdb_build_date'' \<noteq> None)"

lemma library_opensE:
  assumes "library_opens eng pth w"
  obtains st0 families d0 st hs p d1 where
    "ListColumnFamilies eng (options (open_state eng pth w)) (c_str pth) (rdb (open_state eng pth w)) =
      (st0, families, d0)" "Status_ok st0 \<or> Status_IsPathNotFound st0"
    "TransactionDB_Open eng (options (open_state eng pth w)) (txnDbOptions (open_state eng pth w))
      (c_str pth) (map (\<lambda>n. (n, columnFamilyOptions (open_state eng pth w))) (families_of families)) d0 =
      (st, hs, p, d1)" "Status_ok st"
    "GetRocksBuildProperties eng ''rocksdb_build_git_sha'' \<noteq> None"
    "GetRocksBuildProperties eng ''rocksdb_build_date'' \<noteq> None"
  using assms by (auto simp: library_opens_def Let_def split: prod.splits)

lemma add_kinds_new:
  "distinct ns \<Longrightarrow> length hs = length ns \<Longrightarrow> set ns \<inter> fst ` set ks = {} \<Longrightarrow>
   add_kinds ns hs ks = Some (ks @ map2 (\<lambda>n h. (n, KindImpl_ctor n (Some h))) ns hs)"
proof (induction ns hs ks rule: add_kinds.induct)
  case (2 n ns h hs ks)
  then have "map_of ks n = None" by (auto simp: map_of_eq_None_iff)
  with 2 show ?case by (simp add: update_new)
qed auto

lemma families_of_distinct: "distinct fams \<Longrightarrow> distinct (families_of fams)"
  by (simp add: families_of_def)

context rocksdb_durable
begin

lemma configure_disk: "disk (rdb (StoreImpl_configure eng s)) = disk (rdb s)"
proof -
  have "disk (snd (NewSstFileManager eng e d)) = disk d" "disk (snd (NewBlockBasedTableFactory eng bo d)) = disk d"
    for e bo d by (rule sst_disk factory_disk, rule prod.collapse [symmetric])+
  then show ?thesis
    by (auto simp: StoreImpl_configure_def Let_def case_prod_beta split: option.split)
qed

lemma close_handles_obs: "obs (close_handles eng ks d) = obs d"
  unfolding close_handles_def
  by (induction ks arbitrary: d) (auto simp: KindImpl_closeHandle_def handle_destroy_obs split: option.splits)

lemma open_state_disk: "disk (rdb (open_state eng pth w)) = disk (rdb w)"
  by (simp add: open_state_def configure_disk StoreImpl_init_def)

text \<open>The kinds of a store after opening: each holds what the disk has under its name.\<close>

lemma ctor_disk:
  assumes fresh: "heap_fresh w"
    and l: "ListColumnFamilies eng (options (open_state eng pth w)) (c_str pth) (rdb (open_state eng pth w)) =
      (st0, families, d0)" "Status_ok st0 \<or> Status_IsPathNotFound st0"
    and t: "TransactionDB_Open eng (options (open_state eng pth w)) (txnDbOptions (open_state eng pth w))
      (c_str pth) (map (\<lambda>n. (n, columnFamilyOptions (open_state eng pth w))) (families_of families)) d0 =
      (st, hs, p, d1)" "Status_ok st"
    and build: "GetRocksBuildProperties eng ''rocksdb_build_git_sha'' \<noteq> None"
      "GetRocksBuildProperties eng ''rocksdb_build_date'' \<noteq> None"
  shows "\<exists>s. StoreImpl_ctor eng pth w = Some s \<and> store_wf s \<and> open_flag s \<and> kinds_ok obs s \<and>
    store_named obs s \<and> heap s = heap w \<and> path s = c_str pth \<and>
    set (map fst (kinds s)) = set (families_of families) \<and>
    (\<forall>n \<in> set (families_of families). \<exists>h. live_kind s (InKinds n) h \<and>
       cells (obs (rdb s)) h = (case disk (rdb w) (c_str pth) n of None \<Rightarrow> (\<lambda>_. Absent) | Some c \<Rightarrow> c))"
proof -
  let ?ns = "families_of families"
  obtain s where s: "StoreImpl_ctor eng pth w = Some s" "store_wf s" "open_flag s" "kinds_ok obs s"
    "heap s = heap w" "path s = c_str pth" "obs (rdb s) = obs d1" "add_kinds ?ns hs [] = Some (kinds s)"
    "set (map fst (kinds s)) = set ?ns"
    using ctor_open [OF assms] by (elim exE conjE) (rule that)
  have dist: "distinct ?ns" and d0: "disk d0 = disk (rdb w)"
    using list_disk [OF l(1)] families_of_distinct open_state_disk by auto
  have o1: "length hs = length ?ns" "distinct hs" "set hs = cfs (obs d1)"
    "map (names (obs d1)) hs = map Some ?ns" "location (obs d1) = c_str pth"
    using open_ok [OF t] by (simp_all add: comp_def)
  have ks: "kinds s = map2 (\<lambda>n h. (n, KindImpl_ctor n (Some h))) ?ns hs"
    using add_kinds_new [OF dist o1(1), of "[]"] s(8) by simp
  have nth: "names (obs d1) (hs ! i) = Some (?ns ! i)" if "i < length ?ns" for i
    using arg_cong [OF o1(4), of "\<lambda>xs. xs ! i"] that o1(1) by simp
  have named: "store_named obs s"
    unfolding store_named_def s(6,7)
  proof (intro conjI)
    show "kinds s \<noteq> []" using s(9) by (auto simp: families_of_def split: if_splits)
    show "inj_on (names (obs d1)) (cfs (obs d1))"
    proof -
      have "distinct (map (names (obs d1)) hs)" unfolding o1(4) using dist by (simp add: distinct_map)
      then show ?thesis unfolding distinct_map o1(3) ..
    qed
    show "names (obs d1) ` cfs (obs d1) = Some ` fst ` set (kinds s)"
      using o1(3,4) s(9) by (metis image_set set_map)
    show "\<forall>(n, k) \<in> set (kinds s). \<exists>h \<in> cfs (obs d1). khandle k = Some h \<and> names (obs d1) h = Some n"
      using nth o1(1,3) by (auto simp: ks set_zip)
  qed (rule o1(5))
  have "\<exists>h. live_kind s (InKinds n) h \<and>
      cells (obs (rdb s)) h = (case disk (rdb w) (c_str pth) n of None \<Rightarrow> (\<lambda>_. Absent) | Some c \<Rightarrow> c)"
    if n: "n \<in> set ?ns" for n
  proof -
    obtain i where i: "i < length ?ns" "n = ?ns ! i" using n by (auto simp: in_set_conv_nth)
    then have "(n, KindImpl_ctor n (Some (hs ! i))) \<in> set (kinds s)"
      using o1(1) by (force simp: ks set_zip)
    then have "map_of (kinds s) n = Some (KindImpl_ctor n (Some (hs ! i)))"
      using s(2) by (intro map_of_is_SomeI) (simp_all add: store_wf_def)
    then have "live_kind s (InKinds n) (hs ! i)" by (simp add: live_kind_def deref_kind_def)
    then show ?thesis using open_disk [OF t, of i] i d0 dist s(7) by (auto simp: comp_def)
  qed
  then show ?thesis using s named by blast
qed

lemma dtor_disk:
  assumes "store_wf s" "open_flag s" "store_named obs s"
  shows "\<exists>w. StoreImpl_dtor eng s = Some w \<and> heap_fresh w \<and> heap w = heap s \<and>
    dom (disk (rdb w) (path s)) = set (map fst (kinds s)) \<and>
    (\<forall>n h. live_kind s (InKinds n) h \<longrightarrow> disk (rdb w) (path s) n = Some (cells (obs (rdb s)) h))"
proof -
  obtain db where c: "StoreImpl_close eng s = Some (s\<lparr>open_flag := False, kinds := [],
    txnDb := None, rdb := DB_destroy eng db (close_handles eng (kinds s) (rdb s))\<rparr>)"
    using close_open [OF assms(1,2)] by blast
  let ?d = "close_handles eng (kinds s) (rdb s)"
  have o: "obs ?d = obs (rdb s)" by (rule close_handles_obs)
  have i: "location (obs ?d) = path s" "inj_on (names (obs ?d)) (cfs (obs ?d))"
    "names (obs ?d) ` cfs (obs ?d) = Some ` fst ` set (kinds s)"
    using assms(3) by (simp_all add: o store_named_def)
  note disk = destroy_disk [OF i(2), unfolded i(1), of db]
  have "n \<in> dom (disk (DB_destroy eng db ?d) (path s)) \<longleftrightarrow> Some n \<in> names (obs ?d) ` cfs (obs ?d)" for n
    by (simp add: dom_def disk image_iff eq_commute [of "Some n"]) blast
  then have "dom (disk (DB_destroy eng db ?d) (path s)) = set (map fst (kinds s))"
    by (simp only: i(3) inj_image_mem_iff [OF inj_Some] set_map set_eq_iff simp_thms)
  moreover have "disk (DB_destroy eng db ?d) (path s) n = Some (cells (obs (rdb s)) h)"
    if "live_kind s (InKinds n) h" for n h
    using store_named_live [OF assms(3) that] by (auto simp: disk o)
  ultimately show ?thesis
    using c assms(1,2) by (simp add: StoreImpl_dtor_def world.defs store_wf_def heap_fresh_def)
qed

lemma restart:
  assumes s: "store_wf s" "open_flag s" "store_named obs s" "path s = c_str pth"
    and w: "StoreImpl_dtor eng s = Some w" and o: "library_opens eng pth w"
  shows "\<exists>s2. StoreImpl_ctor eng pth w = Some s2 \<and> store_wf s2 \<and> open_flag s2 \<and> kinds_ok obs s2 \<and>
    store_named obs s2 \<and> heap s2 = heap s \<and>
    set (map fst (kinds s2)) = set (map fst (kinds s)) \<and>
    (\<forall>n h. live_kind s (InKinds n) h \<longrightarrow>
       (\<exists>h2. live_kind s2 (InKinds n) h2 \<and> cells (obs (rdb s2)) h2 = cells (obs (rdb s)) h))"
proof -
  from o obtain st0 families d0 st hs p d1 where
    l: "ListColumnFamilies eng (options (open_state eng pth w)) (c_str pth) (rdb (open_state eng pth w)) =
      (st0, families, d0)" "Status_ok st0 \<or> Status_IsPathNotFound st0"
    and t: "TransactionDB_Open eng (options (open_state eng pth w)) (txnDbOptions (open_state eng pth w))
      (c_str pth) (map (\<lambda>n. (n, columnFamilyOptions (open_state eng pth w))) (families_of families)) d0 =
      (st, hs, p, d1)" "Status_ok st"
    and build: "GetRocksBuildProperties eng ''rocksdb_build_git_sha'' \<noteq> None"
      "GetRocksBuildProperties eng ''rocksdb_build_date'' \<noteq> None"
    by (rule library_opensE)
  have d: "heap_fresh w" "heap w = heap s" "dom (disk (rdb w) (c_str pth)) = set (map fst (kinds s))"
    "\<And>n h. live_kind s (InKinds n) h \<Longrightarrow> disk (rdb w) (c_str pth) n = Some (cells (obs (rdb s)) h)"
    using dtor_disk [OF s(1-3)] w s(4) by auto
  have "dom (disk (rdb w) (c_str pth)) \<noteq> {}" using d(3) s(3) by (simp add: store_named_def)
  then have "set families = set (map fst (kinds s))" "families \<noteq> []"
    using list_disk [OF l(1)] l(2) d(3) by (auto simp: open_state_disk)
  then have f: "set (families_of families) = set (map fst (kinds s))" by (simp add: families_of_def)
  have "n \<in> set (map fst (kinds s))" if "live_kind s (InKinds n) h" for n h
    using that by (force simp: live_kind_def deref_kind_def dest!: map_of_SomeD)
  then show ?thesis using ctor_disk [OF d(1) l t build] d(2,4) unfolding f by fastforce
qed

end

section \<open>A store to restart\<close>

lemma ex_qstore_named: "store_named mem_obs ex_qstore"
  by (simp add: store_named_def ex_qstore_def ex_store_def mem_obs_def inj_on_def) auto

lemma ex_qstore_dtor:
  "\<exists>w. StoreImpl_dtor mem_engine ex_qstore = Some w \<and> library_opens mem_engine ''db'' w"
proof -
  have "map_option (library_opens mem_engine ''db'') (StoreImpl_dtor mem_engine ex_qstore) = Some True"
    by code_simp
  then show ?thesis by auto
qed

lemma ex_qstore_path: "path ex_qstore = c_str ''db''"
  by code_simp

section \<open>Properties\<close>

text \<open>
  C29: a store survives a restart.  Destroying an open store always returns, and constructing one again
  on the same path gives an open store that satisfies the invariants, has the kinds it had and the
  same contents in each of them, whenever the library can list and open the database.
\<close>

theorem store_survives_restart:
  assumes "rocksdb_durable eng obs pending disk" "store_wf s" "open_flag s" "store_named obs s" "path s = c_str pth"
  shows "\<exists>w. StoreImpl_dtor eng s = Some w \<and> (library_opens eng pth w \<longrightarrow>
    (\<exists>s2. StoreImpl_ctor eng pth w = Some s2 \<and> store_wf s2 \<and> open_flag s2 \<and> kinds_ok obs s2 \<and>
      store_named obs s2 \<and> heap s2 = heap s \<and> set (map fst (kinds s2)) = set (map fst (kinds s)) \<and>
      (\<forall>n h. live_kind s (InKinds n) h \<longrightarrow>
         (\<exists>h2. live_kind s2 (InKinds n) h2 \<and> cells (obs (rdb s2)) h2 = cells (obs (rdb s)) h))))"
proof -
  obtain w where "StoreImpl_dtor eng s = Some w" using rocksdb_durable.dtor_disk [OF assms(1-4)] by blast
  then show ?thesis using rocksdb_durable.restart [OF assms] by simp
qed

theorem store_survives_restart_witness:
  "\<exists>w s2 h2. StoreImpl_dtor mem_engine ex_qstore = Some w \<and> StoreImpl_ctor mem_engine ''db'' w = Some s2 \<and>
    live_kind s2 (InKinds ''q'') h2 \<and> cells (mem_obs (rdb s2)) h2 = queue_cells 0 [[9], [8]]"
proof -
  obtain w where w: "StoreImpl_dtor mem_engine ex_qstore = Some w" "library_opens mem_engine ''db'' w"
    using ex_qstore_dtor by blast
  have c: "cells (mem_obs (rdb ex_qstore)) 6 = queue_cells 0 [[9], [8]]"
    using ex_queue by (simp add: kueue_inv_def kueue_repr_def ex_kueue_def KueueImpl_init_def MIN_KEY_def)
  show ?thesis
    using store_survives_restart [OF mem.rocksdb_durable_axioms ex_qstore_wf(1,2) ex_qstore_named ex_qstore_path]
      ex_qstore_wf(3) c w by fastforce
qed

end
