(* ===== verification/Manager_Session.thy ===== *)
theory Manager_Session
  imports Kueue_Manager Store_Durable
begin

text \<open>
  A client's use of the library from end to end: it opens a manager with \<^verbatim>\<open>openKueueManager\<close>, gets queues by
  name, puts and takes messages, closes and deletes the manager and opens it again.  \<open>mgr_session\<close> is the
  invariant of a manager whose column families are queues, \<open>disk_holds\<close> what stays on disk without one.  The
  queues of a session are independent FIFO queues across any number of restarts.
\<close>

section \<open>The calls of a client\<close>

text \<open>A put or take through the pointer that \<^verbatim>\<open>get\<close> returned; the name stands for the pointer.\<close>

definition mgr_enq :: "'d rocksdb \<Rightarrow> data \<Rightarrow> string \<Rightarrow> 'd KueueManagerImpl \<Rightarrow> (bool \<times> 'd KueueManagerImpl) option" where
  "mgr_enq eng v n m = do {
     q \<leftarrow> map_of (mgr_queues m) n;
     case mgr_store m of
       Inl _ \<Rightarrow> None
     | Inr s \<Rightarrow> do {
         (b, q, s) \<leftarrow> kueue_enq eng v (q, s);
         Some (b, m\<lparr>mgr_store := Inr s, mgr_queues := AList.update n q (mgr_queues m)\<rparr>)
       }
   }"

definition mgr_deq :: "'d rocksdb \<Rightarrow> string \<Rightarrow> 'd KueueManagerImpl \<Rightarrow> (data option \<times> 'd KueueManagerImpl) option" where
  "mgr_deq eng n m = do {
     q \<leftarrow> map_of (mgr_queues m) n;
     case mgr_store m of
       Inl _ \<Rightarrow> None
     | Inr s \<Rightarrow> do {
         (r, q, s) \<leftarrow> kueue_deq eng (q, s);
         Some (r, m\<lparr>mgr_store := Inr s, mgr_queues := AList.update n q (mgr_queues m)\<rparr>)
       }
   }"

datatype mop = MPut string data | MTake string | MRestart

datatype mres = MAccepted bool | MDelivered "data option" | MRestarted bool

text \<open>A session has a manager, or none (\<open>Inl\<close>) when it was not opened or could not be.\<close>

type_synonym 'd session = "'d world + 'd KueueManagerImpl"

definition session_world :: "'d rocksdb \<Rightarrow> 'd session \<Rightarrow> 'd world option" where
  "session_world eng x = (case x of
     Inl w \<Rightarrow> Some w
   | Inr m \<Rightarrow> do { m \<leftarrow> KueueManagerImpl_close eng m; KueueManagerImpl_dtor eng m })"

fun session_step :: "'d rocksdb \<Rightarrow> string \<Rightarrow> mop \<Rightarrow> 'd session \<Rightarrow> (mres \<times> 'd session) option" where
  "session_step eng pth (MPut n v) (Inr m) = do {
     (p, st, m) \<leftarrow> KueueManagerImpl_get eng (Some SC_Ok) n m;
     case p of
       None \<Rightarrow> Some (MAccepted False, Inr m)
     | Some k \<Rightarrow> do { (b, m) \<leftarrow> mgr_enq eng v k m; Some (MAccepted b, Inr m) }
   }"
| "session_step eng pth (MTake n) (Inr m) = do {
     (p, st, m) \<leftarrow> KueueManagerImpl_get eng (Some SC_Ok) n m;
     case p of
       None \<Rightarrow> Some (MDelivered None, Inr m)
     | Some k \<Rightarrow> do { (r, m) \<leftarrow> mgr_deq eng k m; Some (MDelivered r, Inr m) }
   }"
| "session_step eng pth MRestart x = do {
     w \<leftarrow> session_world eng x;
     (x, st) \<leftarrow> openKueueManager eng (Some SC_Ok) pth w;
     Some (MRestarted (\<not> isl x), x)
   }"
| "session_step eng pth (MPut n v) (Inl w) = Some (MAccepted False, Inl w)"
| "session_step eng pth (MTake n) (Inl w) = Some (MDelivered None, Inl w)"

fun session_run :: "'d rocksdb \<Rightarrow> string \<Rightarrow> mop list \<Rightarrow> 'd session \<Rightarrow> (mres list \<times> 'd session) option" where
  "session_run eng pth [] x = Some ([], x)"
| "session_run eng pth (op # ops) x = do {
     (r, x) \<leftarrow> session_step eng pth op x;
     (rs, x) \<leftarrow> session_run eng pth ops x;
     Some (r # rs, x)
   }"

text \<open>
  What a session relies on.  At a restart the library opens the database; otherwise the constructor of the store
  is undefined, see \<open>store_open_failure_undefined\<close>.  When a queue is made that the manager does not have yet, the
  two seeks in its column family do not fail; otherwise the constructor of the queue takes it for an empty
  one, see \<open>store_extreme_keys\<close> and \<open>failed_seek_restarts_queue\<close>.  Every other call may fail at any time.
\<close>

definition get_seeks :: "'d rocksdb \<Rightarrow> string \<Rightarrow> 'd session \<Rightarrow> bool" where
  "get_seeks eng n x = (case x of
     Inl w \<Rightarrow> True
   | Inr m \<Rightarrow> (case mgr_store m of
       Inl w \<Rightarrow> True
     | Inr s \<Rightarrow> map_of (mgr_queues m) (c_str n) \<noteq> None \<or> seeks_ok eng (InKinds (c_str n)) s))"

fun step_relies :: "'d rocksdb \<Rightarrow> string \<Rightarrow> mop \<Rightarrow> 'd session \<Rightarrow> bool" where
  "step_relies eng pth (MPut n v) x = get_seeks eng n x"
| "step_relies eng pth (MTake n) x = get_seeks eng n x"
| "step_relies eng pth MRestart x = (case session_world eng x of None \<Rightarrow> True | Some w \<Rightarrow> library_opens eng pth w)"

fun session_relies :: "'d rocksdb \<Rightarrow> string \<Rightarrow> mop list \<Rightarrow> 'd session \<Rightarrow> bool" where
  "session_relies eng pth [] x = True"
| "session_relies eng pth (op # ops) x = (step_relies eng pth op x \<and>
     (case session_step eng pth op x of None \<Rightarrow> True | Some (r, x) \<Rightarrow> session_relies eng pth ops x))"

text \<open>What a session put into, and took out of, the queue \<open>n\<close>.\<close>

fun put_into :: "string \<Rightarrow> mop list \<Rightarrow> mres list \<Rightarrow> data list" where
  "put_into n (MPut k v # ops) (MAccepted b # rs) = (if b \<and> c_str k = n then v # put_into n ops rs else put_into n ops rs)"
| "put_into n (_ # ops) (_ # rs) = put_into n ops rs"
| "put_into n _ _ = []"

fun taken_from :: "string \<Rightarrow> mop list \<Rightarrow> mres list \<Rightarrow> data list" where
  "taken_from n (MTake k # ops) (MDelivered r # rs) =
     (if c_str k = n then (case r of None \<Rightarrow> [] | Some v \<Rightarrow> [v]) else []) @ taken_from n ops rs"
| "taken_from n (_ # ops) (_ # rs) = taken_from n ops rs"
| "taken_from n _ _ = []"

definition puts :: "mop list \<Rightarrow> nat" where
  "puts ops = length (filter (\<lambda>x. case x of MPut _ _ \<Rightarrow> True | _ \<Rightarrow> False) ops)"

section \<open>Invariants\<close>

text \<open>
  Every column family of the store is a queue: \<open>B n\<close> are the messages under the name \<open>n\<close>, and their keys
  end at \<open>K\<close> at most.
\<close>

definition kind_holds :: "('d \<Rightarrow> dbobs) \<Rightarrow> nat \<Rightarrow> data list \<Rightarrow> string \<Rightarrow> 'd StoreImpl \<Rightarrow> bool" where
  "kind_holds obs K msgs n s \<longleftrightarrow> (\<exists>h x. live_kind s (InKinds n) h \<and> cells (obs (rdb s)) h = queue_cells x msgs \<and>
     unat x + length msgs \<le> K)"

definition kinds_hold :: "('d \<Rightarrow> dbobs) \<Rightarrow> nat \<Rightarrow> (string \<Rightarrow> data list) \<Rightarrow> 'd StoreImpl \<Rightarrow> bool" where
  "kinds_hold obs K B s \<longleftrightarrow> (\<forall>n. if map_of (kinds s) n = None then B n = [] else kind_holds obs K (B n) n s)"

definition mgr_session :: "('d \<Rightarrow> dbobs) \<Rightarrow> string \<Rightarrow> nat \<Rightarrow> (string \<Rightarrow> data list) \<Rightarrow> 'd KueueManagerImpl \<Rightarrow> bool" where
  "mgr_session obs pth K B m \<longleftrightarrow> mgr_inv obs m \<and>
     (\<exists>s. mgr_store m = Inr s \<and> store_named obs s \<and> path s = c_str pth \<and> kinds_hold obs K B s) \<and>
     (\<forall>n q. map_of (mgr_queues m) n = Some q \<and> kvalid q \<longrightarrow> mgr_holds obs m n (B n) \<and> unat (maxKey q) \<le> K)"

definition disk_holds :: "('d \<Rightarrow> string \<Rightarrow> string \<Rightarrow> (data \<Rightarrow> cell) option) \<Rightarrow> string \<Rightarrow> nat \<Rightarrow> (string \<Rightarrow> data list) \<Rightarrow>
    'd world \<Rightarrow> bool" where
  "disk_holds disk pth K B w \<longleftrightarrow> heap_fresh w \<and> (\<forall>n. case disk (rdb w) (c_str pth) n of
       None \<Rightarrow> B n = []
     | Some c \<Rightarrow> (\<exists>x. c = queue_cells x (B n) \<and> unat x + length (B n) \<le> K))"

definition session_inv :: "('d \<Rightarrow> dbobs) \<Rightarrow> ('d \<Rightarrow> string \<Rightarrow> string \<Rightarrow> (data \<Rightarrow> cell) option) \<Rightarrow> string \<Rightarrow> nat \<Rightarrow>
    (string \<Rightarrow> data list) \<Rightarrow> 'd session \<Rightarrow> bool" where
  "session_inv obs disk pth K B x = (case x of Inl w \<Rightarrow> disk_holds disk pth K B w | Inr m \<Rightarrow> mgr_session obs pth K B m)"

lemma session_inv_simps [simp]:
  "session_inv obs disk pth K B (Inl w) = disk_holds disk pth K B w"
  "session_inv obs disk pth K B (Inr m) = mgr_session obs pth K B m"
  by (simp_all add: session_inv_def)

lemma kind_holds_mono: "kind_holds obs K msgs n s \<Longrightarrow> K \<le> K' \<Longrightarrow> kind_holds obs K' msgs n s"
  unfolding kind_holds_def by (meson order_trans)

lemma kinds_hold_mono: "kinds_hold obs K B s \<Longrightarrow> K \<le> K' \<Longrightarrow> kinds_hold obs K' B s"
  unfolding kinds_hold_def using kind_holds_mono by meson

lemma live_kind_same: "kinds s' = kinds s \<Longrightarrow> live_kind s' k h = live_kind s k h"
  by (auto simp: live_kind_def deref_kind_def split: kindref.splits)

lemma kinds_hold_same:
  "kinds s' = kinds s \<Longrightarrow> obs (rdb s') = obs (rdb s) \<Longrightarrow> kinds_hold obs K B s' = kinds_hold obs K B s"
  by (simp add: kinds_hold_def kind_holds_def live_kind_same [of s' s])

text \<open>The kinds that stay live with their contents hold what they held.\<close>

lemma kind_holds_keep:
  assumes "kind_holds obs K msgs n s"
    and "\<And>h. live_kind s (InKinds n) h \<Longrightarrow> live_kind s' (InKinds n) h \<and> cells (obs (rdb s')) h = cells (obs (rdb s)) h"
  shows "kind_holds obs K msgs n s'"
proof -
  obtain h x where h: "live_kind s (InKinds n) h" "cells (obs (rdb s)) h = queue_cells x msgs" "unat x + length msgs \<le> K"
    using assms(1) by (auto simp: kind_holds_def)
  with assms(2) [OF h(1)] show ?thesis unfolding kind_holds_def by auto
qed

lemma mgr_session_mono:
  assumes "mgr_session obs pth K B m" "K \<le> K'"
  shows "mgr_session obs pth K' B m"
proof -
  have "unat x \<le> K \<Longrightarrow> unat x \<le> K'" for x :: u64 using assms(2) by linarith
  then show ?thesis using assms(1) kinds_hold_mono [OF _ assms(2), of obs B] unfolding mgr_session_def by blast
qed

lemma live_kind_known: "live_kind s (InKinds n) h \<Longrightarrow> map_of (kinds s) n \<noteq> None"
  by (auto simp: live_kind_def deref_kind_def)

lemma live_kind_unique: "live_kind s k h \<Longrightarrow> live_kind s k h' \<Longrightarrow> h' = h"
  by (auto simp: live_kind_def)

section \<open>Getting a queue\<close>

lemma mgr_sessionD:
  assumes "mgr_session obs pth K B m"
  obtains s where "mgr_store m = Inr s" "store_named obs s" "path s = c_str pth" "kinds_hold obs K B s"
    "store_wf s" "open_flag s" "kinds_ok obs s" "mgr_inv obs m"
  using assms by (auto simp: mgr_session_def mgr_inv_def)

text \<open>
  A manager with one queue object more, on a store that differs from the old one by a new column family at
  most, all of whose kinds hold what they held.
\<close>

lemma mgr_session_add:
  assumes m: "mgr_session obs pth K B m" and s: "mgr_store m = Inr s"
    and s': "store_wf s'" "open_flag s'" "kinds_ok obs s'" "store_named obs s'" "path s' = path s" "kinds_hold obs K B s'"
    and keep: "\<And>k h. live_kind s (InKinds k) h \<Longrightarrow> live_kind s' (InKinds k) h \<and> cells (obs (rdb s')) h = cells (obs (rdb s)) h"
    and q: "kvalid q \<Longrightarrow> queueKind q = Some (InKinds n) \<and> unat (maxKey q) \<le> K \<and> (\<exists>h. kueue_inv obs h (B n) q s')"
    and n: "map_of (mgr_queues m) n = None"
  shows "mgr_session obs pth K B (m\<lparr>mgr_store := Inr s', mgr_queues := AList.update n q (mgr_queues m)\<rparr>)"
    (is "mgr_session _ _ _ _ ?m")
proof -
  have inv: "mgr_inv obs m" and path: "path s = c_str pth"
    and all: "\<And>k q. map_of (mgr_queues m) k = Some q \<Longrightarrow> kvalid q \<Longrightarrow> mgr_holds obs m k (B k) \<and> unat (maxKey q) \<le> K"
    using m s unfolding mgr_session_def by auto
  have hold: "mgr_holds obs ?m k (B k) \<and> unat (maxKey q') \<le> K"
    if k: "map_of (mgr_queues ?m) k = Some q'" "kvalid q'" for k q'
  proof (cases "k = n")
    case True
    then show ?thesis using k q by (auto simp: update_conv mgr_holds_def)
  next
    case False
    then have k1: "map_of (mgr_queues m) k = Some q'" using k(1) by (simp add: update_conv)
    then obtain h where h: "queueKind q' = Some (InKinds k)" "kueue_inv obs h (B k) q' s"
      using all [OF k1 k(2)] s by (auto simp: mgr_holds_def)
    then have "live_kind s (InKinds k) h" by (auto simp: kueue_inv_def)
    from keep [OF this] have "kueue_inv obs h (B k) q' s'"
      using h s'(1,2) by (auto simp: kueue_inv_def kueue_repr_def)
    then show ?thesis using h(1) all [OF k1 k(2)] k1 False by (auto simp: mgr_holds_def update_conv)
  qed
  have "mgr_inv obs ?m" using inv s' hold by (auto simp: mgr_inv_def distinct_update)
  then show ?thesis using s' path hold unfolding mgr_session_def by auto
qed

context rocksdb_spec
begin

text \<open>What a new column family changes: nothing for the kinds there were.\<close>

lemma kinds_hold_created:
  assumes kc: "kind_created obs n h s s'" and h: "kinds_hold obs K B s" and ko: "kinds_ok obs s"
    and n: "map_of (kinds s) n = None"
  shows "kinds_hold obs K B s'"
    "live_kind s (InKinds k) h' \<Longrightarrow> live_kind s' (InKinds k) h' \<and> cells (obs (rdb s')) h' = cells (obs (rdb s)) h'"
proof -
  have c: "h \<notin> cfs (obs (rdb s))" "kinds s' = kinds s @ [(n, KindImpl_ctor n (Some h))]"
    "cells (obs (rdb s')) = (cells (obs (rdb s)))(h := (\<lambda>_. Absent))" using kc by (simp_all add: kind_created_def)
  show keep: "live_kind s' (InKinds k) h' \<and> cells (obs (rdb s')) h' = cells (obs (rdb s)) h'"
    if "live_kind s (InKinds k) h'" for k h'
    using kind_created_keeps [OF kc that] live_kind_cfs [OF ko that] c(1,3) by auto
  have "B n = []" using h n by (auto simp: kinds_hold_def)
  then have new: "kind_holds obs K (B n) n s'"
    using kind_created_live [OF n kc] c(3) unfolding kind_holds_def
    by (intro exI [where x = h] exI [where x = 0]) (simp add: fun_eq_iff)
  have "map_of (kinds s') k = None \<longleftrightarrow> map_of (kinds s) k = None \<and> k \<noteq> n" for k
    by (auto simp: c(2) map_add_def split: option.split)
  then show "kinds_hold obs K B s'"
    using h new kind_holds_keep [OF _ keep] unfolding kinds_hold_def by metis
qed

lemma session_get_new:
  assumes m: "mgr_session obs pth K B m" and s: "mgr_store m = Inr s"
    and n: "map_of (mgr_queues m) (c_str qid) = None" and k: "map_of (kinds s) (c_str qid) = None"
  shows "\<exists>q s'. KueueImpl_ctor eng (c_str qid) s = Some (q, s') \<and>
    mgr_session obs pth K B (m\<lparr>mgr_store := Inr s', mgr_queues := AList.update (c_str qid) q (mgr_queues m)\<rparr>)"
proof -
  have st: "store_wf s" "open_flag s" "kinds_ok obs s" "store_named obs s" "kinds_hold obs K B s"
    using m s by (auto simp: mgr_session_def mgr_inv_def)
  have B: "B (c_str qid) = []" using st(5) k by (auto simp: kinds_hold_def)
  obtain q s' where q: "KueueImpl_ctor eng (c_str qid) s = Some (q, s')" "store_wf s'" "open_flag s'" "path s' = path s"
    "kinds_ok obs s \<longrightarrow> kinds_ok obs s'"
    and e: "\<not> kvalid q \<and> kinds s' = kinds s \<and> obs (rdb s') = obs (rdb s) \<or>
     (\<exists>h. kind_created obs (c_str qid) h s s' \<and> (kvalid q \<longrightarrow> kueue_inv obs h [] q s' \<and>
        queueKind q = Some (InKinds (c_str qid)) \<and> maxKey q = 0))"
    using ctor_created [of s "c_str qid", OF st(1,2), unfolded c_str_c_str, OF k] by (elim exE conjE) (rule that)
  have ko: "kinds_ok obs s'" using q(5) st(3) by blast
  from e have "mgr_session obs pth K B (m\<lparr>mgr_store := Inr s', mgr_queues := AList.update (c_str qid) q (mgr_queues m)\<rparr>)"
  proof (elim disjE exE conjE)
    assume v: "\<not> kvalid q" and ks: "kinds s' = kinds s" "obs (rdb s') = obs (rdb s)"
    have "kinds_hold obs K B s'" "store_named obs s'"
      using st(4,5) ks q(4) by (simp_all add: kinds_hold_same [OF ks] store_named_def)
    then show ?thesis
      by (intro mgr_session_add [OF m s q(2,3) ko _ q(4)]) (use v ks n in \<open>simp_all add: live_kind_same [OF ks(1)]\<close>)
  next
    fix h
    assume kc: "kind_created obs (c_str qid) h s s'" and v: "kvalid q \<longrightarrow> kueue_inv obs h [] q s' \<and>
        queueKind q = Some (InKinds (c_str qid)) \<and> maxKey q = 0"
    note keep = kinds_hold_created [OF kc st(5,3) k]
    show ?thesis
      by (rule mgr_session_add [OF m s q(2,3) ko store_named_created [OF st(4) kc q(4)] q(4) keep])
        (use v n B in auto)
  qed
  with q(1) show ?thesis by blast
qed

lemma session_get_old:
  assumes m: "mgr_session obs pth K B m" and s: "mgr_store m = Inr s" and K: "K < 2 ^ 63"
    and n: "map_of (mgr_queues m) (c_str qid) = None" and k: "map_of (kinds s) (c_str qid) \<noteq> None"
    and sk: "seeks_ok eng (InKinds (c_str qid)) s"
  shows "\<exists>q s'. KueueImpl_ctor eng (c_str qid) s = Some (q, s') \<and>
    mgr_session obs pth K B (m\<lparr>mgr_store := Inr s', mgr_queues := AList.update (c_str qid) q (mgr_queues m)\<rparr>)"
proof -
  have st: "store_wf s" "open_flag s" "kinds_ok obs s" "store_named obs s" "kinds_hold obs K B s"
    using m s by (auto simp: mgr_session_def mgr_inv_def)
  obtain h x where h: "live_kind s (InKinds (c_str qid)) h" "cells (obs (rdb s)) h = queue_cells x (B (c_str qid))"
    "unat x + length (B (c_str qid)) \<le> K"
    using st(5) [unfolded kinds_hold_def, rule_format, of "c_str qid"] k by (auto simp: kind_holds_def)
  have room: "unat x + length (B (c_str qid)) < 2 ^ 64" "length (B (c_str qid)) < 2 ^ 63" using h(3) K by simp_all
  obtain q s' where q: "KueueImpl_ctor eng (c_str qid) s = Some (q, s')" "obs (rdb s') = obs (rdb s)" "store_frame s s'"
    "store_wf s'" "kvalid q \<longrightarrow> kueue_inv obs h (B (c_str qid)) q s'"
    "kvalid q \<longrightarrow> queueKind q = Some (InKinds (c_str qid)) \<and> unat (maxKey q) \<le> unat x + length (B (c_str qid))"
    using ctor_existing [of s "c_str qid", unfolded c_str_c_str, OF st(1,2) h(1,2) room impI [OF sk]] by (elim exE conjE) (rule that)
  have f: "kinds s' = kinds s" "path s' = path s" "open_flag s'" using q(3) st(2) by (simp_all add: store_frame_def)
  have "kinds_hold obs K B s'" "store_named obs s'" "kinds_ok obs s'"
    using st(3,4,5) f q(2) by (simp_all add: kinds_hold_same [OF f(1) q(2)] store_named_def kinds_ok_def)
  then have "mgr_session obs pth K B (m\<lparr>mgr_store := Inr s', mgr_queues := AList.update (c_str qid) q (mgr_queues m)\<rparr>)"
    by (intro mgr_session_add [OF m s q(4) f(3) _ _ f(2)])
      (use q(2,5,6) n h(3) in \<open>auto simp: live_kind_same [OF f(1)]\<close>)
  with q(1) show ?thesis by blast
qed

lemma session_get:
  assumes m: "mgr_session obs pth K B m" and K: "K < 2 ^ 63" and sk: "get_seeks eng qid (Inr m)"
  shows "\<exists>m' q. KueueManagerImpl_get eng status qid m = Some (Some (c_str qid), assign SC_Ok status, m') \<and>
    mgr_session obs pth K B m' \<and> map_of (mgr_queues m') (c_str qid) = Some q"
proof -
  obtain s where s: "mgr_store m = Inr s" "mgr_inv obs m" "open_flag s" using m by (rule mgr_sessionD)
  show ?thesis
  proof (cases "map_of (mgr_queues m) (c_str qid)")
    case (Some q)
    then show ?thesis using mgr_get_cached [OF s(2,1) Some] m by blast
  next
    case None
    then obtain q s' where q: "KueueImpl_ctor eng (c_str qid) s = Some (q, s')"
      "mgr_session obs pth K B (m\<lparr>mgr_store := Inr s', mgr_queues := AList.update (c_str qid) q (mgr_queues m)\<rparr>)"
      using session_get_new [OF m s(1), of qid] session_get_old [OF m s(1) K, of qid] sk s(1)
      by (cases "map_of (kinds s) (c_str qid)") (auto simp: get_seeks_def)
    have "KueueManagerImpl_get eng status qid m = Some (Some (c_str qid), assign SC_Ok status,
        m\<lparr>mgr_store := Inr s', mgr_queues := AList.update (c_str qid) q (mgr_queues m)\<rparr>)"
      using s None q(1)
      by (simp add: KueueManagerImpl_get_def mgr_inv_def mgr_synchronize_def KueueManagerImpl_validateOpen_def
          KueueManagerImpl_isOpen_def StoreImpl_isOpen_def Let_def del: map_of_eq_Some_iff)
    with q(2) show ?thesis by (auto simp: update_conv)
  qed
qed

end

section \<open>Putting and taking\<close>

lemma mgr_session_queue:
  assumes "mgr_session obs pth K B m" "mgr_store m = Inr s" "map_of (mgr_queues m) n = Some q" "kvalid q"
  shows "unat (maxKey q) \<le> K" "queueKind q = Some (InKinds n)" "\<exists>h. kueue_inv obs h (B n) q s"
  using assms by (auto simp: mgr_session_def mgr_holds_def)

lemma only_cf_cells: "only_cf h m m' \<Longrightarrow> h' \<noteq> h \<Longrightarrow> cells m' h' = cells m h'"
  unfolding only_cf_def by (metis fun_upd_other)

lemma kueue_kind_holds:
  assumes "kueue_inv obs h msgs q s" "queueKind q = Some (InKinds n)" "unat (maxKey q) \<le> K"
  shows "kind_holds obs K msgs n s"
proof -
  have "live_kind s (InKinds n) h" "kueue_repr (obs (rdb s)) h msgs q" using assms(1,2) by (auto simp: kueue_inv_def)
  then show ?thesis using assms(3) unfolding kind_holds_def
    by (intro exI [where x = h] exI [where x = "minKey q"]) (simp add: kueue_repr_def)
qed

context rocksdb_spec
begin

lemma session_queue_step:
  assumes m: "mgr_session obs pth K B m" and s: "mgr_store m = Inr s" and q: "map_of (mgr_queues m) n = Some q" "kvalid q"
    and i: "kueue_inv obs h (B n) q s" and q': "kueue_inv obs h msgs q' s'" "queueKind q' = queueKind q"
    and f: "only_cf h (obs (rdb s)) (obs (rdb s'))" "store_frame s s'" and K: "unat (maxKey q') \<le> K'" "K \<le> K'"
  shows "mgr_session obs pth K' (B(n := msgs)) (m\<lparr>mgr_store := Inr s', mgr_queues := AList.update n q' (mgr_queues m)\<rparr>)"
    (is "mgr_session _ _ _ _ ?m")
proof -
  have st: "mgr_inv obs m" "store_wf s" "kinds_ok obs s" "store_named obs s" "path s = c_str pth" "kinds_hold obs K B s"
    using m s by (auto simp: mgr_session_def mgr_inv_def)
  have qk: "queueKind q = Some (InKinds n)" using mgr_session_queue(2) [OF m s q] .
  then have lk: "live_kind s (InKinds n) h" using i by (auto simp: kueue_inv_def)
  note step = mgr_step [OF st(1) s q(1) qk i q' f refl]
  have ks: "kinds s' = kinds s" "path s' = path s" using f(2) by (simp_all add: store_frame_def)
  have "kind_holds obs K' msgs n s'" using kueue_kind_holds [OF q'(1) _ K(1)] q'(2) qk by simp
  moreover have "kind_holds obs K' (B k) k s'" if k: "k \<noteq> n" "kind_holds obs K (B k) k s" for k
  proof (rule kind_holds_keep [OF kind_holds_mono [OF k(2) K(2)]])
    fix h'
    assume l: "live_kind s (InKinds k) h'"
    then have "h' \<noteq> h" using kinds_ok_independent [OF st(2,3) lk] k(1) by blast
    then show "live_kind s' (InKinds k) h' \<and> cells (obs (rdb s')) h' = cells (obs (rdb s)) h'"
      using l only_cf_cells [OF f(1)] live_kind_frame [OF f(2)] by blast
  qed
  ultimately have kh: "kinds_hold obs K' (B(n := msgs)) s'"
    using st(6) live_kind_known [OF lk] unfolding kinds_hold_def ks(1) by (auto simp del: map_of_eq_None_iff)
  have "mgr_holds obs ?m k ((B(n := msgs)) k) \<and> unat (maxKey q1) \<le> K'"
    if k: "map_of (mgr_queues ?m) k = Some q1" "kvalid q1" for k q1
  proof (cases "k = n")
    case True
    then show ?thesis using k(1) step K(1) by (simp add: update_conv)
  next
    case False
    then have "map_of (mgr_queues m) k = Some q1" using k(1) by (simp add: update_conv)
    then have "mgr_holds obs m k (B k)" "unat (maxKey q1) \<le> K" using m k(2) by (auto simp: mgr_session_def)
    then show ?thesis using step False K(2) by auto
  qed
  then show ?thesis
    using step kh store_named_only_cf [OF st(4) f(2,1)] ks(2) st(5) unfolding mgr_session_def by auto
qed

lemma mgr_enq_session:
  assumes m: "mgr_session obs pth K B m" and K: "K + 1 < 2 ^ 63" and q: "map_of (mgr_queues m) n = Some q"
  shows "\<exists>b m'. mgr_enq eng v n m = Some (b, m') \<and> mgr_session obs pth (K + 1) (if b then B(n := B n @ [v]) else B) m'"
proof -
  obtain s where s: "mgr_store m = Inr s" using m by (rule mgr_sessionD)
  show ?thesis
  proof (cases "kvalid q")
    case True
    note v = mgr_session_queue [OF m s q True]
    obtain h where h: "kueue_inv obs h (B n) q s" using v(3) by blast
    then have "unat (minKey q) + length (B n) = unat (maxKey q)" by (simp add: kueue_inv_def kueue_repr_def)
    then have room: "unat (maxKey q) + 1 < 2 ^ 64" "length (B n) + 1 < 2 ^ 63" using v(1) K by simp_all
    obtain b q' s' where e: "kueue_enq eng v (q, s) = Some (b, q', s')"
      "kueue_inv obs h (if b then B n @ [v] else B n) q' s'" "only_cf h (obs (rdb s)) (obs (rdb s'))"
      "store_frame s s'" "queueKind q' = queueKind q" "unat (maxKey q') \<le> unat (maxKey q) + 1"
      using kueue_enq_spec [OF h room] by blast
    have "unat (maxKey q') \<le> K + 1" using e(6) v(1) by simp
    note step = session_queue_step [OF m s q True h e(2,5,3,4) this]
    have "B(n := if b then B n @ [v] else B n) = (if b then B(n := B n @ [v]) else B)" by simp
    then show ?thesis using step e(1) q s by (simp add: mgr_enq_def del: map_of_eq_Some_iff)
  next
    case False
    have "kueue_enq eng v (q, s) = Some (False, q, s)"
      using False by (simp add: kueue_enq_def KueueImpl_put_def)
    moreover have "m\<lparr>mgr_store := Inr s, mgr_queues := AList.update n q (mgr_queues m)\<rparr> = m"
      using s q by (simp add: update_triv del: map_of_eq_Some_iff)
    ultimately show ?thesis using q s mgr_session_mono [OF m, of "K + 1"]
      by (intro exI [where x = False] exI [where x = m]) (simp add: mgr_enq_def del: map_of_eq_Some_iff)
  qed
qed

lemma mgr_deq_session:
  assumes m: "mgr_session obs pth K B m" and q: "map_of (mgr_queues m) n = Some q"
  shows "\<exists>r m'. mgr_deq eng n m = Some (r, m') \<and> (\<forall>v. r = Some v \<longrightarrow> B n \<noteq> [] \<and> hd (B n) = v) \<and>
    mgr_session obs pth K (if r = None then B else B(n := tl (B n))) m'"
proof -
  obtain s where s: "mgr_store m = Inr s" using m by (rule mgr_sessionD)
  show ?thesis
  proof (cases "kvalid q")
    case True
    note v = mgr_session_queue [OF m s q True]
    obtain h where h: "kueue_inv obs h (B n) q s" using v(3) by blast
    obtain r q' s' where d: "kueue_deq eng (q, s) = Some (r, q', s')"
      "kueue_inv obs h (if r = None then B n else tl (B n)) q' s'" "\<forall>v. r = Some v \<longrightarrow> B n \<noteq> [] \<and> hd (B n) = v"
      "only_cf h (obs (rdb s)) (obs (rdb s'))" "store_frame s s'" "queueKind q' = queueKind q" "maxKey q' = maxKey q"
      using kueue_deq_spec [OF h] by (elim exE conjE) (rule that)
    have "unat (maxKey q') \<le> K" using d(7) v(1) by simp
    note step = session_queue_step [OF m s q True h d(2,6,4,5) this order_refl]
    have "B(n := if r = None then B n else tl (B n)) = (if r = None then B else B(n := tl (B n)))" by simp
    then show ?thesis using step d(1,3) q s by (simp add: mgr_deq_def del: map_of_eq_Some_iff)
  next
    case False
    have "kueue_deq eng (q, s) = Some (None, q, s)"
      using False by (simp add: kueue_deq_def KueueImpl_take_timeout_def bytes_toString_def bytes_ctor_def
          bytes_dtor_def bytes_clear_def)
    moreover have "m\<lparr>mgr_store := Inr s, mgr_queues := AList.update n q (mgr_queues m)\<rparr> = m"
      using s q by (simp add: update_triv del: map_of_eq_Some_iff)
    ultimately show ?thesis using q s m by (simp add: mgr_deq_def del: map_of_eq_Some_iff)
  qed
qed

end

section \<open>Restarting\<close>

context rocksdb_durable
begin

text \<open>Closing and deleting the manager leaves the messages on disk; opening finds them.\<close>

lemma session_world_disk:
  assumes m: "mgr_session obs pth K B m"
  shows "\<exists>w. session_world eng (Inr m) = Some w \<and> disk_holds disk pth K B w"
proof -
  obtain s where s: "mgr_store m = Inr s" "store_named obs s" "path s = c_str pth" "kinds_hold obs K B s"
    "store_wf s" "open_flag s" "mgr_inv obs m" using m by (rule mgr_sessionD)
  obtain w where w: "StoreImpl_dtor eng s = Some w" "heap_fresh w"
    and dom: "dom (disk (rdb w) (path s)) = set (map fst (kinds s))"
    and cells: "\<And>n h. live_kind s (InKinds n) h \<Longrightarrow> disk (rdb w) (path s) n = Some (cells (obs (rdb s)) h)"
    using dtor_disk [OF s(5,6,2)] by blast
  have "session_world eng (Inr m) = Some w"
    using s w(1) by (simp add: session_world_def KueueManagerImpl_close_def KueueManagerImpl_close'_def
        KueueManagerImpl_dtor_def mgr_synchronize_def mgr_inv_def KueueManagerImpl_isOpen_def StoreImpl_isOpen_def)
  moreover have "case disk (rdb w) (c_str pth) n of None \<Rightarrow> B n = []
      | Some c \<Rightarrow> (\<exists>x. c = queue_cells x (B n) \<and> unat x + length (B n) \<le> K)" for n
  proof (cases "map_of (kinds s) n")
    case None
    then have "n \<notin> dom (disk (rdb w) (path s))" "B n = []"
      using s(4) unfolding dom by (auto simp: kinds_hold_def map_of_eq_None_iff)
    then show ?thesis using s(3) by (simp add: domIff)
  next
    case (Some ki)
    then have "kind_holds obs K (B n) n s" using s(4) [unfolded kinds_hold_def, rule_format, of n] by simp
    then show ?thesis using cells [of n] s(3) by (auto simp: kind_holds_def)
  qed
  ultimately show ?thesis using w(2) by (simp add: disk_holds_def)
qed

lemma session_open:
  assumes w: "disk_holds disk pth K B w" and o: "library_opens eng pth w"
  shows "\<exists>m. openKueueManager eng status pth w = Some (Inr m, assign SC_Ok status) \<and> mgr_session obs pth K B m \<and>
    mgr_queues m = []"
proof -
  from o obtain st0 families d0 st hs p d1 where
    l: "ListColumnFamilies eng (options (open_state eng pth w)) (c_str pth) (rdb (open_state eng pth w)) =
      (st0, families, d0)" "Status_ok st0 \<or> Status_IsPathNotFound st0"
    and t: "TransactionDB_Open eng (options (open_state eng pth w)) (txnDbOptions (open_state eng pth w))
      (c_str pth) (map (\<lambda>n. (n, columnFamilyOptions (open_state eng pth w))) (families_of families)) d0 =
      (st, hs, p, d1)" "Status_ok st"
    and build: "GetRocksBuildProperties eng ''rocksdb_build_git_sha'' \<noteq> None"
      "GetRocksBuildProperties eng ''rocksdb_build_date'' \<noteq> None"
    by (rule library_opensE)
  have fresh: "heap_fresh w" using w by (simp add: disk_holds_def)
  have B: "disk (rdb w) (c_str pth) n = None \<Longrightarrow> B n = []"
    "disk (rdb w) (c_str pth) n = Some c \<Longrightarrow> \<exists>x. c = queue_cells x (B n) \<and> unat x + length (B n) \<le> K" for n c
    using w [unfolded disk_holds_def, THEN conjunct2, rule_format, of n] by simp_all
  obtain s where s: "StoreImpl_ctor eng pth w = Some s" "store_wf s" "open_flag s" "kinds_ok obs s" "store_named obs s"
    "path s = c_str pth" "set (map fst (kinds s)) = set (families_of families)"
    and cells: "\<forall>n \<in> set (families_of families). \<exists>h. live_kind s (InKinds n) h \<and>
       cells (obs (rdb s)) h = (case disk (rdb w) (c_str pth) n of None \<Rightarrow> (\<lambda>_. Absent) | Some c \<Rightarrow> c)"
    using ctor_disk [OF fresh l t build] by (elim exE conjE) (rule that)
  have "kinds_hold obs K B s" unfolding kinds_hold_def
  proof
    fix n
    show "if map_of (kinds s) n = None then B n = [] else kind_holds obs K (B n) n s"
    proof (cases "map_of (kinds s) n")
      case None
      then have "n \<notin> set (families_of families)" using s(7) by (auto simp: map_of_eq_None_iff)
      then have "disk (rdb w) (c_str pth) n = None"
        using list_disk [OF l(1)] l(2) unfolding open_state_disk families_of_def by (auto split: if_splits)
      with None B(1) show ?thesis by simp
    next
      case (Some ki)
      then have "n \<in> set (families_of families)" using s(7) by (metis map_of_eq_None_iff option.distinct(1) set_map)
      then obtain h where h: "live_kind s (InKinds n) h"
        "cells (obs (rdb s)) h = (case disk (rdb w) (c_str pth) n of None \<Rightarrow> (\<lambda>_. Absent) | Some c \<Rightarrow> c)"
        using cells by blast
      have "\<exists>x. cells (obs (rdb s)) h = queue_cells x (B n) \<and> unat x + length (B n) \<le> K"
      proof (cases "disk (rdb w) (c_str pth) n")
        case None
        then show ?thesis using h(2) B(1) by (intro exI [where x = 0]) (simp add: fun_eq_iff)
      qed (use h(2) B(2) in auto)
      with Some h(1) show ?thesis by (auto simp: kind_holds_def)
    qed
  qed
  then show ?thesis using s
    by (auto simp: openKueueManager_def KueueManagerImpl_ctor_def KueueManagerImpl_isOpen_def StoreImpl_isOpen_def
        mgr_session_def mgr_inv_def assign_def option.map_comp comp_def)
qed

end

section \<open>Sessions\<close>

lemma session_inv_mono: "session_inv obs disk pth K B x \<Longrightarrow> K \<le> K' \<Longrightarrow> session_inv obs disk pth K' B x"
proof (cases x)
  case (Inl w)
  assume a: "session_inv obs disk pth K B x" "K \<le> K'"
  have "case c of None \<Rightarrow> b = [] | Some f \<Rightarrow> (\<exists>x. f = queue_cells x b \<and> unat x + length b \<le> K) \<Longrightarrow>
      case c of None \<Rightarrow> b = [] | Some f \<Rightarrow> (\<exists>x. f = queue_cells x b \<and> unat x + length b \<le> K')" for c and b :: "data list"
    using a(2) by (auto split: option.splits)
  then show ?thesis using a(1) Inl by (simp add: disk_holds_def)
qed (simp add: mgr_session_mono)

lemma put_into_Cons: "put_into n (op # ops) (r # rs) = put_into n [op] [r] @ put_into n ops rs"
  by (cases op; cases r) auto

lemma taken_from_Cons: "taken_from n (op # ops) (r # rs) = taken_from n [op] [r] @ taken_from n ops rs"
  by (cases op; cases r) auto

text \<open>The messages after a call, given its answer.\<close>

fun after :: "mop \<Rightarrow> mres \<Rightarrow> (string \<Rightarrow> data list) \<Rightarrow> string \<Rightarrow> data list" where
  "after (MPut n v) (MAccepted True) B = B(c_str n := B (c_str n) @ [v])"
| "after (MTake n) (MDelivered (Some v)) B = B(c_str n := tl (B (c_str n)))"
| "after _ _ B = B"

context rocksdb_durable
begin

lemma session_step_inv:
  assumes x: "session_inv obs disk pth K B x" and K: "K + puts [op] < 2 ^ 63"
    and o: "step_relies eng pth op x"
  shows "\<exists>r x'. session_step eng pth op x = Some (r, x') \<and> session_inv obs disk pth (K + puts [op]) (after op r B) x' \<and>
    (\<forall>n. B n @ put_into n [op] [r] = taken_from n [op] [r] @ after op r B n) \<and> (\<not> isl x \<or> op = MRestart \<longrightarrow> \<not> isl x')"
proof (cases op)
  case (MPut k v)
  show ?thesis
  proof (cases x)
    case (Inl w)
    then show ?thesis using x MPut session_inv_mono [OF x] by auto
  next
    case (Inr m)
    have K1: "K + 1 < 2 ^ 63" using K MPut by (simp add: puts_def)
    obtain m' q where g: "KueueManagerImpl_get eng (Some SC_Ok) k m = Some (Some (c_str k), assign SC_Ok (Some SC_Ok), m')"
      "mgr_session obs pth K B m'" "map_of (mgr_queues m') (c_str k) = Some q"
      using session_get [of pth K B m k] x Inr K1 o MPut by fastforce
    obtain b m2 where e: "mgr_enq eng v (c_str k) m' = Some (b, m2)"
      "mgr_session obs pth (K + 1) (if b then B(c_str k := B (c_str k) @ [v]) else B) m2"
      using mgr_enq_session [OF g(2) K1 g(3)] by blast
    then show ?thesis using g(1) MPut Inr by (cases b) (auto simp: puts_def)
  qed
next
  case (MTake k)
  show ?thesis
  proof (cases x)
    case (Inl w)
    then show ?thesis using x MTake session_inv_mono [OF x] by auto
  next
    case (Inr m)
    have K1: "K < 2 ^ 63" using K by simp
    obtain m' q where g: "KueueManagerImpl_get eng (Some SC_Ok) k m = Some (Some (c_str k), assign SC_Ok (Some SC_Ok), m')"
      "mgr_session obs pth K B m'" "map_of (mgr_queues m') (c_str k) = Some q"
      using session_get [of pth K B m k] x Inr K1 o MTake by fastforce
    obtain r m2 where d: "mgr_deq eng (c_str k) m' = Some (r, m2)" "\<forall>v. r = Some v \<longrightarrow> B (c_str k) \<noteq> [] \<and> hd (B (c_str k)) = v"
      "mgr_session obs pth K (if r = None then B else B(c_str k := tl (B (c_str k)))) m2"
      using mgr_deq_session [OF g(2,3)] by blast
    then show ?thesis using g(1) MTake Inr by (cases r) (auto simp: puts_def)
  qed
next
  case MRestart
  obtain w where w: "session_world eng x = Some w" "disk_holds disk pth K B w"
    using x session_world_disk by (cases x) (fastforce simp: session_world_def)+
  obtain m where "openKueueManager eng (Some SC_Ok) pth w = Some (Inr m, assign SC_Ok (Some SC_Ok))" "mgr_session obs pth K B m"
    using session_open [OF w(2)] o MRestart w(1) by fastforce
  then show ?thesis using MRestart w(1) by (auto simp: puts_def)
qed

lemma session_run_inv:
  assumes "session_inv obs disk pth K B x" "K + puts ops < 2 ^ 63" "session_relies eng pth ops x"
  shows "\<exists>rs x' B'. session_run eng pth ops x = Some (rs, x') \<and> session_inv obs disk pth (K + puts ops) B' x' \<and>
    (\<forall>n. B n @ put_into n ops rs = taken_from n ops rs @ B' n) \<and> (\<not> isl x \<or> MRestart \<in> set ops \<longrightarrow> \<not> isl x')"
  using assms
proof (induction ops arbitrary: K B x)
  case (Cons op ops)
  have K: "puts (op # ops) = puts [op] + puts ops" by (simp add: puts_def)
  obtain r x1 where s: "session_step eng pth op x = Some (r, x1)" "session_inv obs disk pth (K + puts [op]) (after op r B) x1"
    "\<forall>n. B n @ put_into n [op] [r] = taken_from n [op] [r] @ after op r B n" "\<not> isl x \<or> op = MRestart \<longrightarrow> \<not> isl x1"
    using session_step_inv [OF Cons.prems(1), of op] Cons.prems(2,3) unfolding K by auto
  have K2: "K + puts [op] + puts ops < 2 ^ 63" using Cons.prems(2) unfolding K by simp
  have "session_relies eng pth ops x1" using Cons.prems(3) s(1) by simp
  from Cons.IH [OF s(2) K2 this] obtain rs x' B' where i: "session_run eng pth ops x1 = Some (rs, x')"
    "session_inv obs disk pth (K + puts [op] + puts ops) B' x'"
    "\<forall>n. after op r B n @ put_into n ops rs = taken_from n ops rs @ B' n" "\<not> isl x1 \<or> MRestart \<in> set ops \<longrightarrow> \<not> isl x'"
    by blast
  have "B n @ put_into n (op # ops) (r # rs) = taken_from n (op # ops) (r # rs) @ B' n" for n
  proof -
    have "B n @ put_into n [op] [r] @ put_into n ops rs = taken_from n [op] [r] @ taken_from n ops rs @ B' n"
      using s(3) i(3) by (metis append.assoc)
    then show ?thesis by (simp only: put_into_Cons [of n op ops] taken_from_Cons [of n op ops] append.assoc)
  qed
  then show ?case using s i unfolding K
    by (intro exI [where x = "r # rs"] exI [where x = x'] exI [where x = B']) (auto simp: add.assoc)
qed (auto simp: puts_def)

end

section \<open>A session on the in-memory engine\<close>

definition ex_msgs :: "string \<Rightarrow> data list" where
  "ex_msgs n = (if n = ''q'' then [[9], [8]] else [])"

lemma ex_mgr_session: "mgr_session mem_obs ''db'' 2 ex_msgs ex_mgr"
proof -
  have k: "kinds ex_qstore = kinds ex_store" "live_kind ex_qstore (InKinds ''default'') 5"
    using ex_store_kinds(1) by (simp_all add: ex_qstore_def live_kind_def deref_kind_def)
  have c: "cells (mem_obs (rdb ex_qstore)) 5 = queue_cells 0 []" "cells (mem_obs (rdb ex_qstore)) 6 = queue_cells 0 [[9], [8]]"
    by (auto simp: ex_qstore_def mem_obs_def mem_cell_def fun_eq_iff)
  have "kind_holds mem_obs 2 [] ''default'' ex_qstore" unfolding kind_holds_def
    using k(2) c(1) by (intro exI [where x = 5] exI [where x = 0]) simp
  moreover have "kind_holds mem_obs 2 [[9], [8]] ''q'' ex_qstore" unfolding kind_holds_def
    using ex_qstore_wf(3) c(2) by (intro exI [where x = 6] exI [where x = 0]) simp
  moreover have "map_of (kinds ex_qstore) n \<noteq> None \<Longrightarrow> n = ''default'' \<or> n = ''q''" for n
    by (simp add: k(1) ex_store_def split: if_splits)
  ultimately have "kinds_hold mem_obs 2 ex_msgs ex_qstore"
    unfolding kinds_hold_def by (auto simp: ex_msgs_def k(1) ex_store_def)
  then show ?thesis
    using ex_mgr_inv ex_mgr_holds ex_qstore_named ex_qstore_path
    by (auto simp: mgr_session_def ex_mgr_def ex_msgs_def ex_kueue_def split: if_splits)
qed

lemma ex_restart_seeks:
  "map_option (\<lambda>(r, x). get_seeks mem_engine ''q'' x) (session_step mem_engine ''db'' MRestart (Inr ex_mgr)) = Some True"
  by code_simp

lemma ex_session_relies: "session_relies mem_engine ''db'' [MRestart, MTake ''q''] (Inr ex_mgr)"
proof -
  obtain w where w: "StoreImpl_dtor mem_engine ex_qstore = Some w" "library_opens mem_engine ''db'' w"
    using ex_qstore_dtor by blast
  have "session_world mem_engine (Inr ex_mgr) = Some w"
    using w(1) ex_qstore_wf(2)
    by (simp add: session_world_def KueueManagerImpl_close_def KueueManagerImpl_close'_def ex_mgr_def
        KueueManagerImpl_dtor_def mgr_synchronize_def KueueManagerImpl_isOpen_def StoreImpl_isOpen_def)
  then show ?thesis using w(2) ex_restart_seeks
    by (auto simp del: session_step.simps split: option.split)
qed

section \<open>Properties\<close>

text \<open>
  C30: the library from end to end.  A client that gets queues by name from a manager, puts and takes messages,
  and closes, deletes and reopens the manager as often as it likes, sees independent FIFO queues: every sequence
  of such calls runs to its end, for every engine with the documented behaviour, and for
  each name the messages that were there followed by the messages accepted are the messages delivered followed
  by the messages that are there at the end, restarts included.  The database must open at each restart, the
  iterator seeks with which a queue is found again must not fail (\<open>session_relies\<close>: the code does not notice if
  they do, and the queue starts again at its first key), and the queues must not use up \<open>2 ^ 63\<close> keys.  All other
  calls of the library may fail at any point.
\<close>

theorem session_fifo:
  assumes "rocksdb_durable eng obs pending disk" "session_inv obs disk pth K B x" "K + puts ops < 2 ^ 63"
    "session_relies eng pth ops x"
  shows "\<exists>rs x' B'. session_run eng pth ops x = Some (rs, x') \<and> session_inv obs disk pth (K + puts ops) B' x' \<and>
    (\<forall>n. B n @ put_into n ops rs = taken_from n ops rs @ B' n) \<and> (\<not> isl x \<or> MRestart \<in> set ops \<longrightarrow> \<not> isl x')"
  by (rule rocksdb_durable.session_run_inv [OF assms])

theorem session_fifo_witness:
  "\<exists>rs x' B'. session_run mem_engine ''db'' [MRestart, MTake ''q''] (Inr ex_mgr) = Some (rs, x') \<and>
    [[9], [8]] @ put_into ''q'' [MRestart, MTake ''q''] rs =
      taken_from ''q'' [MRestart, MTake ''q''] rs @ B' ''q''"
proof -
  have "session_inv mem_obs mem_disk ''db'' 2 ex_msgs (Inr ex_mgr)" using ex_mgr_session by simp
  moreover have "2 + puts [MRestart, MTake ''q''] < 2 ^ 63" by (simp add: puts_def)
  ultimately obtain rs x' B' where
    "session_run mem_engine ''db'' [MRestart, MTake ''q''] (Inr ex_mgr) = Some (rs, x')"
    "\<forall>n. ex_msgs n @ put_into n [MRestart, MTake ''q''] rs =
      taken_from n [MRestart, MTake ''q''] rs @ B' n"
    using session_fifo [OF mem.rocksdb_durable_axioms _ _ ex_session_relies] by blast
  moreover have "ex_msgs ''q'' = [[9], [8]]" by (simp add: ex_msgs_def)
  ultimately show ?thesis by metis
qed

end
