(* ===== verification/Rocks_Exception.thy ===== *)
theory Rocks_Exception
  imports Rocks_Status
begin

text \<open>
  \<^verbatim>\<open>RocksException\<close> (\<^verbatim>\<open>include/client/RocksException.h\<close>, \<^verbatim>\<open>src/client/RocksException.cpp\<close>) and the
  table of code names of the client (\<^verbatim>\<open>KVStore::codes\<close> in \<^verbatim>\<open>src/client/KVStore.cpp\<close>).  The lemmas
  show that every status code of the library has its own name.
\<close>

section \<open>Definitions\<close>

record RocksException =
  ewhat :: string
  ecode :: int

definition NAME :: string where
  "NAME = ''RocksException - ''"

definition newline :: string where
  "newline = [CHR 0x0A]"

definition digit :: "nat \<Rightarrow> char" where
  "digit n = char_of (48 + n)"

fun decimal :: "nat \<Rightarrow> string" where
  "decimal n = (if n < 10 then [digit n] else decimal (n div 10) @ [digit (n mod 10)])"

text \<open>\<open>sprintf_s(buffer, 64, "%ld", value)\<close>; a 32-bit \<open>long\<close> has at most eleven characters.\<close>

definition l2s :: "int \<Rightarrow> string" where
  "l2s value = (if value < 0 then ''-'' @ decimal (nat (- value)) else decimal (nat value))"

definition RocksException_default :: RocksException where
  "RocksException_default = \<lparr>ewhat = NAME, ecode = SC_Unknown\<rparr>"

text \<open>The four constructors with a code and a message differ in the type of the message only.\<close>

definition RocksException_ctor :: "int \<Rightarrow> string \<Rightarrow> RocksException" where
  "RocksException_ctor c message = \<lparr>ewhat = NAME @ message @ newline, ecode = c\<rparr>"

definition RocksException_ctor_at :: "int \<Rightarrow> string \<Rightarrow> int \<Rightarrow> string \<Rightarrow> RocksException" where
  "RocksException_ctor_at c file line message =
     \<lparr>ewhat = NAME @ file @ '':'' @ l2s line @ '': '' @ message @ newline, ecode = c\<rparr>"

definition RocksException_code :: "RocksException \<Rightarrow> int" where
  "RocksException_code e = ecode e"

definition initCodes :: "(int \<times> string) list" where
  "initCodes = [
     (SC_Invalid, ''Invalid''),
     (SC_NoIterator, ''NoIterator''),
     (SC_AlreadyExists, ''AlreadyExists''),
     (SC_NoTransaction, ''NoTransaction''),
     (SC_Closed, ''Closed''),
     (SC_Ok, ''Ok''),
     (SC_NotFound, ''NotFound''),
     (SC_Corruption, ''Corruption''),
     (SC_NotSupported, ''NotSupported''),
     (SC_InvalidArgument, ''InvalidArgument''),
     (SC_IOError, ''IOError''),
     (SC_MergeInProgress, ''MergeInProgress''),
     (SC_Incomplete, ''Incomplete''),
     (SC_ShutdownInProgress, ''ShutdownInProgress''),
     (SC_TimedOut, ''TimedOut''),
     (SC_Aborted, ''Aborted''),
     (SC_Busy, ''Busy''),
     (SC_Expired, ''Expired''),
     (SC_TryAgain, ''TryAgain''),
     (SC_CompactionTooLarge, ''CompactionTooLarge''),
     (SC_ColumnFamilyDropped, ''ColumnFamilyDropped''),
     (SC_Unknown, ''Unknown'')]"

definition codes :: "int \<Rightarrow> string option" where
  "codes = map_of initCodes"

text \<open>
  \<open>throwForStatus\<close> throws (\<open>Inl\<close>) or returns false (\<open>Inr False\<close>).
\<close>

definition throwForStatus :: "int \<Rightarrow> RocksException + bool" where
  "throwForStatus status =
     (if status \<noteq> SC_Ok
      then (case codes status of
              Some name \<Rightarrow> Inl (RocksException_ctor status name)
            | None \<Rightarrow> Inl (RocksException_ctor status ''Unknown''))
      else Inr False)"

section \<open>Lemmas\<close>

lemma codes_dom: "codes c \<noteq> None \<longleftrightarrow> - 5 \<le> c \<and> c \<le> 16"
proof
  assume "codes c \<noteq> None"
  then show "- 5 \<le> c \<and> c \<le> 16"
    by (auto simp: codes_def initCodes_def split: if_splits)
next
  assume "- 5 \<le> c \<and> c \<le> 16"
  then have "c \<in> {- 5 .. 16}" by simp
  also have "{- 5 .. 16} = set [- 5 .. 16 :: int]" by (rule set_upto [symmetric])
  finally have "c \<in> set [- 5 .. 16]" .
  then show "codes c \<noteq> None" by (auto simp: codes_def initCodes_def upto_rec1)
qed

lemma distinct_codes: "distinct (map fst initCodes)" "distinct (map snd initCodes)"
  by (simp_all add: initCodes_def)

lemma codes_inj:
  assumes "codes c = Some n" "codes c' = Some n"
  shows "c = c'"
proof -
  have "(c, n) \<in> set initCodes" "(c', n) \<in> set initCodes"
    using assms by (auto simp: codes_def dest: map_of_SomeD)
  then show ?thesis using distinct_codes(2) unfolding distinct_map inj_on_def by (metis fst_conv snd_conv)
qed

lemma throwForStatus_cases:
  "throwForStatus c = (if c = 0 then Inr False
     else Inl (RocksException_ctor c (case codes c of None \<Rightarrow> ''Unknown'' | Some n \<Rightarrow> n)))"
  by (simp add: throwForStatus_def split: option.splits)

section \<open>Property\<close>

text \<open>
  C34: \<^verbatim>\<open>throwForStatus\<close> of the client returns exactly for \<open>Ok\<close>; for every other code it throws an
  exception with that code.  The table of names has all codes of \<^verbatim>\<open>StatusCode.h\<close> from \<open>-5\<close> to \<open>16\<close> but
  no other, and different codes have different names.
\<close>

theorem codes_complete:
  "(throwForStatus c = Inr False \<longleftrightarrow> c = SC_Ok) \<and>
   (c \<noteq> SC_Ok \<longrightarrow> (\<exists>e. throwForStatus c = Inl e \<and> RocksException_code e = c)) \<and>
   (codes c \<noteq> None \<longleftrightarrow> - 5 \<le> c \<and> c \<le> 16) \<and>
   (codes c = Some n \<and> codes c' = Some n \<longrightarrow> c = c')"
  using codes_dom [of c] codes_inj [of c n c']
  by (auto simp: throwForStatus_cases RocksException_code_def RocksException_ctor_def)

theorem codes_complete_witness:
  "\<exists>e. throwForStatus SC_TimedOut = Inl e \<and> RocksException_code e = SC_TimedOut"
  using codes_complete [of SC_TimedOut] by simp

end
