(* ===== verification/KV_Store.thy ===== *)
theory KV_Store
  imports Librocks Client_Bytes Rocks_Exception
begin

text \<open>
  \<^verbatim>\<open>KVStore\<close> (\<^verbatim>\<open>include/client/KVStore.h\<close>, \<^verbatim>\<open>src/client/KVStore.cpp\<close>), the C++ client of the store:
  it owns a store, turns status codes into exceptions and arrays into \<^verbatim>\<open>bytes\<close>.  A method returns
  \<open>Inl e\<close> when it throws \<open>e\<close>.  The object holds a pointer to the store, null (\<open>NoStore\<close>) when it was
  constructed so; every call through a null pointer is undefined.
\<close>

section \<open>The object\<close>

datatype 'd KVStore = HasStore "'d StoreImpl" | NoStore "'d world"

type_synonym 'a thrown = "RocksException + 'a"

definition deref_store :: "'d KVStore \<Rightarrow> 'd StoreImpl option" where
  "deref_store kv = (case kv of HasStore s \<Rightarrow> Some s | NoStore _ \<Rightarrow> None)"

text \<open>\<open>if (status != Status::Ok) throwForStatus(status); return r;\<close>\<close>

definition ok_or_throw :: "int \<Rightarrow> 'a \<Rightarrow> 'a thrown" where
  "ok_or_throw status r =
     (if status \<noteq> SC_Ok
      then (case throwForStatus status of Inl e \<Rightarrow> Inl e | Inr _ \<Rightarrow> Inr r)
      else Inr r)"

definition found_or_throw :: "int \<Rightarrow> 'a \<Rightarrow> 'a thrown" where
  "found_or_throw status r =
     (if \<not> (status = SC_Ok \<or> status = SC_NotFound)
      then (case throwForStatus status of Inl e \<Rightarrow> Inl e | Inr _ \<Rightarrow> Inr r)
      else Inr r)"

section \<open>Construction and destruction\<close>

definition KVStore_ctor_path ::
  "'d rocksdb \<Rightarrow> string \<Rightarrow> 'd world \<Rightarrow> ('d KVStore thrown \<times> 'd world option) option" where
  "KVStore_ctor_path eng pth w = do {
     (store, st) \<leftarrow> openStore eng (Some SC_Ok) pth w;
     status \<leftarrow> st;
     let kv = (case store of Inr s \<Rightarrow> HasStore s | Inl w \<Rightarrow> NoStore w);
     Some (ok_or_throw status kv, case store of Inr s \<Rightarrow> None | Inl w \<Rightarrow> Some w)
   }"

definition KVStore_ctor_store :: "('d world + 'd StoreImpl) \<Rightarrow> 'd KVStore" where
  "KVStore_ctor_store pStore = (case pStore of Inr s \<Rightarrow> HasStore s | Inl w \<Rightarrow> NoStore w)"

definition KVStore_dtor :: "'d rocksdb \<Rightarrow> 'd KVStore \<Rightarrow> 'd world option" where
  "KVStore_dtor eng kv = (case kv of HasStore s \<Rightarrow> StoreImpl_dtor eng s | NoStore w \<Rightarrow> Some w)"

definition KVStore_close :: "'d rocksdb \<Rightarrow> 'd KVStore \<Rightarrow> 'd KVStore option" where
  "KVStore_close eng kv =
     (case kv of HasStore s \<Rightarrow> map_option HasStore (StoreImpl_close eng s) | NoStore w \<Rightarrow> Some kv)"

definition KVStore_isOpen :: "'d KVStore \<Rightarrow> bool option" where
  "KVStore_isOpen kv = map_option StoreImpl_isOpen (deref_store kv)"

section \<open>Kinds\<close>

definition KVStore_getKindManager :: "'d StoreImpl \<Rightarrow> (unit thrown \<times> 'd StoreImpl) option" where
  "KVStore_getKindManager s = do {
     let (st, s) = StoreImpl_getKindManager (Some SC_Ok) s;
     status \<leftarrow> st;
     Some (ok_or_throw status (), s)
   }"

definition KVStore_getDefaultKind :: "'d KVStore \<Rightarrow> (kindref thrown \<times> 'd KVStore) option" where
  "KVStore_getDefaultKind kv = do {
     s \<leftarrow> deref_store kv;
     (m, s) \<leftarrow> KVStore_getKindManager s;
     case m of
       Inl e \<Rightarrow> Some (Inl e, HasStore s)
     | Inr _ \<Rightarrow> do {
         (k, st, s) \<leftarrow> StoreImpl_getDefaultKind (Some SC_Ok) s;
         status \<leftarrow> st;
         Some (ok_or_throw status k, HasStore s)
       }
   }"

definition KVStore_getOrCreateKind ::
  "'d rocksdb \<Rightarrow> string \<Rightarrow> 'd KVStore \<Rightarrow> (kindref thrown \<times> 'd KVStore) option" where
  "KVStore_getOrCreateKind eng kindName kv = do {
     s \<leftarrow> deref_store kv;
     (m, s) \<leftarrow> KVStore_getKindManager s;
     case m of
       Inl e \<Rightarrow> Some (Inl e, HasStore s)
     | Inr _ \<Rightarrow> do {
         (k, st, s) \<leftarrow> StoreImpl_getOrCreateKind eng (Some SC_Ok) (c_str kindName) s;
         status \<leftarrow> st;
         Some (ok_or_throw status k, HasStore s)
       }
   }"

text \<open>
  \<open>std::set::insert\<close> with the comparator \<open>a.get() < b.get()\<close>: the set is kept in order, and an
  element equivalent to one that is there is not inserted.  The comparison dereferences both.
\<close>

definition comparator :: "kindobj \<Rightarrow> kindobj \<Rightarrow> bool option" where
  "comparator a b = (case a of Impl k \<Rightarrow> Some (KindImpl_less k b) | Foreign _ _ \<Rightarrow> None)"

fun kindset_insert :: "'d StoreImpl \<Rightarrow> kindref \<Rightarrow> kindref list \<Rightarrow> kindref list option" where
  "kindset_insert s k [] = Some [k]"
| "kindset_insert s k (x # xs) = do {
     ko \<leftarrow> deref_kind s k;
     xo \<leftarrow> deref_kind s x;
     less1 \<leftarrow> comparator ko xo;
     less2 \<leftarrow> comparator xo ko;
     if less1 then Some (k # x # xs)
     else if less2 then map_option ((#) x) (kindset_insert s k xs)
     else Some (x # xs)
   }"

fun kindset_insert_all :: "'d StoreImpl \<Rightarrow> kindref list \<Rightarrow> kindref list \<Rightarrow> kindref list option" where
  "kindset_insert_all s [] acc = Some acc"
| "kindset_insert_all s (k # ks) acc = do {
     acc \<leftarrow> kindset_insert s k acc;
     kindset_insert_all s ks acc
   }"

definition KVStore_getKinds :: "'d KVStore \<Rightarrow> (kindref list thrown \<times> 'd KVStore) option" where
  "KVStore_getKinds kv = do {
     s \<leftarrow> deref_store kv;
     (m, s) \<leftarrow> KVStore_getKindManager s;
     case m of
       Inl e \<Rightarrow> Some (Inl e, HasStore s)
     | Inr _ \<Rightarrow> do {
         (ppK, st, resultLen, s) \<leftarrow> StoreImpl_getKinds (Some SC_Ok) (Some 0) s;
         status \<leftarrow> st;
         if status = SC_Ok
         then do {
           ks \<leftarrow> ppK;
           n \<leftarrow> resultLen;
           set \<leftarrow> kindset_insert_all s (take n ks) [];
           Some (Inr set, HasStore s)
         }
         else Some (case throwForStatus status of Inl e \<Rightarrow> Inl e | Inr _ \<Rightarrow> Inr [], HasStore s)
       }
   }"

section \<open>Operations\<close>

definition KVStore_put ::
  "'d rocksdb \<Rightarrow> kindref \<Rightarrow> charptr \<Rightarrow> charptr \<Rightarrow> 'd KVStore \<Rightarrow> (unit thrown \<times> 'd KVStore) option" where
  "KVStore_put eng kind key val kv = do {
     s \<leftarrow> deref_store kv;
     (st, s) \<leftarrow> StoreImpl_put eng (Some SC_Ok) kind key val s;
     status \<leftarrow> st;
     Some (ok_or_throw status (), HasStore s)
   }"

definition KVStore_remove ::
  "'d rocksdb \<Rightarrow> kindref \<Rightarrow> charptr \<Rightarrow> 'd KVStore \<Rightarrow> (unit thrown \<times> 'd KVStore) option" where
  "KVStore_remove eng kind key kv = do {
     s \<leftarrow> deref_store kv;
     (st, s) \<leftarrow> StoreImpl_remove eng (Some SC_Ok) kind key s;
     status \<leftarrow> st;
     Some (ok_or_throw status (), HasStore s)
   }"

definition KVStore_singleRemove ::
  "'d rocksdb \<Rightarrow> kindref \<Rightarrow> charptr \<Rightarrow> 'd KVStore \<Rightarrow> (unit thrown \<times> 'd KVStore) option" where
  "KVStore_singleRemove eng kind key kv = do {
     s \<leftarrow> deref_store kv;
     (st, s) \<leftarrow> StoreImpl_singleRemove eng (Some SC_Ok) kind key s;
     status \<leftarrow> st;
     Some (ok_or_throw status (), HasStore s)
   }"

definition KVStore_get ::
  "'d rocksdb \<Rightarrow> kindref \<Rightarrow> charptr \<Rightarrow> 'd KVStore \<Rightarrow> (bytes thrown \<times> 'd KVStore) option" where
  "KVStore_get eng kind key kv = do {
     s \<leftarrow> deref_store kv;
     (val, st, resultLen, s) \<leftarrow> StoreImpl_get eng (Some SC_Ok) kind (Some 0) key s;
     status \<leftarrow> st;
     n \<leftarrow> resultLen;
     Some (found_or_throw status (bytes_ctor val n), HasStore s)
   }"

definition KVStore_updateIfPresent ::
  "'d rocksdb \<Rightarrow> kindref \<Rightarrow> charptr \<Rightarrow> charptr \<Rightarrow> 'd KVStore \<Rightarrow> (bytes thrown \<times> 'd KVStore) option" where
  "KVStore_updateIfPresent eng kind key val kv = do {
     s \<leftarrow> deref_store kv;
     (oldVal, st, resultLen, s) \<leftarrow> StoreImpl_updateIfPresent eng (Some SC_Ok) kind (Some 0) key val s;
     status \<leftarrow> st;
     n \<leftarrow> resultLen;
     Some (found_or_throw status (bytes_ctor oldVal n), HasStore s)
   }"

definition KVStore_singleRemoveIfPresent ::
  "'d rocksdb \<Rightarrow> kindref \<Rightarrow> charptr \<Rightarrow> 'd KVStore \<Rightarrow> (bytes thrown \<times> 'd KVStore) option" where
  "KVStore_singleRemoveIfPresent eng kind key kv = do {
     s \<leftarrow> deref_store kv;
     (removed, st, resultLen, s) \<leftarrow> StoreImpl_singleRemoveIfPresent eng (Some SC_Ok) kind (Some 0) key s;
     status \<leftarrow> st;
     n \<leftarrow> resultLen;
     Some (found_or_throw status (bytes_ctor removed n), HasStore s)
   }"

definition KVStore_removeIfPresent ::
  "'d rocksdb \<Rightarrow> kindref \<Rightarrow> charptr \<Rightarrow> 'd KVStore \<Rightarrow> (bytes thrown \<times> 'd KVStore) option" where
  "KVStore_removeIfPresent eng kind key kv = do {
     s \<leftarrow> deref_store kv;
     (removed, st, resultLen, s) \<leftarrow> StoreImpl_removeIfPresent eng (Some SC_Ok) kind (Some 0) key s;
     status \<leftarrow> st;
     n \<leftarrow> resultLen;
     Some (found_or_throw status (bytes_ctor removed n), HasStore s)
   }"

definition KVStore_putIfAbsent ::
  "'d rocksdb \<Rightarrow> kindref \<Rightarrow> charptr \<Rightarrow> charptr \<Rightarrow> 'd KVStore \<Rightarrow> (bool thrown \<times> 'd KVStore) option" where
  "KVStore_putIfAbsent eng kind key val kv = do {
     s \<leftarrow> deref_store kv;
     (st, s) \<leftarrow> StoreImpl_putIfAbsent eng (Some SC_Ok) kind key val s;
     status \<leftarrow> st;
     Some (if status = SC_Ok then Inr True
           else if status = SC_AlreadyExists then Inr False
           else throwForStatus status, HasStore s)
   }"

definition KVStore_findMinKey ::
  "'d rocksdb \<Rightarrow> kindref \<Rightarrow> 'd KVStore \<Rightarrow> (bytes thrown \<times> 'd KVStore) option" where
  "KVStore_findMinKey eng kind kv = do {
     s \<leftarrow> deref_store kv;
     (minKey, st, resultLen, s) \<leftarrow> StoreImpl_findMinKey eng (Some SC_Ok) kind (Some 0) s;
     status \<leftarrow> st;
     n \<leftarrow> resultLen;
     Some (ok_or_throw status (bytes_ctor minKey n), HasStore s)
   }"

definition KVStore_findMaxKey ::
  "'d rocksdb \<Rightarrow> kindref \<Rightarrow> 'd KVStore \<Rightarrow> (bytes thrown \<times> 'd KVStore) option" where
  "KVStore_findMaxKey eng kind kv = do {
     s \<leftarrow> deref_store kv;
     (maxKey, st, resultLen, s) \<leftarrow> StoreImpl_findMaxKey eng (Some SC_Ok) kind (Some 0) s;
     status \<leftarrow> st;
     n \<leftarrow> resultLen;
     Some (ok_or_throw status (bytes_ctor maxKey n), HasStore s)
   }"

definition KVStore_compact ::
  "'d rocksdb \<Rightarrow> kindref \<Rightarrow> 'd KVStore \<Rightarrow> (unit thrown \<times> 'd KVStore) option" where
  "KVStore_compact eng kind kv = do {
     s \<leftarrow> deref_store kv;
     (st, s) \<leftarrow> StoreImpl_compact eng (Some SC_Ok) kind s;
     status \<leftarrow> st;
     Some (ok_or_throw status (), HasStore s)
   }"

definition KVStore_compactAll :: "'d rocksdb \<Rightarrow> 'd KVStore \<Rightarrow> (unit thrown \<times> 'd KVStore) option" where
  "KVStore_compactAll eng kv = do {
     s \<leftarrow> deref_store kv;
     (st, s) \<leftarrow> StoreImpl_compactAll eng (Some SC_Ok) s;
     status \<leftarrow> st;
     Some (ok_or_throw status (), HasStore s)
   }"

end
