(* ===== verification/KV_Spec.thy ===== *)
theory KV_Spec
  imports KV_Store
begin

text \<open>
  The contract of the client as an interface: \<open>kv_map\<close> is a finite map with \<open>put\<close>, \<open>remove\<close>,
  \<open>get\<close> and \<open>putIfAbsent\<close> whose writes may fail without effect.  Its client lemma says that any
  sequence of calls returns, and that the answers are those of an abstract map which skips the failed
  writes (\<open>kv_replay\<close>).  \<^verbatim>\<open>KVStore\<close> on one kind is an instance for every engine with the documented
  behaviour.  \<^verbatim>\<open>KVStore::get\<close> returns empty \<^verbatim>\<open>bytes\<close> for an absent key as well as for an empty
  value, so the interface has a default value for absent keys.
\<close>

section \<open>The interface\<close>

datatype ('k, 'v) kvop = KPut 'k 'v | KDel 'k | KGet 'k | KPutNew 'k 'v

datatype 'v kvres = Wrote bool | Got "'v option" | New "bool option"

fun kv_replay :: "'v \<Rightarrow> ('k, 'v) kvop list \<Rightarrow> 'v kvres list \<Rightarrow> ('k \<Rightarrow> 'v option) \<Rightarrow> ('k \<Rightarrow> 'v option) option" where
  "kv_replay d [] [] m = Some m"
| "kv_replay d (KPut k v # ops) (Wrote b # rs) m = kv_replay d ops rs (if b then m(k \<mapsto> v) else m)"
| "kv_replay d (KDel k # ops) (Wrote b # rs) m = kv_replay d ops rs (if b then m(k := None) else m)"
| "kv_replay d (KGet k # ops) (Got r # rs) m =
     (if r = None \<or> r = Some (case m k of None \<Rightarrow> d | Some v \<Rightarrow> v) then kv_replay d ops rs m else None)"
| "kv_replay d (KPutNew k v # ops) (New r # rs) m =
     (case r of
        None \<Rightarrow> kv_replay d ops rs m
      | Some True \<Rightarrow> (if m k = None then kv_replay d ops rs (m(k \<mapsto> v)) else None)
      | Some False \<Rightarrow> (if m k \<noteq> None then kv_replay d ops rs m else None))"
| "kv_replay d _ _ m = None"

fun kv_step ::
  "('k \<Rightarrow> 'v \<Rightarrow> 's \<Rightarrow> (bool \<times> 's) option) \<Rightarrow> ('k \<Rightarrow> 's \<Rightarrow> (bool \<times> 's) option) \<Rightarrow>
   ('k \<Rightarrow> 's \<Rightarrow> ('v option \<times> 's) option) \<Rightarrow> ('k \<Rightarrow> 'v \<Rightarrow> 's \<Rightarrow> (bool option \<times> 's) option) \<Rightarrow>
   ('k, 'v) kvop \<Rightarrow> 's \<Rightarrow> ('v kvres \<times> 's) option" where
  "kv_step p d g n (KPut k v) s = map_option (apfst Wrote) (p k v s)"
| "kv_step p d g n (KDel k) s = map_option (apfst Wrote) (d k s)"
| "kv_step p d g n (KGet k) s = map_option (apfst Got) (g k s)"
| "kv_step p d g n (KPutNew k v) s = map_option (apfst New) (n k v s)"

fun kv_run :: "('o \<Rightarrow> 's \<Rightarrow> ('r \<times> 's) option) \<Rightarrow> 'o list \<Rightarrow> 's \<Rightarrow> ('r list \<times> 's) option" where
  "kv_run step [] s = Some ([], s)"
| "kv_run step (x # xs) s = do {
     (r, s) \<leftarrow> step x s;
     (rs, s) \<leftarrow> kv_run step xs s;
     Some (r # rs, s)
   }"

locale kv_map =
  fixes inv :: "'s \<Rightarrow> bool"
    and view :: "'s \<Rightarrow> 'k \<Rightarrow> 'v option"
    and dflt :: 'v
    and kput :: "'k \<Rightarrow> 'v \<Rightarrow> 's \<Rightarrow> (bool \<times> 's) option"
    and kdel :: "'k \<Rightarrow> 's \<Rightarrow> (bool \<times> 's) option"
    and kget :: "'k \<Rightarrow> 's \<Rightarrow> ('v option \<times> 's) option"
    and knew :: "'k \<Rightarrow> 'v \<Rightarrow> 's \<Rightarrow> (bool option \<times> 's) option"
  assumes put_law: "inv s \<Longrightarrow> \<exists>b s'. kput k v s = Some (b, s') \<and> inv s' \<and>
      view s' = (if b then (view s)(k \<mapsto> v) else view s)"
    and del_law: "inv s \<Longrightarrow> \<exists>b s'. kdel k s = Some (b, s') \<and> inv s' \<and>
      view s' = (if b then (view s)(k := None) else view s)"
    and get_law: "inv s \<Longrightarrow> \<exists>r s'. kget k s = Some (r, s') \<and> inv s' \<and> view s' = view s \<and>
      (r = None \<or> r = Some (case view s k of None \<Rightarrow> dflt | Some v \<Rightarrow> v))"
    and new_law: "inv s \<Longrightarrow> \<exists>r s'. knew k v s = Some (r, s') \<and> inv s' \<and>
      (case r of
         None \<Rightarrow> view s' = view s
       | Some True \<Rightarrow> view s k = None \<and> view s' = (view s)(k \<mapsto> v)
       | Some False \<Rightarrow> view s k \<noteq> None \<and> view s' = view s)"
begin

lemma run_replay:
  "inv s \<Longrightarrow> \<exists>rs s'. kv_run (kv_step kput kdel kget knew) ops s = Some (rs, s') \<and> inv s' \<and>
    kv_replay dflt ops rs (view s) = Some (view s')"
proof (induction ops arbitrary: s)
  case (Cons x ops)
  have "\<exists>r s1. kv_step kput kdel kget knew x s = Some (r, s1) \<and> inv s1 \<and>
      (\<forall>rs m. kv_replay dflt ops rs (view s1) = Some m \<longrightarrow> kv_replay dflt (x # ops) (r # rs) (view s) = Some m)"
  proof (cases x)
    case (KPut k v)
    obtain b s1 where "kput k v s = Some (b, s1)" "inv s1"
      "view s1 = (if b then (view s)(k \<mapsto> v) else view s)" using put_law [OF Cons.prems] by blast
    with KPut show ?thesis by (intro exI [where x = "Wrote b"] exI [where x = s1]) simp
  next
    case (KDel k)
    obtain b s1 where "kdel k s = Some (b, s1)" "inv s1"
      "view s1 = (if b then (view s)(k := None) else view s)" using del_law [OF Cons.prems] by blast
    with KDel show ?thesis by (intro exI [where x = "Wrote b"] exI [where x = s1]) simp
  next
    case (KGet k)
    obtain r s1 where "kget k s = Some (r, s1)" "inv s1" "view s1 = view s"
      "r = None \<or> r = Some (case view s k of None \<Rightarrow> dflt | Some v \<Rightarrow> v)"
      using get_law [OF Cons.prems] by blast
    with KGet show ?thesis by (intro exI [where x = "Got r"] exI [where x = s1]) auto
  next
    case (KPutNew k v)
    obtain r s1 where "knew k v s = Some (r, s1)" "inv s1"
      "case r of None \<Rightarrow> view s1 = view s
       | Some True \<Rightarrow> view s k = None \<and> view s1 = (view s)(k \<mapsto> v)
       | Some False \<Rightarrow> view s k \<noteq> None \<and> view s1 = view s"
      using new_law [OF Cons.prems] by blast
    with KPutNew show ?thesis
      by (intro exI [where x = "New r"] exI [where x = s1]) (auto split: option.splits bool.splits)
  qed
  then obtain r s1 where r: "kv_step kput kdel kget knew x s = Some (r, s1)" "inv s1"
    "\<And>rs m. kv_replay dflt ops rs (view s1) = Some m \<Longrightarrow> kv_replay dflt (x # ops) (r # rs) (view s) = Some m"
    by blast
  from Cons.IH [OF r(2)] obtain rs s' where
    "kv_run (kv_step kput kdel kget knew) ops s1 = Some (rs, s')" "inv s'"
    "kv_replay dflt ops rs (view s1) = Some (view s')" by blast
  with r show ?case by (intro exI [where x = "r # rs"] exI [where x = s']) simp
qed simp

end

section \<open>The client on one kind\<close>

definition kv_put :: "'d rocksdb \<Rightarrow> kindref \<Rightarrow> data \<Rightarrow> data \<Rightarrow> 'd KVStore \<Rightarrow> (bool \<times> 'd KVStore) option" where
  "kv_put eng k key v kv = map_option (apfst (\<lambda>r. r = Inr ())) (KVStore_put eng k (Some key) (Some v) kv)"

definition kv_del :: "'d rocksdb \<Rightarrow> kindref \<Rightarrow> data \<Rightarrow> 'd KVStore \<Rightarrow> (bool \<times> 'd KVStore) option" where
  "kv_del eng k key kv = map_option (apfst (\<lambda>r. r = Inr ())) (KVStore_remove eng k (Some key) kv)"

definition kv_new :: "'d rocksdb \<Rightarrow> kindref \<Rightarrow> data \<Rightarrow> data \<Rightarrow> 'd KVStore \<Rightarrow> (bool option \<times> 'd KVStore) option" where
  "kv_new eng k key v kv =
     map_option (apfst (\<lambda>r. case r of Inl e \<Rightarrow> None | Inr b \<Rightarrow> Some b))
       (KVStore_putIfAbsent eng k (Some key) (Some v) kv)"

text \<open>The caller copies the bytes out (\<open>toString\<close>) and lets the \<^verbatim>\<open>bytes\<close> go out of scope.\<close>

definition kv_get :: "'d rocksdb \<Rightarrow> kindref \<Rightarrow> data \<Rightarrow> 'd KVStore \<Rightarrow> (data option \<times> 'd KVStore) option" where
  "kv_get eng k key kv = do {
     (r, kv) \<leftarrow> KVStore_get eng k (Some key) kv;
     case r of
       Inl e \<Rightarrow> Some (None, kv)
     | Inr b \<Rightarrow> do {
         s \<leftarrow> deref_store kv;
         v \<leftarrow> bytes_toString b s;
         s \<leftarrow> bytes_dtor b s;
         Some (Some v, HasStore s)
       }
   }"

definition kv_inv :: "kindref \<Rightarrow> handle \<Rightarrow> 'd KVStore \<Rightarrow> bool" where
  "kv_inv k h kv \<longleftrightarrow> (\<exists>s. kv = HasStore s \<and> store_wf s \<and> open_flag s \<and> live_kind s k h)"

definition kv_view :: "('d \<Rightarrow> dbobs) \<Rightarrow> handle \<Rightarrow> 'd KVStore \<Rightarrow> data \<Rightarrow> data option" where
  "kv_view obs h kv key =
     (case kv of HasStore s \<Rightarrow> cell_value (cells (obs (rdb s)) h key) | NoStore _ \<Rightarrow> None)"

lemma ok_or_throw_simps [simp]:
  "ok_or_throw 0 r = Inr r" "ok_or_throw c r = Inr r' \<longleftrightarrow> c = 0 \<and> r = r'"
  "c \<noteq> 0 \<Longrightarrow> ok_or_throw c r = Inl (RocksException_ctor c (case codes c of None \<Rightarrow> ''Unknown'' | Some n \<Rightarrow> n))"
  by (auto simp: ok_or_throw_def throwForStatus_cases)

lemma found_or_throw_simps [simp]:
  "found_or_throw 0 r = Inr r" "found_or_throw 1 r = Inr r"
  "c \<noteq> 0 \<Longrightarrow> c \<noteq> 1 \<Longrightarrow>
   found_or_throw c r = Inl (RocksException_ctor c (case codes c of None \<Rightarrow> ''Unknown'' | Some n \<Rightarrow> n))"
  by (auto simp: found_or_throw_def throwForStatus_cases)

lemma cell_value_put [simp]: "cell_value (cell_put v c) = Some v"
  by (cases c) simp_all

lemma kv_view_put:
  "op_effect (WPut h k v) (obs (rdb s)) (obs (rdb s')) \<Longrightarrow>
   kv_view obs h (HasStore s') = (kv_view obs h (HasStore s))(k \<mapsto> v)"
  by (auto simp: kv_view_def upd_cell_def fun_eq_iff)

lemma kv_view_del:
  "op_effect (WDelete h k) (obs (rdb s)) (obs (rdb s')) \<Longrightarrow>
   kv_view obs h (HasStore s') = (kv_view obs h (HasStore s))(k := None)"
  by (auto simp: kv_view_def upd_cell_def fun_eq_iff)

lemma kv_view_same:
  "obs (rdb s') = obs (rdb s) \<Longrightarrow> kv_view obs h (HasStore s') = kv_view obs h (HasStore s)"
  by (auto simp: kv_view_def fun_eq_iff)

lemma kv_inv_frame:
  "store_wf s' \<Longrightarrow> store_frame s s' \<Longrightarrow> open_flag s \<Longrightarrow> live_kind s k h \<Longrightarrow> kv_inv k h (HasStore s')"
  using live_kind_frame [of s s' k h] by (auto simp: kv_inv_def store_frame_def)

lemma fetched_owns:
  assumes "fetched c r (Some 0) len vo s s'" "c = 0 \<or> c = 1" "heap_fresh s"
  shows "\<exists>n. len = Some n \<and> owns s' (bytes_ctor r n) (case vo of None \<Rightarrow> [] | Some v \<Rightarrow> v) \<and>
    (\<exists>s''. bytes_dtor (bytes_ctor r n) s' = Some s'' \<and> s'' = s'\<lparr>heap := heap s\<rparr>)"
proof -
  have "(heap s)(next_addr s := None) = heap s" using assms(3) by (simp add: fun_upd_idem)
  then show ?thesis using assms(1,2)
    by (auto simp: fetched_def owns_def bytes_ctor_def same_heap_def bytes_dtor_def bytes_clear_def
        delete_array_def split: if_splits)
qed

context rocksdb_spec
begin

lemma kv_put_law:
  assumes "kv_inv k h kv"
  shows "\<exists>b kv'. kv_put eng k key v kv = Some (b, kv') \<and> kv_inv k h kv' \<and>
    kv_view obs h kv' = (if b then (kv_view obs h kv)(key \<mapsto> v) else kv_view obs h kv)"
proof -
  obtain s where s: "kv = HasStore s" "store_wf s" "open_flag s" "live_kind s k h"
    using assms by (auto simp: kv_inv_def)
  obtain c s' where p: "StoreImpl_put eng (Some SC_Ok) k (Some key) (Some v) s = Some (assign c (Some SC_Ok), s')"
    and o: "outcome obs (WPut h key v) c s s'"
    using put_spec [OF s(2-4), of "Some SC_Ok" key "Some v"] by auto
  have "kv_put eng k key v kv = Some (c = 0, HasStore s')"
    using p [simplified] s(1) by (simp add: kv_put_def KVStore_put_def deref_store_def)
  moreover have "kv_inv k h (HasStore s')"
    using o s by (intro kv_inv_frame [of s' s]) (auto simp: outcome_def)
  moreover have "kv_view obs h (HasStore s') = (if c = 0 then (kv_view obs h kv)(key \<mapsto> v) else kv_view obs h kv)"
    using o kv_view_put [of h key v obs s s'] kv_view_same [of obs s' s h] s(1) by (auto simp: outcome_def)
  ultimately show ?thesis by blast
qed

lemma kv_del_law:
  assumes "kv_inv k h kv"
  shows "\<exists>b kv'. kv_del eng k key kv = Some (b, kv') \<and> kv_inv k h kv' \<and>
    kv_view obs h kv' = (if b then (kv_view obs h kv)(key := None) else kv_view obs h kv)"
proof -
  obtain s where s: "kv = HasStore s" "store_wf s" "open_flag s" "live_kind s k h"
    using assms by (auto simp: kv_inv_def)
  obtain c s' where p: "StoreImpl_remove eng (Some SC_Ok) k (Some key) s = Some (assign c (Some SC_Ok), s')"
    and o: "outcome obs (WDelete h key) c s s'"
    using remove_spec [OF s(2-4), of "Some SC_Ok" key] by auto
  have "kv_del eng k key kv = Some (c = 0, HasStore s')"
    using p [simplified] s(1) by (simp add: kv_del_def KVStore_remove_def deref_store_def)
  moreover have "kv_inv k h (HasStore s')"
    using o s by (intro kv_inv_frame [of s' s]) (auto simp: outcome_def)
  moreover have "kv_view obs h (HasStore s') = (if c = 0 then (kv_view obs h kv)(key := None) else kv_view obs h kv)"
    using o kv_view_del [of h key obs s s'] kv_view_same [of obs s' s h] s(1) by (auto simp: outcome_def)
  ultimately show ?thesis by blast
qed

lemma kv_get_law:
  assumes "kv_inv k h kv"
  shows "\<exists>r kv'. kv_get eng k key kv = Some (r, kv') \<and> kv_inv k h kv' \<and>
    kv_view obs h kv' = kv_view obs h kv \<and>
    (r = None \<or> r = Some (case kv_view obs h kv key of None \<Rightarrow> [] | Some v \<Rightarrow> v))"
proof -
  obtain s where s: "kv = HasStore s" "store_wf s" "open_flag s" "live_kind s k h"
    using assms by (auto simp: kv_inv_def)
  let ?vo = "cell_value (cells (obs (rdb s)) h key)"
  obtain c p len s' where g: "StoreImpl_get eng (Some SC_Ok) k (Some 0) (Some key) s =
      Some (p, assign c (Some SC_Ok), len, s')"
    and f: "store_wf s'" "store_frame s s'" "obs (rdb s') = obs (rdb s)" "fetched c p (Some 0) len ?vo s s'"
    using get_spec [OF s(2-4), of "Some SC_Ok" 0 key] by blast
  have v: "kv_view obs h kv key = ?vo" using s(1) by (simp add: kv_view_def)
  show ?thesis
  proof (cases "c = 0 \<or> c = 1")
    case True
    have "heap_fresh s" using s(2) by (simp add: store_wf_def)
    from fetched_owns [OF f(4) True this] obtain n where n: "len = Some n"
      "owns s' (bytes_ctor p n) (case ?vo of None \<Rightarrow> [] | Some v \<Rightarrow> v)"
      "bytes_dtor (bytes_ctor p n) s' = Some (s'\<lparr>heap := heap s\<rparr>)" by blast
    let ?s = "s'\<lparr>heap := heap s\<rparr>"
    have "kv_get eng k key kv = Some (Some (case ?vo of None \<Rightarrow> [] | Some v \<Rightarrow> v), HasStore ?s)"
      using g [simplified] True n s(1) owns_toString [OF n(2)]
      by (auto simp: kv_get_def KVStore_get_def deref_store_def)
    moreover have "heap_fresh ?s"
      using s(2) f(4) by (auto simp: heap_fresh_def fetched_def same_heap_def store_wf_def split: if_splits)
        (metis domI less_Suc_eq)+
    then have "kv_inv k h (HasStore ?s)"
      using f s by (intro kv_inv_frame [of ?s s]) (auto simp: store_wf_def store_frame_def)
    ultimately show ?thesis using v f(3) s(1) kv_view_same [of obs ?s s h] by auto
  next
    case False
    then have "fetched c p (Some 0) len ?vo s s'" "len = Some 0" using f(4) by (auto simp: fetched_def)
    then have "kv_get eng k key kv = Some (None, HasStore s')"
      using g [simplified] False s(1) by (simp add: kv_get_def KVStore_get_def deref_store_def)
    moreover have "kv_inv k h (HasStore s')" using f s by (intro kv_inv_frame [of s' s]) auto
    ultimately show ?thesis using f(3) s(1) kv_view_same [of obs s' s h] by auto
  qed
qed

lemma kv_new_law:
  assumes "kv_inv k h kv"
  shows "\<exists>r kv'. kv_new eng k key v kv = Some (r, kv') \<and> kv_inv k h kv' \<and>
    (case r of
       None \<Rightarrow> kv_view obs h kv' = kv_view obs h kv
     | Some True \<Rightarrow> kv_view obs h kv key = None \<and> kv_view obs h kv' = (kv_view obs h kv)(key \<mapsto> v)
     | Some False \<Rightarrow> kv_view obs h kv key \<noteq> None \<and> kv_view obs h kv' = kv_view obs h kv)"
proof -
  obtain s where s: "kv = HasStore s" "store_wf s" "open_flag s" "live_kind s k h"
    using assms by (auto simp: kv_inv_def)
  let ?vo = "cell_value (cells (obs (rdb s)) h key)"
  obtain c s' where p: "StoreImpl_putIfAbsent eng (Some SC_Ok) k (Some key) (Some v) s =
      Some (assign c (Some SC_Ok), s')"
    and f: "store_wf s'" "store_frame s s'" "c = 0 \<Longrightarrow> ?vo = None"
      "c = 0 \<Longrightarrow> op_effect (WPut h key v) (obs (rdb s)) (obs (rdb s'))"
      "c \<noteq> 0 \<Longrightarrow> obs (rdb s') = obs (rdb s)" "c = - 3 \<Longrightarrow> ?vo \<noteq> None"
    using putIfAbsent_spec [OF s(2-4), of "Some SC_Ok" key "Some v"] by auto
  let ?r = "if c = 0 then Some True else if c = - 3 then Some False else None"
  have "kv_new eng k key v kv = Some (?r, HasStore s')"
    using p [simplified] s(1)
    by (simp add: kv_new_def KVStore_putIfAbsent_def deref_store_def throwForStatus_cases)
  moreover have "kv_inv k h (HasStore s')" using f s by (intro kv_inv_frame [of s' s]) auto
  moreover have "kv_view obs h kv key = ?vo" using s(1) by (simp add: kv_view_def)
  moreover have "c = 0 \<Longrightarrow> kv_view obs h (HasStore s') = (kv_view obs h kv)(key \<mapsto> v)"
    using f(4) kv_view_put s(1) by blast
  moreover have "c \<noteq> 0 \<Longrightarrow> kv_view obs h (HasStore s') = kv_view obs h kv"
    using f(5) kv_view_same s(1) by blast
  ultimately show ?thesis using f(3,6) by (intro exI [where x = ?r] exI [where x = "HasStore s'"]) auto
qed

end

sublocale rocksdb_spec \<subseteq> client: kv_map "kv_inv k h" "kv_view obs h" "[]" "kv_put eng k" "kv_del eng k"
  "kv_get eng k" "kv_new eng k" for k h
  by unfold_locales (simp_all only: kv_put_law kv_del_law kv_get_law kv_new_law)

context rocksdb_spec
begin

lemma kv_run_replay:
  "kv_inv k h kv \<Longrightarrow> \<exists>rs kv'.
     kv_run (kv_step (kv_put eng k) (kv_del eng k) (kv_get eng k) (kv_new eng k)) ops kv = Some (rs, kv') \<and>
     kv_inv k h kv' \<and> kv_replay [] ops rs (kv_view obs h kv) = Some (kv_view obs h kv')"
  by (rule client.run_replay)

end

section \<open>The kinds of the store\<close>

text \<open>
  Every kind carries the name under which the store has it.  The constructor of the store sets this up, and
  creating a kind keeps it, for names without a null character.
\<close>

definition kinds_self_named :: "(string \<times> KindImpl) list \<Rightarrow> bool" where
  "kinds_self_named ks \<longleftrightarrow> (\<forall>(n, k) \<in> set ks. kname k = n \<and> no_nul n)"

lemma self_named_update:
  assumes "kinds_self_named ks" "no_nul n"
  shows "kinds_self_named (AList.update n (KindImpl_ctor n h) ks)"
proof -
  have "set (AList.update n k ks) \<subseteq> insert (n, k) (set ks)" for k by (induction ks) auto
  then show ?thesis using assms unfolding kinds_self_named_def by (fastforce simp: KindImpl_ctor_def)
qed

lemma self_named_add_kinds:
  "add_kinds ns hs ks = Some ks' \<Longrightarrow> kinds_self_named ks \<Longrightarrow> \<forall>n \<in> set ns. no_nul n \<Longrightarrow> kinds_self_named ks'"
  by (induction ns hs ks rule: add_kinds.induct) (auto simp: self_named_update)

lemma self_named_createKind:
  assumes "StoreImpl_createKind eng status n s = Some (k, st, s')" "kinds_self_named (kinds s)"
  shows "kinds_self_named (kinds s')"
  using assms self_named_update [of "kinds s" "c_str n"]
  by (cases "txnDb s") (auto simp: StoreImpl_createKind_def Let_def split: prod.splits if_splits)

text \<open>Insertion into the ordered set of the client is insertion by name.\<close>

lemma kindset_insert_names:
  assumes "kinds_self_named (kinds s)" "set (n # ns) \<subseteq> fst ` set (kinds s)" "n \<notin> set ns"
  shows "kindset_insert s (InKinds n) (map InKinds ns) = Some (map InKinds (insort n ns))"
  using assms(2,3)
proof (induction ns)
  case (Cons x ns)
  have deref: "\<exists>k. deref_kind s (InKinds y) = Some (Impl k) \<and> kname k = y \<and> no_nul y" if y: "y \<in> fst ` set (kinds s)" for y
  proof -
    obtain k where "map_of (kinds s) y = Some k" using y map_of_eq_None_iff [of "kinds s" y] by fastforce
    moreover from this have "(y, k) \<in> set (kinds s)" by (rule map_of_SomeD)
    ultimately show ?thesis using assms(1) by (auto simp: deref_kind_def kinds_self_named_def)
  qed
  obtain kn kx where k: "deref_kind s (InKinds n) = Some (Impl kn)" "kname kn = n" "no_nul n"
    "deref_kind s (InKinds x) = Some (Impl kx)" "kname kx = x" "no_nul x"
    using deref [of n] deref [of x] Cons.prems(1) by auto
  then have "comparator (Impl kn) (Impl kx) = Some (n < x)" "comparator (Impl kx) (Impl kn) = Some (x < n)"
    by (simp_all add: comparator_def KindImpl_less_names)
  with Cons k show ?case by auto
qed simp

lemma kindset_insert_all_names:
  assumes "kinds_self_named (kinds s)" "set (ms @ ns) \<subseteq> fst ` set (kinds s)" "distinct (ms @ ns)"
  shows "kindset_insert_all s (map InKinds ms) (map InKinds ns) = Some (map InKinds (fold insort ms ns))"
  using assms(2,3)
proof (induction ms arbitrary: ns)
  case (Cons m ms)
  have "kindset_insert s (InKinds m) (map InKinds ns) = Some (map InKinds (insort m ns))"
    by (rule kindset_insert_names [OF assms(1)]) (use Cons.prems in auto)
  moreover have "kindset_insert_all s (map InKinds ms) (map InKinds (insort m ns)) =
      Some (map InKinds (fold insort ms (insort m ns)))"
    by (rule Cons.IH) (use Cons.prems in \<open>auto simp: set_insort_key distinct_insort\<close>)
  ultimately show ?case by simp
qed simp

section \<open>Properties\<close>

text \<open>
  C2: the client \<^verbatim>\<open>KVStore\<close> on one kind is a map.  For every engine with the documented behaviour, any
  sequence of \<open>put\<close>, \<open>remove\<close>, \<open>get\<close> and \<open>putIfAbsent\<close> runs to its end, also when single calls
  throw, and all the answers, and the contents at the end, are those of the abstract map that skips
  the calls which threw.  An absent key reads as empty bytes.
\<close>

theorem kv_client_is_map:
  assumes "rocksdb_spec eng obs pending" "kv_inv k h kv"
  shows "\<exists>rs kv'.
     kv_run (kv_step (kv_put eng k) (kv_del eng k) (kv_get eng k) (kv_new eng k)) ops kv = Some (rs, kv') \<and>
     kv_inv k h kv' \<and> kv_replay [] ops rs (kv_view obs h kv) = Some (kv_view obs h kv')"
  by (rule rocksdb_spec.kv_run_replay [OF assms])

theorem kv_client_is_map_witness:
  "\<exists>rs kv'. kv_run (kv_step (kv_put mem_engine (InKinds ''default'')) (kv_del mem_engine (InKinds ''default''))
       (kv_get mem_engine (InKinds ''default'')) (kv_new mem_engine (InKinds ''default'')))
       [KGet [1], KPut [2] [3]] (HasStore ex_store) = Some (rs, kv') \<and>
     rs = [Got (Some [7]), Wrote True] \<and> kv_view mem_obs 5 kv' = (kv_view mem_obs 5 (HasStore ex_store))([2] \<mapsto> [3])"
proof -
  let ?run = "kv_run (kv_step (kv_put mem_engine (InKinds ''default'')) (kv_del mem_engine (InKinds ''default''))
       (kv_get mem_engine (InKinds ''default'')) (kv_new mem_engine (InKinds ''default'')))
       [KGet [1], KPut [2] [3]] (HasStore ex_store)"
  have i: "kv_inv (InKinds ''default'') 5 (HasStore ex_store)"
    using ex_store_wf ex_store_kinds by (simp add: kv_inv_def)
  have e: "map_option fst ?run = Some [Got (Some [7]), Wrote True]" by code_simp
  obtain rs kv' where r: "?run = Some (rs, kv')" "kv_replay [] [KGet [1], KPut [2] [3]] rs
      (kv_view mem_obs 5 (HasStore ex_store)) = Some (kv_view mem_obs 5 kv')"
    using kv_client_is_map [OF mem.rocksdb_spec_axioms i] by blast
  moreover have "rs = [Got (Some [7]), Wrote True]" using e unfolding r(1) by simp
  moreover from this have "kv_view mem_obs 5 kv' = (kv_view mem_obs 5 (HasStore ex_store))([2] \<mapsto> [3])"
    using r(2) by (simp split: if_splits)
  ultimately show ?thesis by blast
qed

text \<open>
  C36: \<^verbatim>\<open>KVStore::getKinds\<close> of an open store returns references to exactly the kinds of the store, each of them once, in the
  increasing order of their names, and changes nothing; so \<^verbatim>\<open>operator<\<close> of \<^verbatim>\<open>KindImpl\<close>, through which the ordered set
  of the client compares, is the order of the names.  On a closed store it throws an exception with the code \<open>Closed\<close>.
\<close>

theorem kv_getKinds_sorted:
  assumes "store_wf s" "kinds_self_named (kinds s)"
  shows "(open_flag s \<longrightarrow>
      KVStore_getKinds (HasStore s) = Some (Inr (map InKinds (sort (map fst (kinds s)))), HasStore s)) \<and>
    (\<not> open_flag s \<longrightarrow> (\<exists>e. throwForStatus SC_Closed = Inl e \<and>
      KVStore_getKinds (HasStore s) = Some (Inl e, HasStore (s\<lparr>code := SC_Closed\<rparr>))))"
proof (intro conjI impI)
  assume o: "open_flag s"
  let ?ns = "map fst (kinds s)"
  have "StoreImpl_getKinds (Some SC_Ok) (Some 0) s = Some (Some (map InKinds ?ns), Some SC_Ok, Some (length ?ns), s)"
    using assms(1) o
    by (simp add: StoreImpl_getKinds_def synchronize_def store_wf_def validateOpen_open unlock_def comp_def case_prod_unfold)
  moreover have "kindset_insert_all s (map InKinds ?ns) [] = Some (map InKinds (sort ?ns))"
    using kindset_insert_all_names [OF assms(2), of ?ns "[]"] assms(1)
    by (simp add: store_wf_def sort_conv_fold)
  ultimately show "KVStore_getKinds (HasStore s) = Some (Inr (map InKinds (sort ?ns)), HasStore s)"
    using o by (simp add: KVStore_getKinds_def KVStore_getKindManager_def StoreImpl_getKindManager_def
        validateOpen_open ok_or_throw_def deref_store_def)
next
  assume "\<not> open_flag s"
  then show "\<exists>e. throwForStatus SC_Closed = Inl e \<and>
      KVStore_getKinds (HasStore s) = Some (Inl e, HasStore (s\<lparr>code := SC_Closed\<rparr>))"
    by (simp add: KVStore_getKinds_def KVStore_getKindManager_def StoreImpl_getKindManager_def
        validateOpen_closed ok_or_throw_def deref_store_def throwForStatus_cases)
qed

theorem kv_getKinds_sorted_witness:
  "KVStore_getKinds (HasStore (ex_store\<lparr>kinds := rev (kinds ex_store)\<rparr>)) =
     Some (Inr [InKinds ''default'', InKinds ''q''], HasStore (ex_store\<lparr>kinds := rev (kinds ex_store)\<rparr>))"
proof -
  have "sort (map fst (rev (kinds ex_store))) = [''default'', ''q'']" by code_simp
  moreover have "store_wf (ex_store\<lparr>kinds := rev (kinds ex_store)\<rparr>)" "open_flag (ex_store\<lparr>kinds := rev (kinds ex_store)\<rparr>)"
    using ex_store_wf by (simp_all add: store_wf_def heap_fresh_def flip: rev_map)
  moreover have "kinds_self_named (kinds ex_store)" by code_simp
  ultimately show ?thesis
    using kv_getKinds_sorted [of "ex_store\<lparr>kinds := rev (kinds ex_store)\<rparr>"] by (simp add: kinds_self_named_def)
qed

end
