(* ===== verification/Entry_Points.thy ===== *)
theory Entry_Points
  imports Manager_Session KV_Spec
begin

text \<open>
  The three ways into the library: \<^verbatim>\<open>openStore\<close> and \<^verbatim>\<open>openKueueManager\<close> (\<^verbatim>\<open>src/impl/librocks.cpp\<close>) and the
  constructor of the client \<^verbatim>\<open>KVStore\<close>.  They succeed or fail together, with the same store or the same code.
\<close>

lemma assign_assign: "assign x (assign y status) = assign x status"
  by (cases status) auto

context rocksdb_spec
begin

lemma openStore_opens:
  assumes fresh: "heap_fresh w" and o: "library_opens eng pth w"
    and l: "ListColumnFamilies eng (options (open_state eng pth w)) (c_str pth) (rdb (open_state eng pth w)) =
      (st0, families, d0)"
  shows "\<exists>s. StoreImpl_ctor eng pth w = Some s \<and> store_wf s \<and> open_flag s \<and> kinds_ok obs s \<and>
    code s = SC_Ok \<and> heap s = heap w \<and> path s = c_str pth \<and> set (map fst (kinds s)) = set (families_of families)"
proof -
  from o obtain st0' families' d0' st hs p d1 where
    l': "ListColumnFamilies eng (options (open_state eng pth w)) (c_str pth) (rdb (open_state eng pth w)) =
      (st0', families', d0')" "Status_ok st0' \<or> Status_IsPathNotFound st0'"
    and t: "TransactionDB_Open eng (options (open_state eng pth w)) (txnDbOptions (open_state eng pth w))
      (c_str pth) (map (\<lambda>n. (n, columnFamilyOptions (open_state eng pth w))) (families_of families')) d0' =
      (st, hs, p, d1)" "Status_ok st"
    and build: "GetRocksBuildProperties eng ''rocksdb_build_git_sha'' \<noteq> None"
      "GetRocksBuildProperties eng ''rocksdb_build_date'' \<noteq> None"
    by (rule library_opensE)
  have "families' = families" using l l'(1) by simp
  then show ?thesis using ctor_open [OF fresh l' t build] by blast
qed

lemma manager_opens:
  assumes "StoreImpl_ctor eng pth w = Some s" "store_wf s" "open_flag s" "kinds_ok obs s"
  shows "\<exists>m. openKueueManager eng status pth w = Some (Inr m, assign SC_Ok status) \<and> mgr_inv obs m \<and>
    mgr_store m = Inr s \<and> mgr_queues m = []"
  using assms
  by (auto simp: openKueueManager_def KueueManagerImpl_ctor_def KueueManagerImpl_isOpen_def StoreImpl_isOpen_def
      mgr_inv_def assign_assign)

lemma manager_fails:
  assumes "StoreImpl_ctor eng pth w = Some s" "\<not> open_flag s" "store_wf s"
  shows "openKueueManager eng status pth w = Some (Inl (world.truncate s), assign (code s) status)"
  using assms close_closed [OF assms(3,2), of eng]
  by (auto simp: openKueueManager_def KueueManagerImpl_ctor_def KueueManagerImpl_isOpen_def StoreImpl_isOpen_def
      StoreImpl_getCode_def StoreImpl_dtor_def KueueManagerImpl_close_def KueueManagerImpl_close'_def
      KueueManagerImpl_dtor_def mgr_synchronize_def assign_assign)

end

section \<open>Properties\<close>

text \<open>
  C20: opening a database.  When the library lists the column families (or finds no database) and opens the
  database, \<^verbatim>\<open>openStore\<close>, \<^verbatim>\<open>openKueueManager\<close> and the constructor of \<^verbatim>\<open>KVStore\<close> give an open store with status 0 that
  satisfies the invariant, with one kind per column family (the default kind alone for a new database) and no
  array allocated; the manager has no queues yet.  When the column families cannot be listed, the first two
  return null with the code of the library, the third throws an exception with it, and nothing is left behind.
\<close>

theorem entry_points_open:
  assumes "rocksdb_spec eng obs pending" "heap_fresh w"
    "ListColumnFamilies eng (options (open_state eng pth w)) (c_str pth) (rdb (open_state eng pth w)) = (st0, families, d0)"
  shows "(library_opens eng pth w \<longrightarrow>
      (\<exists>s m. openStore eng status pth w = Some (Inr s, assign SC_Ok status) \<and> store_wf s \<and> StoreImpl_isOpen s \<and>
        kinds_ok obs s \<and> StoreImpl_getCode s = SC_Ok \<and> heap s = heap w \<and>
        set (map fst (kinds s)) = set (families_of families) \<and>
        openKueueManager eng status pth w = Some (Inr m, assign SC_Ok status) \<and> mgr_inv obs m \<and>
        mgr_store m = Inr s \<and> mgr_queues m = [] \<and>
        KVStore_ctor_path eng pth w = Some (Inr (HasStore s), None))) \<and>
    (\<not> Status_ok st0 \<and> \<not> Status_IsPathNotFound st0 \<longrightarrow>
      (\<exists>w' e. heap w' = heap w \<and> openStore eng status pth w = Some (Inl w', assign (Status_code st0) status) \<and>
        openKueueManager eng status pth w = Some (Inl w', assign (Status_code st0) status) \<and>
        KVStore_ctor_path eng pth w = Some (Inl e, Some w') \<and> RocksException_code e = Status_code st0))"
proof (intro conjI impI)
  assume o: "library_opens eng pth w"
  obtain s where s: "StoreImpl_ctor eng pth w = Some s" "store_wf s" "open_flag s" "kinds_ok obs s" "code s = SC_Ok"
    "heap s = heap w" "set (map fst (kinds s)) = set (families_of families)"
    using rocksdb_spec.openStore_opens [OF assms(1,2) o assms(3)] by blast
  obtain m where m: "openKueueManager eng status pth w = Some (Inr m, assign SC_Ok status)" "mgr_inv obs m"
    "mgr_store m = Inr s" "mgr_queues m = []" using rocksdb_spec.manager_opens [OF assms(1) s(1-4)] by blast
  note st = rocksdb_spec.openStore_ok [OF assms(1) s(1,3)]
  have "KVStore_ctor_path eng pth w = Some (Inr (HasStore s), None)"
    using st [of "Some SC_Ok"] by (simp add: KVStore_ctor_path_def)
  then show "\<exists>s m. openStore eng status pth w = Some (Inr s, assign SC_Ok status) \<and> store_wf s \<and> StoreImpl_isOpen s \<and>
        kinds_ok obs s \<and> StoreImpl_getCode s = SC_Ok \<and> heap s = heap w \<and>
        set (map fst (kinds s)) = set (families_of families) \<and>
        openKueueManager eng status pth w = Some (Inr m, assign SC_Ok status) \<and> mgr_inv obs m \<and>
        mgr_store m = Inr s \<and> mgr_queues m = [] \<and>
        KVStore_ctor_path eng pth w = Some (Inr (HasStore s), None)"
    using s m st [of status] by (intro exI [where x = s] exI [where x = m]) (simp add: StoreImpl_isOpen_def StoreImpl_getCode_def)
next
  assume l: "\<not> Status_ok st0 \<and> \<not> Status_IsPathNotFound st0"
  obtain s where s: "StoreImpl_ctor eng pth w = Some s" "store_wf s" "\<not> open_flag s" "code s = Status_code st0"
    "heap s = heap w" using rocksdb_spec.ctor_not_listed [OF assms] l by blast
  note st = rocksdb_spec.openStore_fails [OF assms(1) s(1,3,2)]
  have c: "Status_code st0 \<noteq> 0" using l by simp
  let ?w = "world.truncate s"
    and ?e = "RocksException_ctor (Status_code st0) (case codes (Status_code st0) of None \<Rightarrow> ''Unknown'' | Some n \<Rightarrow> n)"
  have "KVStore_ctor_path eng pth w = Some (Inl ?e, Some ?w)"
    using st [of "Some SC_Ok"] c s(4) by (simp add: KVStore_ctor_path_def)
  then show "\<exists>w' e. heap w' = heap w \<and> openStore eng status pth w = Some (Inl w', assign (Status_code st0) status) \<and>
        openKueueManager eng status pth w = Some (Inl w', assign (Status_code st0) status) \<and>
        KVStore_ctor_path eng pth w = Some (Inl e, Some w') \<and> RocksException_code e = Status_code st0"
    using st [of status] rocksdb_spec.manager_fails [OF assms(1) s(1,3,2), of status] s(4,5)
    by (intro exI [where x = ?w] exI [where x = ?e]) (simp add: world.defs RocksException_ctor_def RocksException_code_def)
qed

lemma ex_world_listed:
  "ListColumnFamilies mem_engine (options (open_state mem_engine ''db'' (ex_world []))) (c_str ''db'')
     (rdb (open_state mem_engine ''db'' (ex_world []))) = (Status_OK, [], mem_empty)"
  unfolding ex_world_rdb by (simp add: mem_engine_def mem_list_def mem_fault_def mem_empty_def)

lemma ex_world_opens: "library_opens mem_engine ''db'' (ex_world [])"
proof -
  let ?s = "open_state mem_engine ''db'' (ex_world [])"
  obtain st hs p d where t: "TransactionDB_Open mem_engine (options ?s) (txnDbOptions ?s) (c_str ''db'')
      (map (\<lambda>n. (n, columnFamilyOptions ?s)) (families_of [])) mem_empty = (st, hs, p, d)"
    by (metis prod_cases4)
  then have "Status_ok st"
    by (auto simp: mem_engine_def mem_open_def mem_fault_def mem_empty_def split: prod.splits if_splits)
  then show ?thesis unfolding library_opens_def Let_def ex_world_listed using t by (simp add: mem_engine_def)
qed

theorem entry_points_open_witness:
  "\<exists>s m. openStore mem_engine (Some 7) ''db'' (ex_world []) = Some (Inr s, Some SC_Ok) \<and>
    set (map fst (kinds s)) = {DefaultCF} \<and>
    openKueueManager mem_engine (Some 7) ''db'' (ex_world []) = Some (Inr m, Some SC_Ok) \<and> mgr_inv mem_obs m \<and>
    KVStore_ctor_path mem_engine ''db'' (ex_world []) = Some (Inr (HasStore s), None)"
  using entry_points_open [OF mem.rocksdb_spec_axioms ex_world_fresh ex_world_listed, of "Some 7"] ex_world_opens
  by (auto simp: families_of_def)

end
