(* ===== verification/Kueue_Threads.thy ===== *)
theory Kueue_Threads
  imports Prelude
begin

text \<open>
  The methods of \<^verbatim>\<open>KueueImpl\<close> (\<^verbatim>\<open>include/impl/KueueImpl.h\<close>) as they run in several threads.  A state
  has the two mutexes, the condition variable (the threads that wait on it are those at \<open>Waiting\<close>), the
  keys, the counter, and one program point per thread; a step is one action of one thread.  A call of
  the store is one action, because the store holds its own mutex for the whole call.  Keys and counter
  are unbounded here; \<open>Kueue_Refine\<close> and the sequential theories have their width.  After a removal
  \<^verbatim>\<open>minKey\<close> and the counter change in one step: the former changes under the mutex of the takers only, and no
  other thread looks at both without it.  \<open>accepted_log\<close> and \<open>out_log\<close> record the
  order in which messages went in and out, \<open>read_keys\<close> the keys that \<^verbatim>\<open>readNext\<close> handed out and
  \<open>erase_log\<close> the keys for which \<^verbatim>\<open>erase\<close> returned true.  The labels mark the steps that a property
  has to exclude: \<open>Fault\<close> a failing store call of \<^verbatim>\<open>take\<close> or \<^verbatim>\<open>readNext\<close>, \<open>Peek\<close> a call of \<^verbatim>\<open>readNext\<close>, and
  \<open>Wild\<close> a call of \<^verbatim>\<open>erase\<close> with a key that \<^verbatim>\<open>readNext\<close> never returned.
\<close>

section \<open>Threads and states\<close>

type_synonym tid = nat

text \<open>The three methods that wait for a message: \<^verbatim>\<open>take\<close>, \<^verbatim>\<open>take\<close> with a time-out, \<^verbatim>\<open>readNext\<close>.\<close>

datatype mode = TakeForever | TakeTimed | ReadNext

datatype pc =
    Idle
  | PutWait data
  | PutLocked data
  | PutStored
  | PutCounted int
  | Signal
  | SignalLocked
  | SignalUnlock
  | TakeWait mode
  | TakeTest mode
  | Waiting mode
  | Woken mode
  | TakeReady mode
  | TakeRemoved
  | TakeCounted int
  | TakeUnlock
  | EraseTest nat
  | EraseWait nat
  | EraseLocked nat
  | ClearWait
  | ClearPutLocked
  | ClearTest
  | ClearRemoved
  | ClearUnlock
  | ClearPutUnlock

fun put_crit :: "pc \<Rightarrow> bool" where
  "put_crit (PutLocked v) = True"
| "put_crit PutStored = True"
| "put_crit (PutCounted c) = True"
| "put_crit ClearPutLocked = True"
| "put_crit ClearTest = True"
| "put_crit ClearRemoved = True"
| "put_crit ClearUnlock = True"
| "put_crit ClearPutUnlock = True"
| "put_crit _ = False"

fun take_crit :: "pc \<Rightarrow> bool" where
  "take_crit SignalLocked = True"
| "take_crit SignalUnlock = True"
| "take_crit (TakeTest m) = True"
| "take_crit (TakeReady m) = True"
| "take_crit TakeRemoved = True"
| "take_crit (TakeCounted c) = True"
| "take_crit TakeUnlock = True"
| "take_crit (EraseLocked k) = True"
| "take_crit ClearTest = True"
| "take_crit ClearRemoved = True"
| "take_crit ClearUnlock = True"
| "take_crit _ = False"

fun waiting :: "pc \<Rightarrow> bool" where
  "waiting (Waiting m) = True"
| "waiting _ = False"

text \<open>How a message left the queue.\<close>

datatype exit = Taken | Erased | Cleared

text \<open>
  What all threads share, apart from the data of the queue: the owners of the two mutexes, a program
  point per thread, the keys handed out and the keys erased.
\<close>

record control =
  putOwner :: "tid option"
  takeOwner :: "tid option"
  pcs :: "tid \<Rightarrow> pc"
  read_keys :: "nat set"
  erase_log :: "nat list"

record conc = control +
  tab :: "nat \<Rightarrow> data option"
  minK :: nat
  maxK :: nat
  cnt :: int
  accepted_log :: "data list"
  out_log :: "(exit \<times> data) list"

text \<open>The queue as its constructor leaves it when it finds the messages \<open>msgs\<close> from the key \<open>n\<close> on.\<close>

definition conc_init :: "nat \<Rightarrow> data list \<Rightarrow> conc" where
  "conc_init n msgs = \<lparr>putOwner = None, takeOwner = None, pcs = (\<lambda>_. Idle), read_keys = {}, erase_log = [],
     tab = (\<lambda>k. if n \<le> k \<and> k < n + length msgs then Some (msgs ! (k - n)) else None),
     minK = n, maxK = n + length msgs, cnt = int (length msgs), accepted_log = msgs, out_log = []\<rparr>"

definition conc_start :: "conc \<Rightarrow> bool" where
  "conc_start s \<longleftrightarrow> (\<exists>n msgs. s = conc_init n msgs)"

definition goto :: "tid \<Rightarrow> pc \<Rightarrow> 'a control_scheme \<Rightarrow> 'a control_scheme" where
  "goto t p s = s\<lparr>pcs := (pcs s)(t := p)\<rparr>"

text \<open>The test of the counter: \<^verbatim>\<open>take\<close> leaves its loop when it is not zero, the others when it is positive.\<close>

fun passes :: "mode \<Rightarrow> int \<Rightarrow> bool" where
  "passes TakeForever c = (c \<noteq> 0)"
| "passes TakeTimed c = (c > 0)"
| "passes ReadNext c = (c > 0)"

text \<open>\<open>notEmpty.notify_one()\<close>: some waiting thread is woken, if there is one.\<close>

inductive notify :: "'a control_scheme \<Rightarrow> 'a control_scheme \<Rightarrow> bool" where
  wake: "pcs s u = Waiting m \<Longrightarrow> notify s (goto u (Woken m) s)"
| nobody: "(\<And>u. \<not> waiting (pcs s u)) \<Longrightarrow> notify s s"

datatype label = Call | Spurious | Run | Fault | Peek | Wild

text \<open>
  The steps that leave the data of the queue alone, where \<open>c\<close> is the value of the counter and \<open>k\<close> the
  first key: calls, locking, waiting, notifying and the tests.
\<close>

inductive ctl :: "int \<Rightarrow> nat \<Rightarrow> label \<Rightarrow> 'a control_scheme \<Rightarrow> 'a control_scheme \<Rightarrow> bool" for c k where
  put_call: "pcs s t = Idle \<Longrightarrow> ctl c k Call s (goto t (PutWait v) s)"
| put_lock: "pcs s t = PutWait v \<Longrightarrow> putOwner s = None \<Longrightarrow>
    ctl c k Run s (goto t (PutLocked v) (s\<lparr>putOwner := Some t\<rparr>))"
| put_unlock: "pcs s t = PutCounted n \<Longrightarrow>
    ctl c k Run s (goto t (if n = 0 then Signal else Idle) (s\<lparr>putOwner := None\<rparr>))"
| sig_lock: "pcs s t = Signal \<Longrightarrow> takeOwner s = None \<Longrightarrow>
    ctl c k Run s (goto t SignalLocked (s\<lparr>takeOwner := Some t\<rparr>))"
| sig_notify: "pcs s t = SignalLocked \<Longrightarrow> notify s s' \<Longrightarrow> ctl c k Run s (goto t SignalUnlock s')"
| sig_unlock: "pcs s t = SignalUnlock \<Longrightarrow> ctl c k Run s (goto t Idle (s\<lparr>takeOwner := None\<rparr>))"
| take_call: "pcs s t = Idle \<Longrightarrow> m \<noteq> ReadNext \<Longrightarrow> ctl c k Call s (goto t (TakeWait m) s)"
| read_call: "pcs s t = Idle \<Longrightarrow> ctl c k Peek s (goto t (TakeWait ReadNext) s)"
| take_lock: "pcs s t = TakeWait m \<or> pcs s t = Woken m \<Longrightarrow> takeOwner s = None \<Longrightarrow>
    ctl c k Run s (goto t (TakeTest m) (s\<lparr>takeOwner := Some t\<rparr>))"
| take_wait: "pcs s t = TakeTest m \<Longrightarrow> \<not> passes m c \<Longrightarrow>
    ctl c k Run s (goto t (Waiting m) (s\<lparr>takeOwner := None\<rparr>))"
| take_timeout: "pcs s t = TakeTest m \<Longrightarrow> m \<noteq> TakeForever \<Longrightarrow> \<not> passes m c \<Longrightarrow>
    ctl c k Run s (goto t TakeUnlock s)"
| spurious: "pcs s t = Waiting m \<Longrightarrow> ctl c k Spurious s (goto t (Woken m) s)"
| take_go: "pcs s t = TakeTest m \<Longrightarrow> passes m c \<Longrightarrow> ctl c k Run s (goto t (TakeReady m) s)"
| take_notify: "pcs s t = TakeCounted n \<Longrightarrow> n > 1 \<Longrightarrow> notify s s' \<Longrightarrow> ctl c k Run s (goto t TakeUnlock s')"
| take_quiet: "pcs s t = TakeCounted n \<Longrightarrow> n \<le> 1 \<Longrightarrow> ctl c k Run s (goto t TakeUnlock s)"
| take_unlock: "pcs s t = TakeUnlock \<Longrightarrow> ctl c k Run s (goto t Idle (s\<lparr>takeOwner := None\<rparr>))"
| erase_call: "pcs s t = Idle \<Longrightarrow> j \<in> read_keys s \<Longrightarrow> ctl c k Call s (goto t (EraseTest j) s)"
| erase_wild: "pcs s t = Idle \<Longrightarrow> ctl c k Wild s (goto t (EraseTest j) s)"
| erase_other: "pcs s t = EraseTest j \<Longrightarrow> j \<noteq> k \<Longrightarrow> ctl c k Run s (goto t Idle s)"
| erase_same: "pcs s t = EraseTest j \<Longrightarrow> j = k \<Longrightarrow> ctl c k Run s (goto t (EraseWait j) s)"
| erase_lock: "pcs s t = EraseWait j \<Longrightarrow> takeOwner s = None \<Longrightarrow>
    ctl c k Run s (goto t (EraseLocked j) (s\<lparr>takeOwner := Some t\<rparr>))"
| erase_late: "pcs s t = EraseLocked j \<Longrightarrow> j \<noteq> k \<Longrightarrow>
    ctl c k Run s (goto t TakeUnlock (s\<lparr>erase_log := erase_log s @ [j]\<rparr>))"
| clear_call: "pcs s t = Idle \<Longrightarrow> ctl c k Call s (goto t ClearWait s)"
| clear_lock_put: "pcs s t = ClearWait \<Longrightarrow> putOwner s = None \<Longrightarrow>
    ctl c k Run s (goto t ClearPutLocked (s\<lparr>putOwner := Some t\<rparr>))"
| clear_lock_take: "pcs s t = ClearPutLocked \<Longrightarrow> takeOwner s = None \<Longrightarrow>
    ctl c k Run s (goto t ClearTest (s\<lparr>takeOwner := Some t\<rparr>))"
| clear_done: "pcs s t = ClearTest \<Longrightarrow> c \<le> 0 \<Longrightarrow> ctl c k Run s (goto t ClearUnlock s)"
| clear_unlock_take: "pcs s t = ClearUnlock \<Longrightarrow>
    ctl c k Run s (goto t ClearPutUnlock (s\<lparr>takeOwner := None\<rparr>))"
| clear_unlock_put: "pcs s t = ClearPutUnlock \<Longrightarrow> ctl c k Run s (goto t Idle (s\<lparr>putOwner := None\<rparr>))"

text \<open>The store removes the entry of the first key; removing an absent key succeeds as well.\<close>

definition pop :: "exit \<Rightarrow> conc \<Rightarrow> conc" where
  "pop x s = s\<lparr>tab := (tab s)(minK s := None),
     out_log := out_log s @ (case tab s (minK s) of None \<Rightarrow> [] | Some v \<Rightarrow> [(x, v)])\<rparr>"

definition advance :: "conc \<Rightarrow> conc" where
  "advance s = s\<lparr>minK := minK s + 1, cnt := cnt s - 1\<rparr>"

inductive cstep :: "label \<Rightarrow> conc \<Rightarrow> conc \<Rightarrow> bool" where
  control: "ctl (cnt s) (minK s) l s s' \<Longrightarrow> cstep l s s'"
| put_store: "pcs s t = PutLocked v \<Longrightarrow>
    cstep Run s (goto t PutStored (s\<lparr>tab := (tab s)(maxK s \<mapsto> v), maxK := maxK s + 1,
      accepted_log := accepted_log s @ [v]\<rparr>))"
| put_fail: "pcs s t = PutLocked v \<Longrightarrow> cstep Run s (goto t (PutCounted (- 1)) s)"
| put_count: "pcs s t = PutStored \<Longrightarrow> cstep Run s (goto t (PutCounted (cnt s)) (s\<lparr>cnt := cnt s + 1\<rparr>))"
| take_remove: "pcs s t = TakeReady m \<Longrightarrow> m \<noteq> ReadNext \<Longrightarrow> tab s (minK s) \<noteq> None \<Longrightarrow>
    cstep Run s (goto t TakeRemoved (pop Taken s))"
| read_get: "pcs s t = TakeReady ReadNext \<Longrightarrow> tab s (minK s) \<noteq> None \<Longrightarrow>
    cstep Run s (goto t TakeUnlock (s\<lparr>read_keys := if pKey then insert (minK s) (read_keys s) else read_keys s\<rparr>))"
| take_missing: "pcs s t = TakeReady m \<Longrightarrow> tab s (minK s) = None \<Longrightarrow> cstep Run s (goto t TakeUnlock s)"
| take_fail: "pcs s t = TakeReady m \<Longrightarrow> cstep Fault s (goto t TakeUnlock s)"
| take_count: "pcs s t = TakeRemoved \<Longrightarrow> cstep Run s (goto t (TakeCounted (cnt s)) (advance s))"
| erase_remove: "pcs s t = EraseLocked k \<Longrightarrow> k = minK s \<Longrightarrow>
    cstep Run s (goto t TakeRemoved ((pop Erased s)\<lparr>erase_log := erase_log s @ [k]\<rparr>))"
| erase_fail: "pcs s t = EraseLocked k \<Longrightarrow> k = minK s \<Longrightarrow> cstep Run s (goto t TakeUnlock s)"
| clear_remove: "pcs s t = ClearTest \<Longrightarrow> cnt s > 0 \<Longrightarrow> cstep Run s (goto t ClearRemoved (pop Cleared s))"
| clear_fail: "pcs s t = ClearTest \<Longrightarrow> cnt s > 0 \<Longrightarrow> cstep Run s (goto t ClearUnlock s)"
| clear_count: "pcs s t = ClearRemoved \<Longrightarrow> cstep Run s (goto t ClearTest (advance s))"

text \<open>The states that a labelled system reaches with the labels \<open>L\<close>.\<close>

inductive reach :: "('s \<Rightarrow> bool) \<Rightarrow> ('l \<Rightarrow> 's \<Rightarrow> 's \<Rightarrow> bool) \<Rightarrow> 'l set \<Rightarrow> 's \<Rightarrow> bool" for start step L where
  start: "start s \<Longrightarrow> reach start step L s"
| step: "reach start step L s \<Longrightarrow> step l s s' \<Longrightarrow> l \<in> L \<Longrightarrow> reach start step L s'"

abbreviation reachable :: "label set \<Rightarrow> conc \<Rightarrow> bool" where
  "reachable \<equiv> reach conc_start cstep"

inductive_cases notifyE: "notify s s'"
inductive_simps notify_simps: "notify s s'"

section \<open>Mutual exclusion and contents\<close>

text \<open>
  Between a store call and the update of the counter: a message is stored but not counted, or the entry
  of the first key is gone but still counted.
\<close>

definition stored :: "'a control_scheme \<Rightarrow> nat" where
  "stored s = (if \<exists>t. pcs s t = PutStored then 1 else 0)"

fun removing :: "pc \<Rightarrow> bool" where
  "removing TakeRemoved = True"
| "removing ClearRemoved = True"
| "removing _ = False"

definition removed :: "'a control_scheme \<Rightarrow> nat" where
  "removed s = (if \<exists>t. removing (pcs s t) then 1 else 0)"

text \<open>The threads that rely on a positive counter, and the keys that are being erased.\<close>

fun relies :: "pc \<Rightarrow> bool" where
  "relies (TakeReady m) = True"
| "relies p = removing p"

fun erasing :: "pc \<Rightarrow> nat option" where
  "erasing (EraseTest k) = Some k"
| "erasing (EraseWait k) = Some k"
| "erasing (EraseLocked k) = Some k"
| "erasing _ = None"

definition mutex :: "'a control_scheme \<Rightarrow> bool" where
  "mutex s \<longleftrightarrow> (\<forall>t. put_crit (pcs s t) \<longleftrightarrow> putOwner s = Some t) \<and>
     (\<forall>t. take_crit (pcs s t) \<longleftrightarrow> takeOwner s = Some t)"

definition contents :: "conc \<Rightarrow> bool" where
  "contents s \<longleftrightarrow> int (minK s) + cnt s + int (stored s) = int (maxK s) \<and> 0 \<le> cnt s \<and>
     (\<forall>t. relies (pcs s t) \<longrightarrow> 0 < cnt s) \<and>
     (\<forall>k. tab s k \<noteq> None \<longleftrightarrow> minK s + removed s \<le> k \<and> k < maxK s) \<and>
     accepted_log s = map snd (out_log s) @ map (\<lambda>k. the (tab s k)) [minK s + removed s ..< maxK s]"

text \<open>Keys that were read, or that are being erased, lie below the first key that was never counted.\<close>

definition known_keys :: "conc \<Rightarrow> bool" where
  "known_keys s \<longleftrightarrow> (\<forall>k \<in> read_keys s. int k < int (minK s) + cnt s) \<and>
     (\<forall>t k. erasing (pcs s t) = Some k \<longrightarrow> int k < int (minK s) + cnt s)"

lemma goto_simps [simp]:
  "pcs (goto t p s) = (pcs s)(t := p)" "putOwner (goto t p s) = putOwner s" "takeOwner (goto t p s) = takeOwner s"
  "read_keys (goto t p s) = read_keys s" "erase_log (goto t p s) = erase_log s"
  "control.more (goto t p s) = control.more s"
  by (simp_all add: goto_def)

lemma goto_data [simp]:
  "tab (goto t p s) = tab s" "minK (goto t p s) = minK s" "maxK (goto t p s) = maxK s" "cnt (goto t p s) = cnt s"
  "accepted_log (goto t p s) = accepted_log s" "out_log (goto t p s) = out_log s"
  by (simp_all add: goto_def)

lemma pop_simps [simp]:
  "pcs (pop x s) = pcs s" "minK (pop x s) = minK s" "maxK (pop x s) = maxK s" "cnt (pop x s) = cnt s"
  "putOwner (pop x s) = putOwner s" "takeOwner (pop x s) = takeOwner s" "accepted_log (pop x s) = accepted_log s"
  "read_keys (pop x s) = read_keys s" "erase_log (pop x s) = erase_log s"
  by (simp_all add: pop_def)

lemma advance_simps [simp]:
  "pcs (advance s) = pcs s" "tab (advance s) = tab s" "minK (advance s) = Suc (minK s)" "maxK (advance s) = maxK s"
  "cnt (advance s) = cnt s - 1" "putOwner (advance s) = putOwner s" "takeOwner (advance s) = takeOwner s"
  "accepted_log (advance s) = accepted_log s" "out_log (advance s) = out_log s"
  "read_keys (advance s) = read_keys s" "erase_log (advance s) = erase_log s"
  by (simp_all add: advance_def)

lemma inv_start:
  assumes "conc_start s"
  shows "mutex s" "contents s" "known_keys s"
proof -
  obtain n msgs where s: "s = conc_init n msgs" using assms by (auto simp: conc_start_def)
  have "map (\<lambda>k. the (tab s k)) [n ..< n + length msgs] = msgs"
    by (rule nth_equalityI) (auto simp: s conc_init_def)
  then show "contents s" by (simp add: s contents_def conc_init_def stored_def removed_def)
qed (use assms in \<open>auto simp: conc_start_def conc_init_def mutex_def known_keys_def\<close>)

subsection \<open>The mutexes\<close>

lemma mutex_cong: "pcs s' = pcs s \<Longrightarrow> putOwner s' = putOwner s \<Longrightarrow> takeOwner s' = takeOwner s \<Longrightarrow> mutex s' = mutex s"
  by (simp add: mutex_def)

lemma mutex_goto:
  assumes "mutex s" "pcs s' = pcs s"
    "putOwner s' = (if put_crit p then Some t else if put_crit (pcs s t) then None else putOwner s)"
    "takeOwner s' = (if take_crit p then Some t else if take_crit (pcs s t) then None else takeOwner s)"
    "put_crit p \<Longrightarrow> put_crit (pcs s t) \<or> putOwner s = None"
    "take_crit p \<Longrightarrow> take_crit (pcs s t) \<or> takeOwner s = None"
  shows "mutex (goto t p s')"
  using assms unfolding mutex_def by (auto split: if_splits)

text \<open>Waking a thread changes nothing but its program point, which is outside all critical sections.\<close>

lemma notify_frame:
  assumes "notify s s'"
  shows "control.more s' = control.more s" "putOwner s' = putOwner s" "takeOwner s' = takeOwner s"
    "read_keys s' = read_keys s" "erase_log s' = erase_log s"
    "put_crit (pcs s' t) = put_crit (pcs s t)" "take_crit (pcs s' t) = take_crit (pcs s t)"
    "removing (pcs s' t) = removing (pcs s t)" "relies (pcs s' t) = relies (pcs s t)"
    "erasing (pcs s' t) = erasing (pcs s t)" "pcs s' t = PutStored \<longleftrightarrow> pcs s t = PutStored"
    "\<not> waiting (pcs s t) \<Longrightarrow> pcs s' t = pcs s t"
  using assms by (auto elim!: notifyE split: if_splits)

lemma notify_pc: "notify s s' \<Longrightarrow> \<not> waiting (pcs s t) \<Longrightarrow> pcs s' t = pcs s t"
  by (rule notify_frame(12))

lemma notify_mutex: "notify s s' \<Longrightarrow> mutex s \<Longrightarrow> mutex s'"
  by (simp add: mutex_def notify_frame)

lemma owner_eq:
  "mutex s \<Longrightarrow> put_crit (pcs s t) \<Longrightarrow> putOwner s = Some t"
  "mutex s \<Longrightarrow> take_crit (pcs s t) \<Longrightarrow> takeOwner s = Some t"
  by (simp_all add: mutex_def)

lemma mutex_ctl: "ctl c k l s s' \<Longrightarrow> mutex s \<Longrightarrow> mutex s'"
proof (induction rule: ctl.induct)
  case (sig_notify s t s')
  then have "mutex s'" "pcs s' t = SignalLocked" using notify_mutex notify_pc [of s s' t] by auto
  then show ?case using owner_eq [of s' t] by - (rule mutex_goto [of s']; simp)
next
  case (take_notify s t n s')
  then have "mutex s'" "pcs s' t = TakeCounted n" using notify_mutex notify_pc [of s s' t] by auto
  then show ?case using owner_eq [of s' t] by - (rule mutex_goto [of s']; simp)
next
  case (take_lock s t m)
  then show ?case by - (rule mutex_goto [of s]; auto)
qed ((rule mutex_goto, assumption); simp add: owner_eq split: if_splits)+

lemma mutex_step: "cstep l s s' \<Longrightarrow> mutex s \<Longrightarrow> mutex s'"
proof (induction rule: cstep.induct)
  case (control s l s')
  then show ?case by (rule mutex_ctl)
qed ((rule mutex_goto, assumption); simp add: owner_eq split: if_splits)+

text \<open>The data of the queue is the extension of the control record.\<close>

lemma same_data:
  assumes "control.more s' = control.more s"
  shows "tab s' = tab s" "minK s' = minK s" "maxK s' = maxK s" "cnt s' = cnt s"
    "accepted_log s' = accepted_log s" "out_log s' = out_log s"
  using assms by (cases s; cases s'; simp)+

lemma ctl_data: "ctl c k l s s' \<Longrightarrow> control.more s' = control.more s"
  by (induction rule: ctl.induct) (simp_all add: notify_frame)

subsection \<open>Keys, counter and table\<close>

lemma crit_unique:
  "mutex s \<Longrightarrow> put_crit (pcs s t) \<Longrightarrow> put_crit (pcs s u) \<Longrightarrow> t = u"
  "mutex s \<Longrightarrow> take_crit (pcs s t) \<Longrightarrow> take_crit (pcs s u) \<Longrightarrow> t = u"
  by (simp_all add: mutex_def)

lemma relies_crit: "relies p \<Longrightarrow> take_crit p" "removing p \<Longrightarrow> relies p" "removing p \<Longrightarrow> take_crit p"
  by (cases p; simp)+

lemma stored_cong: "pcs s' = pcs s \<Longrightarrow> stored s' = stored s"
  and removed_cong: "pcs s' = pcs s \<Longrightarrow> removed s' = removed s"
  by (simp_all add: stored_def removed_def)

lemma stored_goto:
  "pcs s t \<noteq> PutStored \<Longrightarrow> p \<noteq> PutStored \<Longrightarrow> stored (goto t p s) = stored s"
  "stored (goto t PutStored s) = 1"
  "pcs s t = PutStored \<Longrightarrow> stored s = 1"
  by (auto simp: stored_def)

lemma stored_own:
  assumes "mutex s" "put_crit (pcs s t)"
  shows "pcs s t \<noteq> PutStored \<Longrightarrow> stored s = 0" "p \<noteq> PutStored \<Longrightarrow> stored (goto t p s) = 0"
proof -
  have "pcs s u \<noteq> PutStored" if "u \<noteq> t" for u using crit_unique(1) [OF assms, of u] that by auto
  then show "pcs s t \<noteq> PutStored \<Longrightarrow> stored s = 0" "p \<noteq> PutStored \<Longrightarrow> stored (goto t p s) = 0"
    unfolding stored_def by (metis, auto)
qed

lemma removed_goto:
  "\<not> removing (pcs s t) \<Longrightarrow> \<not> removing p \<Longrightarrow> removed (goto t p s) = removed s"
  "removing p \<Longrightarrow> removed (goto t p s) = 1"
  "removing (pcs s t) \<Longrightarrow> removed s = 1"
  by (auto simp: removed_def)

lemma removed_own:
  assumes "mutex s" "take_crit (pcs s t)"
  shows "\<not> removing (pcs s t) \<Longrightarrow> removed s = 0" "\<not> removing p \<Longrightarrow> removed (goto t p s) = 0"
proof -
  have "\<not> removing (pcs s u)" if "u \<noteq> t" for u
    using crit_unique(2) [OF assms, of u] that relies_crit(3) by auto
  then show "\<not> removing (pcs s t) \<Longrightarrow> removed s = 0" "\<not> removing p \<Longrightarrow> removed (goto t p s) = 0"
    unfolding removed_def by (metis, auto)
qed

lemma contents_pos: "contents s \<Longrightarrow> relies (pcs s t) \<Longrightarrow> 0 < cnt s"
  unfolding contents_def by blast

text \<open>Steps that touch neither keys nor counter nor table.\<close>

lemma contents_goto:
  assumes "contents s" "pcs s' = pcs s" "tab s' = tab s" "minK s' = minK s" "maxK s' = maxK s" "cnt s' = cnt s"
    "accepted_log s' = accepted_log s" "out_log s' = out_log s"
    "pcs s t \<noteq> PutStored" "p \<noteq> PutStored" "\<not> removing (pcs s t)" "\<not> removing p" "relies p \<longrightarrow> 0 < cnt s"
  shows "contents (goto t p s')"
  using assms stored_cong [OF assms(2)] removed_cong [OF assms(2)]
  by (auto simp: contents_def stored_goto removed_goto)

lemma contents_notify:
  assumes "notify s s'" "contents s"
  shows "contents s'"
proof -
  have "stored s' = stored s" "removed s' = removed s"
    using notify_frame [OF assms(1)] by (simp_all add: stored_def removed_def)
  then show ?thesis
    using assms(2) notify_frame [OF assms(1)] same_data [OF notify_frame(1) [OF assms(1)]] by (simp add: contents_def)
qed

lemma contents_keys:
  assumes "contents s"
  shows "minK s + removed s \<le> maxK s"
proof (cases "\<exists>t. removing (pcs s t)")
  case True
  then have "0 < cnt s" "removed s = 1" using contents_pos [OF assms] relies_crit(2) by (auto simp: removed_def)
  then show ?thesis using assms by (auto simp: contents_def)
next
  case False
  then show ?thesis using assms by (auto simp: contents_def removed_def)
qed

lemma contents_put_store:
  assumes "contents s" "mutex s" "pcs s t = PutLocked v"
  shows "contents (goto t PutStored (s\<lparr>tab := (tab s)(maxK s \<mapsto> v), maxK := Suc (maxK s),
    accepted_log := accepted_log s @ [v]\<rparr>))"
proof -
  let ?s = "s\<lparr>tab := (tab s)(maxK s \<mapsto> v), maxK := Suc (maxK s), accepted_log := accepted_log s @ [v]\<rparr>"
  have "stored s = 0" using stored_own(1) [OF assms(2), of t] assms(3) by simp
  moreover have "stored (goto t PutStored ?s) = 1" "removed (goto t PutStored ?s) = removed s"
    using assms(3) removed_cong [of ?s s] by (simp_all add: stored_goto removed_goto)
  ultimately show ?thesis
    using assms(1) contents_keys [OF assms(1)] by (auto simp: contents_def)
qed

lemma contents_put_count:
  assumes "contents s" "mutex s" "pcs s t = PutStored"
  shows "contents (goto t (PutCounted c) (s\<lparr>cnt := cnt s + 1\<rparr>))"
proof -
  let ?s = "s\<lparr>cnt := cnt s + 1\<rparr>"
  have "mutex ?s" using assms(2) by (simp add: mutex_def)
  then have "stored (goto t (PutCounted c) ?s) = 0" "removed (goto t (PutCounted c) ?s) = removed s"
    using assms(3) stored_own(2) [of ?s t] removed_cong [of ?s s] by (simp_all add: removed_goto)
  then show ?thesis using assms(1) stored_goto(3) [OF assms(3)] by (auto simp: contents_def)
qed

lemma first_present:
  assumes "contents s" "removed s = 0" "0 < cnt s"
  shows "tab s (minK s) \<noteq> None" "minK s < maxK s"
proof -
  have "int (minK s) + cnt s + int (stored s) = int (maxK s)" using assms(1) by (simp add: contents_def)
  then show "minK s < maxK s" using assms(3) by linarith
  then show "tab s (minK s) \<noteq> None"
    using assms(1,2) unfolding contents_def by (metis add_0_right order_refl)
qed

lemma contents_pop:
  assumes c: "contents s" and m: "mutex s" and t: "take_crit (pcs s t)" "\<not> removing (pcs s t)"
    and pos: "0 < cnt s" and p: "removing p"
    and s': "pcs s' = pcs s" "tab s' = tab (pop x s)" "minK s' = minK s" "maxK s' = maxK s" "cnt s' = cnt s"
      "accepted_log s' = accepted_log s" "out_log s' = out_log (pop x s)"
  shows "contents (goto t p s')"
proof -
  have r: "removed s = 0" using removed_own(1) [OF m t] .
  note present = first_present [OF c r pos]
  then obtain v where v: "tab s (minK s) = Some v" by blast
  have upt: "[minK s ..< maxK s] = minK s # [Suc (minK s) ..< maxK s]" using present(2) by (rule upt_conv_Cons)
  have "pcs s t \<noteq> PutStored" "p \<noteq> PutStored" using t(1) p by auto
  then have "stored (goto t p s') = stored s" "removed (goto t p s') = 1"
    using stored_cong [OF s'(1)] s'(1) p by (simp_all add: stored_goto removed_goto)
  with c r v upt pos present(2) show ?thesis
    by (auto simp: contents_def pop_def s')
qed

lemma contents_advance:
  assumes c: "contents s" and m: "mutex s" and t: "removing (pcs s t)" and p: "\<not> relies p" "p \<noteq> PutStored"
  shows "contents (goto t p (advance s))"
proof -
  have pos: "0 < cnt s" using contents_pos [OF c relies_crit(2) [OF t]] .
  have "mutex (advance s)" using m by (simp add: mutex_def)
  then have "removed (goto t p (advance s)) = 0" "removed s = 1"
    using t p(1) removed_own(2) [of "advance s" t] relies_crit by (auto simp: removed_goto)
  moreover have "pcs s t \<noteq> PutStored" using t by auto
  then have "stored (goto t p (advance s)) = stored s"
    using p(2) stored_cong [of "advance s" s] by (simp add: stored_goto)
  moreover have "\<not> relies (pcs s u)" if "u \<noteq> t" for u
    using crit_unique(2) [OF m, of t u] that t relies_crit by blast
  ultimately show ?thesis using c pos p(1) by (auto simp: contents_def)
qed

lemma known_goto:
  assumes "known_keys s" "pcs s' = pcs s" "int (minK s) + cnt s \<le> int (minK s') + cnt s'"
    "\<And>k. k \<in> read_keys s' \<Longrightarrow> k \<in> read_keys s \<or> int k < int (minK s) + cnt s"
    "\<And>k. erasing p = Some k \<Longrightarrow> int k < int (minK s) + cnt s"
  shows "known_keys (goto t p s')"
  using assms by (fastforce simp: known_keys_def)

lemma known_erasing: "known_keys s \<Longrightarrow> erasing (pcs s t) = Some k \<Longrightarrow> int k < int (minK s) + cnt s"
  unfolding known_keys_def by blast

lemma contents_ctl:
  assumes "ctl c k l s s'" "contents s" "c = cnt s"
  shows "contents s'"
  using assms
proof (induction rule: ctl.induct)
  case (sig_notify s t s')
  then have "contents s'" "pcs s' t = SignalLocked" using contents_notify notify_pc [of s s' t] by auto
  then show ?case by - (rule contents_goto [of s']; simp)
next
  case (take_notify s t n s')
  then have "contents s'" "pcs s' t = TakeCounted n" using contents_notify notify_pc [of s s' t] by auto
  then show ?case by - (rule contents_goto [of s']; simp)
next
  case (take_go s t m)
  then have "0 < cnt s" by (cases m) (auto simp: contents_def)
  with take_go show ?case by - (rule contents_goto [of s]; simp)
next
  case (take_lock s t m)
  then show ?case by - (rule contents_goto [of s]; auto)
qed ((rule contents_goto, assumption); simp)+

lemma contents_step:
  assumes "cstep l s s'" "mutex s" "contents s" "known_keys s"
  shows "contents s'"
  using assms
proof (induction rule: cstep.induct)
  case (control s l s')
  then show ?case using contents_ctl by blast
next
  case (put_store s t v)
  then show ?case using contents_put_store by simp
next
  case (put_count s t)
  then show ?case using contents_put_count by blast
next
  case (take_remove s t m)
  then have "0 < cnt s" using contents_pos [of s t] by simp
  with take_remove show ?case by - (rule contents_pop [of s _ _ _ Taken]; simp)
next
  case (erase_remove s t k)
  then have "0 < cnt s" using known_erasing [of s t k] by simp
  with erase_remove show ?case by - (rule contents_pop [of s _ _ _ Erased]; simp add: pop_def)
next
  case (clear_remove s t)
  then show ?case by - (rule contents_pop [of s _ _ _ Cleared]; simp)
next
  case (take_count s t)
  then show ?case by - (rule contents_advance; simp)
next
  case (clear_count s t)
  then show ?case by - (rule contents_advance; simp)
qed ((rule contents_goto, assumption); simp)+

lemma known_ctl:
  assumes "ctl c k l s s'" "l \<noteq> Wild" "known_keys s"
  shows "known_keys s'"
  using assms
proof (induction rule: ctl.induct)
  case (sig_notify s t s')
  then have "known_keys s'" by (simp add: known_keys_def notify_frame same_data [OF notify_frame(1)])
  then show ?case by - (rule known_goto [of s']; simp)
next
  case (take_notify s t n s')
  then have "known_keys s'" by (simp add: known_keys_def notify_frame same_data [OF notify_frame(1)])
  then show ?case by - (rule known_goto [of s']; simp)
next
  case (erase_call s t j)
  then show ?case by - (rule known_goto [of s]; auto simp: known_keys_def)
next
  case (erase_same s t j)
  then show ?case using known_erasing [of s t j] by - (rule known_goto [of s]; simp)
next
  case (erase_lock s t j)
  then show ?case using known_erasing [of s t j] by - (rule known_goto [of s]; simp)
qed ((rule known_goto, assumption); simp split: if_splits)+

lemma known_step:
  assumes "cstep l s s'" "l \<noteq> Wild" "contents s" "known_keys s"
  shows "known_keys s'"
  using assms
proof (induction rule: cstep.induct)
  case (control s l s')
  then show ?case using known_ctl by blast
next
  case (read_get s t pKey)
  then have "0 < cnt s" using contents_pos [of s t] by simp
  with read_get show ?case by - (rule known_goto [of s]; auto split: if_splits)
qed ((rule known_goto, assumption); simp split: if_splits)+

lemma reachable_mutex: "reachable L s \<Longrightarrow> mutex s"
  by (induction rule: reach.induct) (auto simp: inv_start intro: mutex_step)

lemma reachable_inv: "reachable L s \<Longrightarrow> Wild \<notin> L \<Longrightarrow> mutex s \<and> contents s \<and> known_keys s"
proof (induction rule: reach.induct)
  case (start s)
  then show ?case by (simp add: inv_start)
next
  case (step s l s')
  then have i: "mutex s" "contents s" "known_keys s" "l \<noteq> Wild" by auto
  show ?case
    using mutex_step [OF step.hyps(2) i(1)] contents_step [OF step.hyps(2) i(1-3)]
      known_step [OF step.hyps(2) i(4,2,3)] by blast
qed

end
