(* ===== verification/Kueue_Conc.thy ===== *)
theory Kueue_Conc
  imports Kueue_Threads
begin

text \<open>
  What the threads of a queue can rely on.  Without failing store calls of takers and without \<^verbatim>\<open>readNext\<close>
  no wake-up is lost: whenever a thread waits for a message that is there, another one is going to take it
  or to notify.  An executable version of the step relation runs schedules that show that these provisos
  are needed, and that \<^verbatim>\<open>erase\<close> can return true to two threads for one message.
\<close>

section \<open>No lost wake-up\<close>

text \<open>
  The program points from which a thread is still going to take a message or to pass a notification
  on.  A thread in \<^verbatim>\<open>readNext\<close> does neither.
\<close>

fun will_act :: "pc \<Rightarrow> bool" where
  "will_act (PutCounted c) = (c = 0)"
| "will_act Signal = True"
| "will_act SignalLocked = True"
| "will_act (TakeTest m) = (m \<noteq> ReadNext)"
| "will_act (Woken m) = (m \<noteq> ReadNext)"
| "will_act (TakeReady m) = (m \<noteq> ReadNext)"
| "will_act TakeRemoved = True"
| "will_act (TakeCounted c) = (c > 1)"
| "will_act _ = False"

definition no_lost_wakeup :: "conc \<Rightarrow> bool" where
  "no_lost_wakeup s \<longleftrightarrow> ((\<exists>u. waiting (pcs s u)) \<and> 0 < cnt s \<longrightarrow> (\<exists>u. will_act (pcs s u)))"

fun reading :: "pc \<Rightarrow> bool" where
  "reading (TakeWait m) = (m = ReadNext)"
| "reading (TakeTest m) = (m = ReadNext)"
| "reading (Waiting m) = (m = ReadNext)"
| "reading (Woken m) = (m = ReadNext)"
| "reading (TakeReady m) = (m = ReadNext)"
| "reading _ = False"

definition no_readers :: "'a control_scheme \<Rightarrow> bool" where
  "no_readers s \<longleftrightarrow> (\<forall>t. \<not> reading (pcs s t))"

lemma no_readersD: "no_readers s \<Longrightarrow> \<not> reading (pcs s t)"
  by (simp add: no_readers_def)

lemma no_readers_goto: "no_readers s \<Longrightarrow> pcs s' = pcs s \<Longrightarrow> \<not> reading p \<Longrightarrow> no_readers (goto t p s')"
  by (simp add: no_readers_def)

lemma no_readers_notify:
  assumes "notify s s'" "no_readers s"
  shows "no_readers s'"
  using assms(1)
proof (cases rule: notify.cases)
  case (wake u m)
  then show ?thesis using assms(2) no_readersD [OF assms(2), of u] by (auto intro: no_readers_goto)
qed (use assms(2) in simp)

lemma no_readers_ctl:
  assumes "ctl c k l s s'" "l \<noteq> Peek" "no_readers s"
  shows "no_readers s'"
  using assms
proof (induction rule: ctl.induct)
  case (take_lock s t m)
  then show ?case using no_readersD [of s t] by - (rule no_readers_goto [of s]; auto)
next
  case (take_wait s t m)
  then show ?case using no_readersD [of s t] by - (rule no_readers_goto [of s]; simp)
next
  case (take_go s t m)
  then show ?case using no_readersD [of s t] by - (rule no_readers_goto [of s]; simp)
next
  case (spurious s t m)
  then show ?case using no_readersD [of s t] by - (rule no_readers_goto [of s]; simp)
next
  case (sig_notify s t s')
  then show ?case using no_readers_notify by - (rule no_readers_goto [of s']; simp)
next
  case (take_notify s t n s')
  then show ?case using no_readers_notify by - (rule no_readers_goto [of s']; simp)
qed ((rule no_readers_goto, assumption); simp)+

lemma no_readers_step:
  assumes "cstep l s s'" "l \<noteq> Peek" "no_readers s"
  shows "no_readers s'"
  using assms
proof (induction rule: cstep.induct)
  case (control s l s')
  then show ?case using no_readers_ctl by blast
qed ((rule no_readers_goto, assumption); simp)+

lemma wakeup_acting: "will_act (pcs s t) \<Longrightarrow> no_lost_wakeup s"
  by (auto simp: no_lost_wakeup_def)

lemma wakeup_goto:
  assumes "no_lost_wakeup s" "pcs s' = pcs s" "\<not> will_act (pcs s t)" "\<not> waiting p"
    "cnt s' \<le> cnt s \<or> 0 < cnt s"
  shows "no_lost_wakeup (goto t p s')"
proof (unfold no_lost_wakeup_def, intro impI, elim conjE exE)
  fix u
  assume "waiting (pcs (goto t p s') u)" "0 < cnt (goto t p s')"
  then have "waiting (pcs s u)" "0 < cnt s" using assms(2,4,5) by (auto split: if_splits)
  then obtain v where "will_act (pcs s v)" using assms(1) by (auto simp: no_lost_wakeup_def)
  then have "will_act (pcs (goto t p s') v)" using assms(2,3) by auto
  then show "\<exists>v. will_act (pcs (goto t p s') v)" ..
qed

lemma wakeup_notify:
  assumes "notify s s'" "no_readers s" "\<not> waiting (pcs s t)" "\<not> waiting p"
  shows "no_lost_wakeup (goto t p s')"
  using assms(1)
proof (cases rule: notify.cases)
  case (wake u m)
  then have "will_act (pcs (goto t p s') u)" using assms(3) no_readersD [OF assms(2), of u] by auto
  then show ?thesis by (rule wakeup_acting)
next
  case nobody
  then show ?thesis using assms(4) by (auto simp: no_lost_wakeup_def)
qed

lemma wakeup_empty: "contents s \<Longrightarrow> \<not> passes m (cnt s) \<Longrightarrow> cnt s' = cnt s \<Longrightarrow> no_lost_wakeup (goto t p s')"
  by (cases m) (auto simp: no_lost_wakeup_def contents_def)

lemma ready_present:
  assumes "mutex s" "contents s" "pcs s t = TakeReady m"
  shows "tab s (minK s) \<noteq> None"
  using first_present(1) [OF assms(2) _ contents_pos [OF assms(2), of t]] removed_own(1) [OF assms(1), of t] assms(3)
  by simp

lemma wakeup_ctl:
  assumes "ctl c k l s s'" "l \<noteq> Peek" "contents s" "no_readers s" "no_lost_wakeup s" "c = cnt s"
  shows "no_lost_wakeup s'"
  using assms
proof (induction rule: ctl.induct)
  case (put_unlock s t n)
  then show ?case
    by (cases "n = 0") ((rule wakeup_acting [where t = t], simp), (rule wakeup_goto [of s]; simp))
next
  case (sig_notify s t s')
  then show ?case by - (rule wakeup_notify [of s]; simp)
next
  case (take_notify s t n s')
  then show ?case by - (rule wakeup_notify [of s]; simp)
next
  case (take_wait s t m)
  then show ?case by - (rule wakeup_empty [of s m]; simp)
next
  case (take_timeout s t m)
  then show ?case by - (rule wakeup_empty [of s m]; simp)
next
  case (sig_lock s t)
  show ?case by (rule wakeup_acting [where t = t]) simp
next
  case (take_lock s t m)
  then show ?case using no_readersD [of s t] by - (rule wakeup_acting [where t = t]; auto)
next
  case (spurious s t m)
  then show ?case using no_readersD [of s t] by - (rule wakeup_acting [where t = t]; simp)
next
  case (take_go s t m)
  then show ?case using no_readersD [of s t] by - (rule wakeup_acting [where t = t]; simp)
qed (((rule wakeup_goto, assumption); simp) | simp)+

lemma wakeup_step:
  assumes "cstep l s s'" "l \<notin> {Fault, Peek}" "mutex s" "contents s" "no_readers s" "no_lost_wakeup s"
  shows "no_lost_wakeup s'"
  using assms
proof (induction rule: cstep.induct)
  case (control s l s')
  then show ?case using wakeup_ctl by blast
next
  case (put_count s t)
  show ?case
  proof (cases "cnt s = 0")
    case True
    then show ?thesis by - (rule wakeup_acting [where t = t], simp)
  next
    case False
    then have "0 < cnt s" using put_count.prems(3) by (auto simp: contents_def)
    then show ?thesis using put_count by - (rule wakeup_goto [of s]; simp)
  qed
next
  case (take_count s t)
  then show ?case
    by (cases "1 < cnt s") ((rule wakeup_acting [where t = t], simp), simp add: no_lost_wakeup_def)
next
  case (take_missing s t m)
  then show ?case using ready_present [of s t m] by simp
next
  case (read_get s t pKey)
  then show ?case using no_readersD [of s t] by simp
next
  case (take_remove s t m)
  show ?case by (rule wakeup_acting [where t = t]) simp
next
  case (erase_remove s t k)
  show ?case by (rule wakeup_acting [where t = t]) simp
qed (((rule wakeup_goto, assumption); simp) | simp)+

lemma reachable_wakeup:
  assumes "reachable L s" "L \<inter> {Fault, Peek, Wild} = {}"
  shows "no_readers s \<and> no_lost_wakeup s"
  using assms(1)
proof (induction rule: reach.induct)
  case (start s)
  then show ?case by (auto simp: conc_start_def no_readers_def no_lost_wakeup_def conc_init_def)
next
  case (step s l s')
  then have l: "l \<noteq> Peek" "l \<notin> {Fault, Peek}" "Wild \<notin> L" using assms(2) by auto
  show ?case
    using no_readers_step [OF step.hyps(2) l(1)] wakeup_step [OF step.hyps(2) l(2)] step.IH
      reachable_inv [OF step.hyps(1) l(3)] by blast
qed

text \<open>
  Whoever holds the mutex of the takers can go on, so a thread that is going to act, or the holder of
  the mutex it needs, has a step.
\<close>

lemma notify_total: "\<exists>s'. notify s s'"
proof (cases "\<exists>u. waiting (pcs s u)")
  case True
  then obtain u m where "pcs s u = Waiting m" by (metis waiting.elims(2))
  then show ?thesis using notify.wake by blast
next
  case False
  then show ?thesis using notify.nobody by blast
qed

lemma take_owner_runs:
  assumes "take_crit (pcs s t)"
  shows "\<exists>s'. cstep Run s s'"
proof -
  obtain sn where n: "notify s sn" using notify_total by blast
  show ?thesis
  proof (cases "pcs s t")
    case SignalLocked
    then show ?thesis using cstep.control [OF ctl.sig_notify] n by blast
  next
    case SignalUnlock
    then show ?thesis using cstep.control [OF ctl.sig_unlock] by blast
  next
    case (TakeTest m)
    then show ?thesis using cstep.control [OF ctl.take_go] cstep.control [OF ctl.take_wait] by blast
  next
    case (TakeReady m)
    then show ?thesis using cstep.take_remove cstep.read_get cstep.take_missing by blast
  next
    case TakeRemoved
    then show ?thesis using cstep.take_count by blast
  next
    case (TakeCounted c)
    then show ?thesis using cstep.control [OF ctl.take_notify [of s t c]] cstep.control [OF ctl.take_quiet [of s t c]] n by (cases "c > 1") auto
  next
    case TakeUnlock
    then show ?thesis using cstep.control [OF ctl.take_unlock] by blast
  next
    case (EraseLocked k)
    then show ?thesis using cstep.control [OF ctl.erase_late] cstep.erase_remove by blast
  next
    case ClearTest
    then show ?thesis using cstep.clear_remove [of s t] cstep.control [OF ctl.clear_done [of s t]] by (cases "cnt s > 0") auto
  next
    case ClearRemoved
    then show ?thesis using cstep.clear_count by blast
  next
    case ClearUnlock
    then show ?thesis using cstep.control [OF ctl.clear_unlock_take] by blast
  qed (use assms in auto)
qed

lemma actor_runs:
  assumes "mutex s" "will_act (pcs s t)"
  shows "\<exists>s'. cstep Run s s'"
proof (cases "takeOwner s")
  case None
  show ?thesis
  proof (cases "take_crit (pcs s t)")
    case True
    then show ?thesis by (rule take_owner_runs)
  next
    case False
    with assms(2) have "pcs s t = Signal \<or> (\<exists>m. pcs s t = Woken m) \<or> (\<exists>c. pcs s t = PutCounted c)"
      by (cases "pcs s t") auto
    then show ?thesis using None cstep.control [OF ctl.sig_lock] cstep.control [OF ctl.take_lock] cstep.control [OF ctl.put_unlock] by blast
  qed
next
  case (Some u)
  then have "take_crit (pcs s u)" using assms(1) by (simp add: mutex_def)
  then show ?thesis by (rule take_owner_runs)
qed

section \<open>Running a schedule\<close>

text \<open>
  An executable version of the step relation for threads below \<open>N\<close>: a schedule says which thread acts
  next and, where there is one, which choice it makes.
\<close>

datatype choice = Go | Fail | TimeOut | WakeUp tid | Put data | Take mode | Erase nat | Clear

definition wake_one :: "nat \<Rightarrow> choice \<Rightarrow> conc \<Rightarrow> conc option" where
  "wake_one N c s =
     (case c of
        WakeUp u \<Rightarrow> (case pcs s u of Waiting m \<Rightarrow> Some (goto u (Woken m) s) | _ \<Rightarrow> None)
      | _ \<Rightarrow> if list_all (\<lambda>u. \<not> waiting (pcs s u)) [0 ..< N] then Some s else None)"

definition exec_call :: "tid \<Rightarrow> choice \<Rightarrow> conc \<Rightarrow> (label \<times> conc) option" where
  "exec_call t c s =
     (case c of
        Put v \<Rightarrow> Some (Call, goto t (PutWait v) s)
      | Take m \<Rightarrow> Some (if m = ReadNext then Peek else Call, goto t (TakeWait m) s)
      | Erase k \<Rightarrow> Some (if k \<in> read_keys s then Call else Wild, goto t (EraseTest k) s)
      | Clear \<Rightarrow> Some (Call, goto t ClearWait s)
      | _ \<Rightarrow> None)"

definition lock_with :: "tid option \<Rightarrow> conc \<Rightarrow> (label \<times> conc) option" where
  "lock_with owner s' = (if owner = None then Some (Run, s') else None)"

definition exec_take :: "tid \<Rightarrow> mode \<Rightarrow> choice \<Rightarrow> conc \<Rightarrow> label \<times> conc" where
  "exec_take t m c s =
     (if c = Fail then (Fault, goto t TakeUnlock s)
      else if tab s (minK s) = None then (Run, goto t TakeUnlock s)
      else if m = ReadNext then (Run, goto t TakeUnlock (s\<lparr>read_keys := insert (minK s) (read_keys s)\<rparr>))
      else (Run, goto t TakeRemoved (pop Taken s)))"

definition exec :: "nat \<Rightarrow> tid \<Rightarrow> choice \<Rightarrow> conc \<Rightarrow> (label \<times> conc) option" where
  "exec N t c s =
     (case pcs s t of
        Idle \<Rightarrow> exec_call t c s
      | PutWait v \<Rightarrow> lock_with (putOwner s) (goto t (PutLocked v) (s\<lparr>putOwner := Some t\<rparr>))
      | PutLocked v \<Rightarrow> Some (Run, if c = Fail then goto t (PutCounted (- 1)) s
          else goto t PutStored (s\<lparr>tab := (tab s)(maxK s \<mapsto> v), maxK := maxK s + 1,
                 accepted_log := accepted_log s @ [v]\<rparr>))
      | PutStored \<Rightarrow> Some (Run, goto t (PutCounted (cnt s)) (s\<lparr>cnt := cnt s + 1\<rparr>))
      | PutCounted n \<Rightarrow> Some (Run, goto t (if n = 0 then Signal else Idle) (s\<lparr>putOwner := None\<rparr>))
      | Signal \<Rightarrow> lock_with (takeOwner s) (goto t SignalLocked (s\<lparr>takeOwner := Some t\<rparr>))
      | SignalLocked \<Rightarrow> map_option (\<lambda>s'. (Run, goto t SignalUnlock s')) (wake_one N c s)
      | SignalUnlock \<Rightarrow> Some (Run, goto t Idle (s\<lparr>takeOwner := None\<rparr>))
      | TakeWait m \<Rightarrow> lock_with (takeOwner s) (goto t (TakeTest m) (s\<lparr>takeOwner := Some t\<rparr>))
      | TakeTest m \<Rightarrow> Some (Run, if passes m (cnt s) then goto t (TakeReady m) s
          else if c = TimeOut \<and> m \<noteq> TakeForever then goto t TakeUnlock s
          else goto t (Waiting m) (s\<lparr>takeOwner := None\<rparr>))
      | Waiting m \<Rightarrow> Some (Spurious, goto t (Woken m) s)
      | Woken m \<Rightarrow> lock_with (takeOwner s) (goto t (TakeTest m) (s\<lparr>takeOwner := Some t\<rparr>))
      | TakeReady m \<Rightarrow> Some (exec_take t m c s)
      | TakeRemoved \<Rightarrow> Some (Run, goto t (TakeCounted (cnt s)) (advance s))
      | TakeCounted n \<Rightarrow> if n > 1 then map_option (\<lambda>s'. (Run, goto t TakeUnlock s')) (wake_one N c s)
          else Some (Run, goto t TakeUnlock s)
      | TakeUnlock \<Rightarrow> Some (Run, goto t Idle (s\<lparr>takeOwner := None\<rparr>))
      | EraseTest k \<Rightarrow> Some (Run, if k = minK s then goto t (EraseWait k) s else goto t Idle s)
      | EraseWait k \<Rightarrow> lock_with (takeOwner s) (goto t (EraseLocked k) (s\<lparr>takeOwner := Some t\<rparr>))
      | EraseLocked k \<Rightarrow> Some (Run,
          if k \<noteq> minK s then goto t TakeUnlock (s\<lparr>erase_log := erase_log s @ [k]\<rparr>)
          else if c = Fail then goto t TakeUnlock s
          else goto t TakeRemoved ((pop Erased s)\<lparr>erase_log := erase_log s @ [k]\<rparr>))
      | ClearWait \<Rightarrow> lock_with (putOwner s) (goto t ClearPutLocked (s\<lparr>putOwner := Some t\<rparr>))
      | ClearPutLocked \<Rightarrow> lock_with (takeOwner s) (goto t ClearTest (s\<lparr>takeOwner := Some t\<rparr>))
      | ClearTest \<Rightarrow> Some (Run, if cnt s > 0 \<and> c \<noteq> Fail then goto t ClearRemoved (pop Cleared s)
          else goto t ClearUnlock s)
      | ClearRemoved \<Rightarrow> Some (Run, goto t ClearTest (advance s))
      | ClearUnlock \<Rightarrow> Some (Run, goto t ClearPutUnlock (s\<lparr>takeOwner := None\<rparr>))
      | ClearPutUnlock \<Rightarrow> Some (Run, goto t Idle (s\<lparr>putOwner := None\<rparr>)))"

fun run :: "label list \<Rightarrow> nat \<Rightarrow> (tid \<times> choice) list \<Rightarrow> conc \<Rightarrow> conc option" where
  "run ls N [] s = Some s"
| "run ls N ((t, c) # sch) s =
     (if t < N
      then case exec N t c s of
             Some (l, s') \<Rightarrow> if l \<in> set ls then run ls N sch s' else None
           | None \<Rightarrow> None
      else None)"

definition idle_above :: "nat \<Rightarrow> conc \<Rightarrow> bool" where
  "idle_above N s \<longleftrightarrow> (\<forall>u \<ge> N. pcs s u = Idle)"

lemma wake_one_notify:
  assumes "wake_one N c s = Some s'" "idle_above N s"
  shows "notify s s'"
proof (cases "\<exists>u. c = WakeUp u")
  case True
  then show ?thesis using assms(1) by (auto simp: wake_one_def intro: notify.wake split: pc.splits)
next
  case False
  then have "s' = s" "\<forall>u < N. \<not> waiting (pcs s u)"
    using assms(1) by (auto simp: wake_one_def list_all_iff split: choice.splits if_splits)
  moreover have "\<not> waiting (pcs s u)" if "N \<le> u" for u using assms(2) that by (simp add: idle_above_def)
  ultimately show ?thesis using notify.nobody [of s] by (metis not_le)
qed

lemma exec_sound:
  assumes "exec N t c s = Some (l, s')" "idle_above N s"
  shows "cstep l s s'"
proof (cases "pcs s t")
  case Idle
  then show ?thesis using assms(1)
    by (auto simp: exec_def exec_call_def intro: cstep.control [OF ctl.put_call] cstep.control [OF ctl.take_call] cstep.control [OF ctl.read_call]
        cstep.control [OF ctl.erase_call] cstep.control [OF ctl.erase_wild] cstep.control [OF ctl.clear_call] split: choice.splits if_splits)
next
  case SignalLocked
  then show ?thesis using assms wake_one_notify [of N c s]
    by (auto simp: exec_def intro: cstep.control [OF ctl.sig_notify])
next
  case (TakeCounted n)
  then show ?thesis using assms wake_one_notify [of N c s]
    by (auto simp: exec_def intro: cstep.control [OF ctl.take_notify] cstep.control [OF ctl.take_quiet] split: if_splits)
next
  case (PutLocked v)
  then show ?thesis using assms(1) cstep.put_fail [of s t v] cstep.put_store [of s t v]
    by (auto simp: exec_def split: if_splits)
next
  case (PutCounted n)
  then show ?thesis using assms(1) cstep.control [OF ctl.put_unlock [of s t n]] by (auto simp: exec_def)
next
  case ClearTest
  then show ?thesis using assms(1) cstep.clear_remove [of s t] cstep.clear_fail [of s t] cstep.control [OF ctl.clear_done [of s t]]
    by (cases "cnt s > 0") (auto simp: exec_def split: if_splits)
next
  case (TakeReady m)
  then show ?thesis using assms(1) cstep.read_get [of s t True]
    by (auto simp: exec_def exec_take_def intro: cstep.take_remove cstep.take_missing cstep.take_fail
        split: if_splits)
qed (use assms(1) in \<open>auto simp: exec_def lock_with_def intro: cstep.intros ctl.intros split: if_splits\<close>)

lemma exec_idle_above:
  assumes "exec N t c s = Some (l, s')" "idle_above N s" "t < N"
  shows "idle_above N s'"
proof -
  have w: "idle_above N s1" if "wake_one N c s = Some s1" for s1
  proof -
    have "pcs s1 u = Idle" if "N \<le> u" for u
      using notify_pc [OF wake_one_notify [OF \<open>wake_one N c s = Some s1\<close> assms(2)], of u] assms(2) that
      by (simp add: idle_above_def)
    then show ?thesis by (simp add: idle_above_def)
  qed
  have "\<exists>p s1. s' = goto t p s1 \<and> idle_above N s1"
    using assms(1,2) w
    by (cases "pcs s t") (force simp: exec_def exec_call_def exec_take_def lock_with_def idle_above_def
        split: choice.splits if_splits)+
  then show ?thesis using assms(3) by (auto simp: idle_above_def)
qed

lemma run_reachable:
  "run ls N sch s = Some s' \<Longrightarrow> reachable L s \<Longrightarrow> idle_above N s \<Longrightarrow> set ls \<subseteq> L \<Longrightarrow>
   reachable L s' \<and> idle_above N s'"
proof (induction ls N sch s rule: run.induct)
  case (2 ls N t c sch s)
  then obtain l s1 where e: "exec N t c s = Some (l, s1)" "t < N" "l \<in> set ls" "run ls N sch s1 = Some s'"
    by (auto split: if_splits option.splits)
  have "reachable L s1" "idle_above N s1"
    using reach.step [OF "2.prems"(2) exec_sound [OF e(1) "2.prems"(3)]] exec_idle_above [OF e(1) "2.prems"(3) e(2)]
      e(3) "2.prems"(4) by auto
  then show ?case using "2.IH" [OF e(2,1) refl e(3,4)] "2.prems"(4) by blast
qed auto

lemma run_from_init:
  assumes "map_option f (run ls N sch (conc_init 0 [])) = Some x" "set ls \<subseteq> L"
  shows "\<exists>s. reachable L s \<and> (\<forall>u \<ge> N. pcs s u = Idle) \<and> f s = x"
proof -
  obtain s where "run ls N sch (conc_init 0 []) = Some s" "f s = x" using assms(1) by auto
  moreover have "idle_above N (conc_init 0 [])" by (simp add: idle_above_def conc_init_def)
  ultimately show ?thesis
    using run_reachable [of ls N sch "conc_init 0 []" s L] reach.start [of conc_start] assms(2)
    unfolding idle_above_def by (metis conc_start_def)
qed

text \<open>When every thread is idle or waits, nothing happens without a new call.\<close>

lemma quiescent:
  assumes "\<And>t. pcs s t = Idle \<or> waiting (pcs s t)"
  shows "\<not> will_act (pcs s t)" "\<not> cstep Run s s'"
proof -
  have q: "p = Idle \<or> waiting p" if "pcs s t = p" for t p using assms [of t] that by simp
  show "\<not> will_act (pcs s t)" using q [OF refl, of t] by (cases "pcs s t") auto
  have "\<not> ctl c k Run s s'" for c k
  proof
    assume "ctl c k Run s s'"
    then show False by (cases rule: ctl.cases) (auto dest: q)
  qed
  then show "\<not> cstep Run s s'"
  proof (rule contrapos_nn)
    assume "cstep Run s s'"
    then show "ctl (cnt s) (minK s) Run s s'" by (cases rule: cstep.cases) (auto dest: q)
  qed
qed

section \<open>Schedules\<close>

definition wait_for_message :: "tid \<Rightarrow> mode \<Rightarrow> (tid \<times> choice) list" where
  "wait_for_message t m = [(t, Take m), (t, Go), (t, Go)]"

definition put_message :: "tid \<Rightarrow> data \<Rightarrow> (tid \<times> choice) list" where
  "put_message t v = [(t, Put v), (t, Go), (t, Go), (t, Go), (t, Go)]"

text \<open>Two threads wait, thread 0 has put a message and is about to notify.\<close>

definition two_waiting :: "mode \<Rightarrow> (tid \<times> choice) list" where
  "two_waiting m = wait_for_message 1 m @ wait_for_message 2 TakeForever @ put_message 0 [7]"

text \<open>Thread 1 is notified and its store call fails.\<close>

definition failing_take :: "(tid \<times> choice) list" where
  "failing_take = two_waiting TakeForever @ [(0, Go), (0, WakeUp 1), (0, Go)] @ put_message 0 [8] @
     [(1, Go), (1, Go), (1, Fail), (1, Go)]"

text \<open>Thread 1 is in \<^verbatim>\<open>readNext\<close>: it is notified, reads the message and leaves it in the queue.\<close>

definition reading_only :: "(tid \<times> choice) list" where
  "reading_only = two_waiting ReadNext @ [(0, Go), (0, WakeUp 1), (0, Go), (1, Go), (1, Go), (1, Go), (1, Go)]"

text \<open>Threads 1 and 2 read the same message and both erase it.\<close>

definition read_twice :: "(tid \<times> choice) list" where
  "read_twice = put_message 0 [7] @ [(0, Go), (0, Go), (0, Go)] @
     [(1, Take ReadNext), (1, Go), (1, Go), (1, Go), (1, Go), (2, Take ReadNext), (2, Go), (2, Go), (2, Go), (2, Go)] @
     [(1, Erase 0), (1, Go), (2, Erase 0), (2, Go)] @
     [(1, Go), (1, Go), (1, Go), (1, Go), (1, Go)] @ [(2, Go), (2, Go), (2, Go)]"

lemma two_waiting_run:
  "map_option (\<lambda>s. (map (pcs s) [0, 1, 2], cnt s)) (run [Call, Run] 3 (two_waiting TakeForever) (conc_init 0 [])) =
     Some ([Signal, Waiting TakeForever, Waiting TakeForever], 1)"
  by code_simp

lemma failing_take_run:
  "map_option (\<lambda>s. (map (pcs s) [0, 1, 2], cnt s)) (run [Call, Run, Fault] 3 failing_take (conc_init 0 [])) =
     Some ([Idle, Idle, Waiting TakeForever], 2)"
  by code_simp

lemma reading_only_run:
  "map_option (\<lambda>s. (map (pcs s) [0, 1, 2], cnt s)) (run [Call, Run, Peek] 3 reading_only (conc_init 0 [])) =
     Some ([Idle, Idle, Waiting TakeForever], 1)"
  by code_simp

lemma read_twice_run:
  "map_option (\<lambda>s. (map (pcs s) [0, 1, 2], erase_log s, out_log s, accepted_log s))
     (run [Call, Run, Peek] 3 read_twice (conc_init 0 [])) = Some ([Idle, Idle, Idle], [0, 0], [(Erased, [7])], [[7]])"
  by code_simp

text \<open>A run of three threads to a state in which each of them is idle or waits.\<close>

lemma run_quiescent:
  assumes "map_option (\<lambda>s. (map (pcs s) [0, 1, 2], g s)) (run ls 3 sch (conc_init 0 [])) = Some (ps, y)"
    "list_all (\<lambda>p. p = Idle \<or> waiting p) ps" "set ls \<subseteq> L"
  shows "\<exists>s. reachable L s \<and> map (pcs s) [0, 1, 2] = ps \<and> g s = y \<and> (\<forall>t. \<not> will_act (pcs s t)) \<and>
    (\<forall>s'. \<not> cstep Run s s')"
proof -
  obtain s where s: "reachable L s" "\<forall>u \<ge> 3. pcs s u = Idle" "map (pcs s) [0, 1, 2] = ps" "g s = y"
    using run_from_init [OF assms(1,3)] by auto
  have "pcs s t = Idle \<or> waiting (pcs s t)" for t
  proof (cases "t < 3")
    case True
    then have "pcs s t \<in> set ps" unfolding s(3) [symmetric] by (auto simp: less_Suc_eq numeral_3_eq_3 numeral_2_eq_2)
    then show ?thesis using assms(2) by (auto simp: list_all_iff)
  qed (use s(2) in simp)
  then show ?thesis using s quiescent by blast
qed

section \<open>Properties\<close>

text \<open>
  C7: the queue under concurrent use.  In every state that any number of threads can reach, whatever
  store calls fail and whatever spurious wake-ups happen, as long as \<^verbatim>\<open>erase\<close> is called with keys that
  \<^verbatim>\<open>readNext\<close> returned: at most one thread is in the critical section of each mutex; the messages accepted
  are those that were taken, erased or cleared, followed by those stored from the first key on, in
  order; the counter is the number of stored messages up to the one that a thread is just putting or
  removing; a taker that passed the test of the counter, and an eraser that found the key under the
  lock, finds a message.
\<close>

theorem conc_fifo:
  assumes "reachable L s" "Wild \<notin> L"
  shows "(\<forall>t u. put_crit (pcs s t) \<and> put_crit (pcs s u) \<longrightarrow> t = u) \<and>
    (\<forall>t u. take_crit (pcs s t) \<and> take_crit (pcs s u) \<longrightarrow> t = u) \<and>
    accepted_log s = map snd (out_log s) @ map (\<lambda>k. the (tab s k)) [minK s + removed s ..< maxK s] \<and>
    (\<forall>k. tab s k \<noteq> None \<longleftrightarrow> minK s + removed s \<le> k \<and> k < maxK s) \<and>
    0 \<le> cnt s \<and> int (minK s) + cnt s + int (stored s) = int (maxK s) \<and>
    (\<forall>t m. pcs s t = TakeReady m \<longrightarrow> tab s (minK s) \<noteq> None) \<and>
    (\<forall>t. pcs s t = EraseLocked (minK s) \<longrightarrow> tab s (minK s) \<noteq> None)"
proof -
  have m: "mutex s" and c: "contents s" and k: "known_keys s" using reachable_inv [OF assms] by blast+
  have "tab s (minK s) \<noteq> None" if "pcs s t = EraseLocked (minK s)" for t
    using that known_erasing [OF k, of t "minK s"] removed_own(1) [OF m, of t] first_present(1) [OF c] by simp
  then show ?thesis using c crit_unique [OF m] ready_present [OF m c] unfolding contents_def by blast
qed

theorem conc_fifo_witness:
  "\<exists>s. reachable {Call, Run, Peek} s \<and> erase_log s = [0, 0] \<and>
     accepted_log s = map snd (out_log s) @ map (\<lambda>k. the (tab s k)) [minK s + removed s ..< maxK s]"
proof -
  obtain s where s: "reachable {Call, Run, Peek} s" "erase_log s = [0, 0]"
    using run_from_init [OF read_twice_run, of "{Call, Run, Peek}"] by auto
  have "Wild \<notin> {Call, Run, Peek}" by simp
  from conc_fifo [OF s(1) this] s show ?thesis by blast
qed

text \<open>
  C8: no wake-up is lost.  As long as no store call of a taker fails, \<^verbatim>\<open>readNext\<close> is not used, and \<^verbatim>\<open>erase\<close>
  not misused, whenever a thread waits in \<^verbatim>\<open>take\<close> and the counter is positive, some thread is on its way to
  take a message or to notify, and the system can make a step other than a new call or a spurious wake-up.
\<close>

theorem conc_progress:
  assumes "reachable L s" "L \<inter> {Fault, Peek, Wild} = {}" "waiting (pcs s u)" "0 < cnt s"
  shows "\<exists>t. will_act (pcs s t) \<and> (\<exists>s'. cstep Run s s')"
proof -
  obtain t where t: "will_act (pcs s t)"
    using reachable_wakeup [OF assms(1,2)] assms(3,4) by (auto simp: no_lost_wakeup_def)
  then show ?thesis using actor_runs [OF reachable_mutex [OF assms(1)]] by blast
qed

theorem conc_progress_witness:
  "\<exists>s t. reachable {Call, Run} s \<and> waiting (pcs s 2) \<and> cnt s = 1 \<and> will_act (pcs s t) \<and> (\<exists>s'. cstep Run s s')"
proof -
  obtain s where s: "reachable {Call, Run} s" "pcs s 2 = Waiting TakeForever" "cnt s = 1"
    using run_from_init [OF two_waiting_run, of "{Call, Run}"] by auto
  have "\<exists>t. will_act (pcs s t) \<and> (\<exists>s'. cstep Run s s')"
    by (rule conc_progress [OF s(1), of 2]) (use s in auto)
  then show ?thesis using s by auto
qed

text \<open>
  C37: the provisos of the previous property are needed.  A \<^verbatim>\<open>take\<close> whose store call fails after it was
  notified does not notify again, and neither does a \<^verbatim>\<open>readNext\<close>, which leaves its message in the queue: in
  both cases a thread can wait in \<^verbatim>\<open>take\<close> with messages in the queue and no thread under way, so that it
  stays there until another call comes along.
\<close>

theorem conc_stranded:
  "(\<exists>s. reachable {Call, Run, Fault} s \<and> waiting (pcs s 2) \<and> cnt s = 2 \<and>
      (\<forall>t. \<not> will_act (pcs s t)) \<and> (\<forall>s'. \<not> cstep Run s s')) \<and>
   (\<exists>s. reachable {Call, Run, Peek} s \<and> waiting (pcs s 2) \<and> cnt s = 1 \<and>
      (\<forall>t. \<not> will_act (pcs s t)) \<and> (\<forall>s'. \<not> cstep Run s s'))"
proof
  show "\<exists>s. reachable {Call, Run, Fault} s \<and> waiting (pcs s 2) \<and> cnt s = 2 \<and>
      (\<forall>t. \<not> will_act (pcs s t)) \<and> (\<forall>s'. \<not> cstep Run s s')"
    using run_quiescent [OF failing_take_run, of "{Call, Run, Fault}"] by fastforce
  show "\<exists>s. reachable {Call, Run, Peek} s \<and> waiting (pcs s 2) \<and> cnt s = 1 \<and>
      (\<forall>t. \<not> will_act (pcs s t)) \<and> (\<forall>s'. \<not> cstep Run s s')"
    using run_quiescent [OF reading_only_run, of "{Call, Run, Peek}"] by fastforce
qed

text \<open>
  C33: \<^verbatim>\<open>erase\<close> can tell two threads that they removed the same message.  Both read it, both pass the first
  test; the one that gets the lock second finds another first key and still returns true.  No store call
  fails, and both keys came from \<^verbatim>\<open>readNext\<close>.
\<close>

theorem conc_erase_twice:
  "\<exists>s. reachable {Call, Run, Peek} s \<and> (\<forall>t. pcs s t = Idle) \<and> erase_log s = [0, 0] \<and>
     out_log s = [(Erased, [7])] \<and> accepted_log s = [[7]]"
proof -
  obtain s where s: "reachable {Call, Run, Peek} s" "\<forall>u \<ge> 3. pcs s u = Idle" "map (pcs s) [0, 1, 2] = [Idle, Idle, Idle]"
    "erase_log s = [0, 0]" "out_log s = [(Erased, [7])]" "accepted_log s = [[7]]"
    using run_from_init [OF read_twice_run, of "{Call, Run, Peek}"] by auto
  have "pcs s t = Idle" for t
    using s(2,3) by (cases "t < 3") (auto simp: less_Suc_eq numeral_3_eq_3 numeral_2_eq_2)
  then show ?thesis using s by blast
qed

end
