(* ===== verification/Kueue_Refine.thy ===== *)
theory Kueue_Refine
  imports Kueue_Conc Kueue_Fifo
begin

text \<open>
  The queue as several threads run it on the real store: the keys and the counter are 64-bit words, every
  access to the database is the operation of \<^verbatim>\<open>StoreImpl\<close> that the code calls, and the messages that
  \<^verbatim>\<open>take\<close> hands out are the arrays it returns.  The control steps are those of \<open>Kueue_Threads\<close>.  A forward
  simulation relates this system to the abstract one, so that its invariants hold of the implementation.
\<close>

section \<open>The threads on the store\<close>

record 'd tstate = control +
  tq :: KueueImpl
  tstore :: "'d StoreImpl"
  tin :: "data list"
  tout :: "data option list"

text \<open>What the caller finds in the array it was given.\<close>

definition array_bytes :: "addr option \<Rightarrow> 'd StoreImpl \<Rightarrow> data option" where
  "array_bytes p s = (case p of None \<Rightarrow> Some [] | Some a \<Rightarrow> heap s a)"

definition tcount :: "KueueImpl \<Rightarrow> KueueImpl" where
  "tcount q = q\<lparr>kcount := kcount q + 1, totalPuts := totalPuts q + 1\<rparr>"

definition tadvance :: "KueueImpl \<Rightarrow> KueueImpl" where
  "tadvance q = q\<lparr>minKey := minKey q + 1, kcount := kcount q - 1, totalTakes := totalTakes q + 1\<rparr>"

inductive tstep :: "'d rocksdb \<Rightarrow> label \<Rightarrow> 'd tstate \<Rightarrow> 'd tstate \<Rightarrow> bool" for eng where
  control: "ctl (sint (kcount (tq s))) (unat (minKey (tq s))) l s s' \<Longrightarrow> tstep eng l s s'"
| put_store: "pcs s t = PutLocked (slice_of val) \<Longrightarrow> queueKind (tq s) = Some k \<Longrightarrow>
    StoreImpl_put eng (Some x) k (Some (putU64BE (maxKey (tq s)))) val (tstore s) = Some (Some st, r) \<Longrightarrow>
    st = SC_Ok \<Longrightarrow>
    tstep eng Run s (goto t PutStored (s\<lparr>tq := (tq s)\<lparr>maxKey := maxKey (tq s) + 1\<rparr>, tstore := r,
      tin := tin s @ [slice_of val]\<rparr>))"
| put_fail: "pcs s t = PutLocked (slice_of val) \<Longrightarrow> queueKind (tq s) = Some k \<Longrightarrow>
    StoreImpl_put eng (Some x) k (Some (putU64BE (maxKey (tq s)))) val (tstore s) = Some (Some st, r) \<Longrightarrow>
    st \<noteq> SC_Ok \<Longrightarrow>
    tstep eng Run s (goto t (PutCounted (- 1)) (s\<lparr>tq := (tq s)\<lparr>maxKey := maxKey (tq s) + 1 - 1\<rparr>, tstore := r\<rparr>))"
| put_count: "pcs s t = PutStored \<Longrightarrow>
    tstep eng Run s (goto t (PutCounted (sint (kcount (tq s)))) (s\<lparr>tq := tcount (tq s)\<rparr>))"
| take_remove: "pcs s t = TakeReady m \<Longrightarrow> m \<noteq> ReadNext \<Longrightarrow> queueKind (tq s) = Some k \<Longrightarrow>
    StoreImpl_singleRemoveIfPresent eng (Some x) k len (Some (putU64BE (minKey (tq s)))) (tstore s) =
      Some (p, Some st, len', r) \<Longrightarrow> st = SC_Ok \<Longrightarrow>
    tstep eng Run s (goto t TakeRemoved (s\<lparr>tstore := r, tout := tout s @ [array_bytes p r]\<rparr>))"
| take_fail: "pcs s t = TakeReady m \<Longrightarrow> m \<noteq> ReadNext \<Longrightarrow> queueKind (tq s) = Some k \<Longrightarrow>
    StoreImpl_singleRemoveIfPresent eng (Some x) k len (Some (putU64BE (minKey (tq s)))) (tstore s) =
      Some (p, Some st, len', r) \<Longrightarrow> st \<noteq> SC_Ok \<Longrightarrow>
    tstep eng Fault s (goto t TakeUnlock (s\<lparr>tstore := r\<rparr>))"
| read_get: "pcs s t = TakeReady ReadNext \<Longrightarrow> queueKind (tq s) = Some k \<Longrightarrow>
    StoreImpl_get eng (Some x) k len (Some (putU64BE (minKey (tq s)))) (tstore s) = Some (p, Some st, len', r) \<Longrightarrow>
    st = SC_Ok \<Longrightarrow>
    tstep eng Run s (goto t TakeUnlock (s\<lparr>tstore := r,
      read_keys := if pKey then insert (unat (minKey (tq s))) (read_keys s) else read_keys s\<rparr>))"
| read_fail: "pcs s t = TakeReady ReadNext \<Longrightarrow> queueKind (tq s) = Some k \<Longrightarrow>
    StoreImpl_get eng (Some x) k len (Some (putU64BE (minKey (tq s)))) (tstore s) = Some (p, Some st, len', r) \<Longrightarrow>
    st \<noteq> SC_Ok \<Longrightarrow> tstep eng Fault s (goto t TakeUnlock (s\<lparr>tstore := r\<rparr>))"
| take_count: "pcs s t = TakeRemoved \<Longrightarrow>
    tstep eng Run s (goto t (TakeCounted (sint (kcount (tq s)))) (s\<lparr>tq := tadvance (tq s)\<rparr>))"
| erase_remove: "pcs s t = EraseLocked j \<Longrightarrow> j = unat (minKey (tq s)) \<Longrightarrow> queueKind (tq s) = Some k \<Longrightarrow>
    StoreImpl_singleRemove eng (Some SC_Ok) k (Some (putU64BE (minKey (tq s)))) (tstore s) = Some (Some st, r) \<Longrightarrow>
    st = SC_Ok \<Longrightarrow>
    tstep eng Run s (goto t TakeRemoved (s\<lparr>tstore := r, erase_log := erase_log s @ [j]\<rparr>))"
| erase_fail: "pcs s t = EraseLocked j \<Longrightarrow> j = unat (minKey (tq s)) \<Longrightarrow> queueKind (tq s) = Some k \<Longrightarrow>
    StoreImpl_singleRemove eng (Some SC_Ok) k (Some (putU64BE (minKey (tq s)))) (tstore s) = Some (Some st, r) \<Longrightarrow>
    st \<noteq> SC_Ok \<Longrightarrow> tstep eng Run s (goto t TakeUnlock (s\<lparr>tstore := r\<rparr>))"
| clear_remove: "pcs s t = ClearTest \<Longrightarrow> sint (kcount (tq s)) > 0 \<Longrightarrow> queueKind (tq s) = Some k \<Longrightarrow>
    StoreImpl_singleRemove eng (Some x) k (Some (putU64BE (minKey (tq s)))) (tstore s) = Some (Some st, r) \<Longrightarrow>
    st = SC_Ok \<Longrightarrow> tstep eng Run s (goto t ClearRemoved (s\<lparr>tstore := r\<rparr>))"
| clear_fail: "pcs s t = ClearTest \<Longrightarrow> sint (kcount (tq s)) > 0 \<Longrightarrow> queueKind (tq s) = Some k \<Longrightarrow>
    StoreImpl_singleRemove eng (Some x) k (Some (putU64BE (minKey (tq s)))) (tstore s) = Some (Some st, r) \<Longrightarrow>
    st \<noteq> SC_Ok \<Longrightarrow> tstep eng Run s (goto t ClearUnlock (s\<lparr>tstore := r\<rparr>))"
| clear_count: "pcs s t = ClearRemoved \<Longrightarrow> tstep eng Run s (goto t ClearTest (s\<lparr>tq := tadvance (tq s)\<rparr>))"

text \<open>
  A valid queue that no thread uses yet.  A run is considered as long as it has used fewer than \<open>2 ^ 63\<close>
  keys, so that neither the keys nor the counter wrap.
\<close>

definition tstart :: "('d \<Rightarrow> dbobs) \<Rightarrow> handle \<Rightarrow> 'd tstate \<Rightarrow> bool" where
  "tstart obs h c \<longleftrightarrow> kueue_inv obs h (tin c) (tq c) (tstore c) \<and> putOwner c = None \<and> takeOwner c = None \<and>
     pcs c = (\<lambda>_. Idle) \<and> read_keys c = {} \<and> erase_log c = [] \<and> tout c = []"

definition roomy :: "'d tstate \<Rightarrow> bool" where
  "roomy c \<longleftrightarrow> unat (maxKey (tq c)) < 2 ^ 63"

definition trun :: "'d rocksdb \<Rightarrow> label \<Rightarrow> 'd tstate \<Rightarrow> 'd tstate \<Rightarrow> bool" where
  "trun eng l c c' \<longleftrightarrow> roomy c \<and> tstep eng l c c'"

section \<open>Simulation\<close>

text \<open>
  If every step of one labelled system can be answered by a step with the same label of another, and
  related states are related again, then every reachable state of the first is related to one of the second.
\<close>

locale simulation =
  fixes cstart :: "'c \<Rightarrow> bool" and cstp :: "'l \<Rightarrow> 'c \<Rightarrow> 'c \<Rightarrow> bool"
    and astart :: "'a \<Rightarrow> bool" and astp :: "'l \<Rightarrow> 'a \<Rightarrow> 'a \<Rightarrow> bool"
    and match :: "'c \<Rightarrow> 'a \<Rightarrow> bool" and Lab :: "'l set"
  assumes start_law: "cstart c \<Longrightarrow> \<exists>a. astart a \<and> match c a"
    and step_law: "match c a \<Longrightarrow> cstp l c c' \<Longrightarrow> l \<in> Lab \<Longrightarrow> \<exists>a'. astp l a a' \<and> match c' a'"
begin

lemma reach_match:
  assumes "reach cstart cstp L c" "L \<subseteq> Lab"
  shows "\<exists>a. reach astart astp L a \<and> match c a"
  using assms(1)
proof (induction rule: reach.induct)
  case (start s)
  then show ?case using start_law reach.start [of astart] by metis
next
  case (step s l s')
  then obtain a where a: "reach astart astp L a" "match s a" by blast
  then obtain a' where "astp l a a'" "match s' a'" using step_law step.hyps(2,3) assms(2) by blast
  then show ?case using reach.step [OF a(1) _ step.hyps(3)] by blast
qed

end

text \<open>Giving a state the control of another one.\<close>

definition transfer :: "'a control_scheme \<Rightarrow> 'b control_scheme \<Rightarrow> 'b control_scheme" where
  "transfer c a = a\<lparr>putOwner := putOwner c, takeOwner := takeOwner c, pcs := pcs c, read_keys := read_keys c,
     erase_log := erase_log c\<rparr>"

lemma transfer_simps [simp]:
  "putOwner (transfer c a) = putOwner c" "takeOwner (transfer c a) = takeOwner c" "pcs (transfer c a) = pcs c"
  "read_keys (transfer c a) = read_keys c" "erase_log (transfer c a) = erase_log c"
  "control.more (transfer c a) = control.more a" "transfer c (transfer b a) = transfer c a"
  by (simp_all add: transfer_def)

lemma transfer_goto [simp]: "transfer (goto t p c) a = goto t p (transfer c a)"
  by (simp add: transfer_def goto_def)

lemma transfer_upd [simp]:
  "transfer (c\<lparr>putOwner := x\<rparr>) a = (transfer c a)\<lparr>putOwner := x\<rparr>"
  "transfer (c\<lparr>takeOwner := x\<rparr>) a = (transfer c a)\<lparr>takeOwner := x\<rparr>"
  "transfer (c\<lparr>erase_log := e\<rparr>) a = (transfer c a)\<lparr>erase_log := e\<rparr>"
  "transfer (c\<lparr>read_keys := k\<rparr>) a = (transfer c a)\<lparr>read_keys := k\<rparr>"
  by (simp_all add: transfer_def)

lemma notify_transfer: "notify s s' \<Longrightarrow> notify (transfer s a) (transfer s' a)"
  by (induction rule: notify.induct) (auto intro: notify.intros)

lemma ctl_transfer: "ctl c k l s s' \<Longrightarrow> ctl c k l (transfer s a) (transfer s' a)"
proof (induction rule: ctl.induct)
  case (put_unlock s t n)
  then show ?case using ctl.put_unlock [of "transfer s a" t n] by simp
next
  case (sig_notify s t s')
  then show ?case using ctl.sig_notify [OF _ notify_transfer] by (metis transfer_goto transfer_simps(3))
next
  case (take_notify s t n s')
  then show ?case using ctl.take_notify [OF _ _ notify_transfer] by (metis transfer_goto transfer_simps(3))
next
  case (erase_call s t j)
  then show ?case using ctl.erase_call [of "transfer s a" t j] by simp
next
  case (erase_late s t j)
  then show ?case using ctl.erase_late [of "transfer s a" t j] by simp
qed (auto intro: ctl.intros)

section \<open>Tables and column families\<close>

text \<open>The column family that holds the table \<open>T\<close> of numbered messages.\<close>

definition key_cells :: "(nat \<Rightarrow> data option) \<Rightarrow> data \<Rightarrow> cell" where
  "key_cells T b = (case getU64BE b of
     None \<Rightarrow> Absent
   | Some x \<Rightarrow> (if putU64BE x = b then (case T (unat x) of None \<Rightarrow> Absent | Some v \<Rightarrow> Single v) else Absent))"

lemma key_cells_key [simp]: "key_cells T (putU64BE x) = (case T (unat x) of None \<Rightarrow> Absent | Some v \<Rightarrow> Single v)"
  by (simp add: key_cells_def)

lemma key_cells_other: "(\<And>x. b \<noteq> putU64BE x) \<Longrightarrow> key_cells T b = Absent"
  by (fastforce simp: key_cells_def split: option.splits)

lemma key_cells_eqI:
  assumes "\<And>x. f (putU64BE x) = key_cells T (putU64BE x)" "\<And>b. (\<And>x. b \<noteq> putU64BE x) \<Longrightarrow> f b = Absent"
  shows "f = key_cells T"
proof
  fix b
  show "f b = key_cells T b"
    using assms key_cells_other [of b T] by (cases "\<exists>x. b = putU64BE x") auto
qed

lemma key_cells_store: "(key_cells T)(putU64BE x := Single v) = key_cells (T(unat x \<mapsto> v))"
  by (rule key_cells_eqI) (auto simp: key_cells_other word_unat_eq_iff)

lemma key_cells_remove: "(key_cells T)(putU64BE x := Absent) = key_cells (T(unat x := None))"
  by (rule key_cells_eqI) (auto simp: key_cells_other word_unat_eq_iff)

text \<open>For consecutive keys these are the cells of the sequential queue.\<close>

lemma queue_cells_key:
  "unat n + length msgs < 2 ^ 64 \<Longrightarrow> queue_cells n msgs = key_cells (tab (conc_init (unat n) msgs))"
proof (induction msgs rule: rev_induct)
  case Nil
  show ?case by (rule key_cells_eqI) (simp_all add: conc_init_def)
next
  case (snoc v msgs)
  define x where "x = n + of_nat (length msgs)"
  have x: "unat n + length msgs = unat x" using unat_plus_of_nat [of n "length msgs"] snoc.prems by (simp add: x_def)
  have "tab (conc_init (unat n) (msgs @ [v])) = (tab (conc_init (unat n) msgs))(unat x \<mapsto> v)"
    using x by (auto simp: conc_init_def nth_append fun_eq_iff)
  then have "key_cells (tab (conc_init (unat n) (msgs @ [v]))) = (queue_cells n msgs)(putU64BE x := Single v)"
    using snoc by (simp add: key_cells_store)
  then show ?case by (simp only: queue_cells_snoc [OF x])
qed

definition store_table :: "('d \<Rightarrow> dbobs) \<Rightarrow> handle \<Rightarrow> kindref \<Rightarrow> (nat \<Rightarrow> data option) \<Rightarrow> 'd StoreImpl \<Rightarrow> bool" where
  "store_table obs h k T st \<longleftrightarrow> store_wf st \<and> open_flag st \<and> live_kind st k h \<and> cells (obs (rdb st)) h = key_cells T"

lemma store_table_step:
  assumes "store_table obs h k T st" "store_wf r" "store_frame st r" "cells (obs (rdb r)) h = key_cells T'"
  shows "store_table obs h k T' r"
  using assms live_kind_frame [OF assms(3)] by (simp add: store_table_def store_frame_def)

lemma effect_store:
  assumes "store_table obs h k T st" "T (unat x) = None" "op_effect (WPut h (putU64BE x) v) (obs (rdb st)) m"
  shows "cells m h = key_cells (T(unat x \<mapsto> v))"
  using assms by (simp add: store_table_def upd_cell_def key_cells_store)

lemma effect_remove:
  assumes "store_table obs h k T st" "op_effect (WSingleDelete h (putU64BE x)) (obs (rdb st)) m"
  shows "cells m h = key_cells (T(unat x := None))"
  using assms by (cases "T (unat x)") (auto simp: store_table_def upd_cell_def key_cells_remove)

lemma fetched_bytes:
  assumes "fetched 0 p (Some 0) len vo s s'"
  shows "vo \<noteq> None \<and> array_bytes p s' = vo"
  using assms by (auto simp: fetched_def array_bytes_def split: if_splits)

context rocksdb_spec
begin

text \<open>The four calls of the queue, as they change the table; each of them returns.\<close>

lemma table_put:
  assumes "store_table obs h k T st"
  shows "\<exists>c r. StoreImpl_put eng (Some i) k (Some (putU64BE x)) val st = Some (Some c, r) \<and>
    (T (unat x) = None \<longrightarrow> store_table obs h k (if c = 0 then T(unat x \<mapsto> slice_of val) else T) r)"
proof -
  have t: "store_wf st" "open_flag st" "live_kind st k h" using assms by (simp_all add: store_table_def)
  obtain c r where p: "StoreImpl_put eng (Some i) k (Some (putU64BE x)) val st = Some (assign c (Some i), r)"
    and o: "outcome obs (WPut h (putU64BE x) (slice_of val)) c st r" using put_spec [OF t] by blast
  have "store_table obs h k (if c = 0 then T(unat x \<mapsto> slice_of val) else T) r" if "T (unat x) = None"
    by (rule store_table_step [OF assms])
      (use o effect_store [OF assms that] assms in \<open>auto simp: outcome_def store_table_def simp del: op_effect.simps split: if_splits\<close>)
  with p show ?thesis by (simp add: assign_def)
qed

lemma table_remove:
  assumes "store_table obs h k T st"
  shows "\<exists>c r. StoreImpl_singleRemove eng (Some i) k (Some (putU64BE x)) st = Some (Some c, r) \<and>
    store_table obs h k (if c = 0 then T(unat x := None) else T) r"
proof -
  have t: "store_wf st" "open_flag st" "live_kind st k h" using assms by (simp_all add: store_table_def)
  obtain c r where p: "StoreImpl_singleRemove eng (Some i) k (Some (putU64BE x)) st = Some (assign c (Some i), r)"
    and o: "outcome obs (WSingleDelete h (putU64BE x)) c st r" using singleRemove_spec [OF t] by blast
  have "store_table obs h k (if c = 0 then T(unat x := None) else T) r"
    by (rule store_table_step [OF assms])
      (use o effect_remove [OF assms] assms in \<open>auto simp: outcome_def store_table_def simp del: op_effect.simps split: if_splits\<close>)
  with p show ?thesis by (simp add: assign_def)
qed

lemma table_take:
  assumes "store_table obs h k T st"
  shows "\<exists>c p len' r. StoreImpl_singleRemoveIfPresent eng (Some i) k len (Some (putU64BE x)) st =
      Some (p, Some c, len', r) \<and> store_table obs h k (if c = 0 then T(unat x := None) else T) r \<and>
    (c = 0 \<longrightarrow> T (unat x) \<noteq> None \<and> array_bytes p r = T (unat x))"
proof (cases len)
  case None
  then show ?thesis using assms null_length_refused(4) [of eng "Some i"] by (simp add: assign_def)
next
  case (Some n)
  have t: "store_wf st" "open_flag st" "live_kind st k h" using assms by (simp_all add: store_table_def)
  obtain c p len' r where p: "StoreImpl_singleRemoveIfPresent eng (Some i) k (Some n) (Some (putU64BE x)) st =
      Some (p, assign c (Some i), len', r)"
    and o: "taken obs (WSingleDelete h (putU64BE x)) (cell_value (cells (obs (rdb st)) h (putU64BE x))) c p len' st r"
    using singleRemoveIfPresent_spec [OF t] by blast
  have v: "cell_value (cells (obs (rdb st)) h (putU64BE x)) = T (unat x)"
    using assms by (simp add: store_table_def split: option.split)
  have e: "if c = 0 then op_effect (WSingleDelete h (putU64BE x)) (obs (rdb st)) (obs (rdb r)) else obs (rdb r) = obs (rdb st)"
    using o by (auto simp: taken_def simp del: op_effect.simps split: if_splits)
  have "store_table obs h k (if c = 0 then T(unat x := None) else T) r"
    by (rule store_table_step [OF assms])
      (use o e effect_remove [OF assms] assms in \<open>auto simp: taken_def store_table_def simp del: op_effect.simps split: if_splits\<close>)
  moreover have "T (unat x) \<noteq> None \<and> array_bytes p r = T (unat x)" if "c = 0"
  proof -
    have "fetched 0 p (Some 0) len' (T (unat x)) st r"
      using o that v by (auto simp: taken_def simp del: op_effect.simps split: if_splits)
    then show ?thesis by (rule fetched_bytes)
  qed
  ultimately show ?thesis using p Some by (simp add: assign_def)
qed

lemma table_get:
  assumes "store_table obs h k T st"
  shows "\<exists>c p len' r. StoreImpl_get eng (Some i) k len (Some (putU64BE x)) st = Some (p, Some c, len', r) \<and>
    store_table obs h k T r \<and> (c = 0 \<longrightarrow> T (unat x) \<noteq> None \<and> array_bytes p r = T (unat x))"
proof (cases len)
  case None
  then show ?thesis using assms null_length_refused(1) [of eng "Some i"] by (simp add: assign_def)
next
  case (Some n)
  have t: "store_wf st" "open_flag st" "live_kind st k h" using assms by (simp_all add: store_table_def)
  obtain c p len' r where p: "StoreImpl_get eng (Some i) k (Some n) (Some (putU64BE x)) st =
      Some (p, assign c (Some i), len', r)" and o: "store_wf r" "store_frame st r" "obs (rdb r) = obs (rdb st)"
    and f: "fetched c p (Some 0) len' (cell_value (cells (obs (rdb st)) h (putU64BE x))) st r"
    using get_spec [OF t] by blast
  have "cell_value (cells (obs (rdb st)) h (putU64BE x)) = T (unat x)"
    using assms by (simp add: store_table_def split: option.split)
  with f have "c = 0 \<longrightarrow> T (unat x) \<noteq> None \<and> array_bytes p r = T (unat x)" using fetched_bytes by metis
  moreover have "store_table obs h k T r"
    using store_table_step [OF assms o(1,2)] o(3) assms by (simp add: store_table_def)
  ultimately show ?thesis using p Some by (simp add: assign_def)
qed

end

section \<open>Matching states\<close>

text \<open>
  A state of the implementation and an abstract one: same control, the column family is the table, keys and
  counter are the machine words of the numbers, the arrays handed out hold the messages taken.
\<close>

definition tdata :: "('d \<Rightarrow> dbobs) \<Rightarrow> handle \<Rightarrow> 'd tstate \<Rightarrow> conc \<Rightarrow> bool" where
  "tdata obs h c a \<longleftrightarrow> kvalid (tq c) \<and>
     (\<exists>k. queueKind (tq c) = Some k \<and> store_table obs h k (tab a) (tstore c)) \<and>
     unat (minKey (tq c)) = minK a \<and> unat (maxKey (tq c)) = maxK a \<and> kcount (tq c) = word_of_int (cnt a) \<and>
     tin c = accepted_log a \<and> tout c = map (Some \<circ> snd) (filter (\<lambda>x. fst x = Taken) (out_log a))"

definition tmatch :: "('d \<Rightarrow> dbobs) \<Rightarrow> handle \<Rightarrow> 'd tstate \<Rightarrow> conc \<Rightarrow> bool" where
  "tmatch obs h c a \<longleftrightarrow> transfer c a = a \<and> tdata obs h c a \<and> mutex a \<and> contents a \<and> known_keys a"

lemma transfer_same: "transfer c a = a \<longleftrightarrow> putOwner a = putOwner c \<and> takeOwner a = takeOwner c \<and> pcs a = pcs c \<and>
    read_keys a = read_keys c \<and> erase_log a = erase_log c"
  by (cases a) (auto simp: transfer_def)

lemma tmatch_control:
  assumes "tmatch obs h c a"
  shows "pcs a = pcs c" "putOwner a = putOwner c" "takeOwner a = takeOwner c" "read_keys a = read_keys c"
    "erase_log a = erase_log c"
  using assms by (simp_all add: tmatch_def transfer_same)

lemma tmatch_data:
  assumes "tmatch obs h c a" "queueKind (tq c) = Some k"
  shows "store_table obs h k (tab a) (tstore c)" "unat (minKey (tq c)) = minK a" "unat (maxKey (tq c)) = maxK a"
    "mutex a" "contents a" "known_keys a"
  using assms by (auto simp: tmatch_def tdata_def)

lemma sint_word_of_int_u64: "0 \<le> i \<Longrightarrow> i < 2 ^ 63 \<Longrightarrow> sint (word_of_int i :: u64) = i"
  using sint_of_nat_u64 [of "nat i"] by simp

lemma tmatch_count:
  assumes "tmatch obs h c a" "roomy c"
  shows "sint (kcount (tq c)) = cnt a"
proof -
  have d: "kcount (tq c) = word_of_int (cnt a)" "unat (maxKey (tq c)) = maxK a"
    "int (minK a) + cnt a + int (stored a) = int (maxK a)" "0 \<le> cnt a"
    using assms(1) by (simp_all add: tmatch_def tdata_def contents_def)
  have "int (maxK a) < 2 ^ 63" using assms(2) d(2) by (simp add: roomy_def)
  then have "cnt a < 2 ^ 63" using d(3) by linarith
  then show ?thesis using sint_word_of_int_u64 [OF d(4)] d(1) by simp
qed

lemma tmatch_step:
  assumes "tmatch obs h c a" "cstep l a a'" "l \<noteq> Wild" "transfer c' a' = a'" "tdata obs h c' a'"
  shows "\<exists>a'. cstep l a a' \<and> tmatch obs h c' a'"
  using assms mutex_step [OF assms(2)] contents_step [OF assms(2)] known_step [OF assms(2,3)]
  by (auto simp: tmatch_def)

text \<open>Control steps touch no data.\<close>

lemma same_tdata:
  assumes "control.more s' = control.more s"
  shows "tq s' = tq s" "tstore s' = tstore s" "tin s' = tin s" "tout s' = tout s"
  using assms by (cases s; cases s'; simp)+

lemma tdata_cong:
  assumes "control.more c' = control.more c" "control.more a' = control.more a"
  shows "tdata obs h c' a' = tdata obs h c a"
  by (simp add: tdata_def same_tdata [OF assms(1)] same_data [OF assms(2)])

lemma sim_control:
  assumes "tmatch obs h c a" "roomy c" "ctl (sint (kcount (tq c))) (unat (minKey (tq c))) l c c'" "l \<noteq> Wild"
  shows "\<exists>a'. cstep l a a' \<and> tmatch obs h c' a'"
proof -
  have m: "transfer c a = a" "tdata obs h c a" "unat (minKey (tq c)) = minK a"
    using assms(1) by (simp_all add: tmatch_def tdata_def)
  have "cstep l a (transfer c' a)"
    using cstep.control [of a l "transfer c' a"] ctl_transfer [OF assms(3), of a] m tmatch_count [OF assms(1,2)] by simp
  moreover have "tdata obs h c' (transfer c' a)"
    using m(2) tdata_cong [OF ctl_data [OF assms(3)], of "transfer c' a" a] by simp
  ultimately show ?thesis by - (rule tmatch_step [OF assms(1) _ assms(4)], simp_all)
qed

lemma goto_tdata [simp]:
  "tq (goto t p s) = tq s" "tstore (goto t p s) = tstore s" "tin (goto t p s) = tin s" "tout (goto t p s) = tout s"
  by (simp_all add: goto_def)

text \<open>
  How the data changes with a store call: the first table entry beyond the last key is free, and a key that
  is about to be counted does not wrap.
\<close>

lemma tmatch_next:
  assumes "tmatch obs h c a" "roomy c"
  shows "tab a (unat (maxKey (tq c))) = None" "unat (maxKey (tq c) + 1) = maxK a + 1"
proof -
  have d: "unat (maxKey (tq c)) = maxK a" "\<forall>k. tab a k \<noteq> None \<longrightarrow> k < maxK a"
    using assms(1) by (auto simp: tmatch_def tdata_def contents_def)
  then show "tab a (unat (maxKey (tq c))) = None" by fastforce
  show "unat (maxKey (tq c) + 1) = maxK a + 1"
    using assms(2) d(1) unat_Suc_u64 [of "maxKey (tq c)"] by (simp add: roomy_def)
qed

lemma tmatch_first:
  assumes "tmatch obs h c a" "removing (pcs c t)"
  shows "unat (minKey (tq c) + 1) = minK a + 1"
proof -
  have d: "unat (maxKey (tq c)) = maxK a" "unat (minKey (tq c)) = minK a" "contents a" "pcs a = pcs c"
    using assms(1) by (auto simp: tmatch_def tdata_def transfer_same)
  have "removed a = 1" using d(4) assms(2) removed_goto(3) [of a t] by simp
  then have "minK a < maxK a" using contents_keys [OF d(3)] by simp
  then show ?thesis using unat_Suc_less_u64 [of "minKey (tq c)" "maxKey (tq c)"] d by simp
qed

lemma tmatch_rel:
  assumes "tmatch obs h c a"
  shows "transfer c a = a" "tdata obs h c a"
  using assms by (simp_all add: tmatch_def)

text \<open>Counting a message in, and out; and a step that only replaces the store.\<close>

lemma sim_put_count:
  assumes m: "tmatch obs h c a" and "roomy c" "pcs c t = PutStored"
  shows "\<exists>a'. cstep Run a a' \<and>
    tmatch obs h (goto t (PutCounted (sint (kcount (tq c)))) (c\<lparr>tq := tcount (tq c)\<rparr>)) a'"
proof (rule tmatch_step [OF m])
  show "cstep Run a (goto t (PutCounted (sint (kcount (tq c)))) (a\<lparr>cnt := cnt a + 1\<rparr>))"
    using cstep.put_count [of a t] assms(3) tmatch_control(1) [OF m] tmatch_count [OF m assms(2)] by simp
  show "tdata obs h (goto t (PutCounted (sint (kcount (tq c)))) (c\<lparr>tq := tcount (tq c)\<rparr>))
      (goto t (PutCounted (sint (kcount (tq c)))) (a\<lparr>cnt := cnt a + 1\<rparr>))"
    using tmatch_rel(2) [OF m] by (auto simp: tdata_def tcount_def)
qed (simp_all add: transfer_same tmatch_control [OF m] del: transfer_goto transfer_upd)

lemma sim_advance:
  assumes m: "tmatch obs h c a" and t: "removing (pcs c t)" and step: "cstep Run a (goto t p (advance a))"
  shows "\<exists>a'. cstep Run a a' \<and> tmatch obs h (goto t p (c\<lparr>tq := tadvance (tq c)\<rparr>)) a'"
proof (rule tmatch_step [OF m step])
  show "tdata obs h (goto t p (c\<lparr>tq := tadvance (tq c)\<rparr>)) (goto t p (advance a))"
    using tmatch_rel(2) [OF m] tmatch_first [OF m t] by (auto simp: tdata_def tadvance_def advance_def)
qed (simp_all add: transfer_same tmatch_control [OF m] advance_def del: transfer_goto transfer_upd)

lemma sim_keep:
  assumes m: "tmatch obs h c a" and k: "queueKind (tq c) = Some k" and r: "store_table obs h k (tab a) r"
    and step: "cstep l a (goto t p (a\<lparr>read_keys := R\<rparr>))" and l: "l \<noteq> Wild"
  shows "\<exists>a'. cstep l a a' \<and> tmatch obs h (goto t p (c\<lparr>tstore := r, read_keys := R\<rparr>)) a'"
proof (rule tmatch_step [OF m step l])
  show "tdata obs h (goto t p (c\<lparr>tstore := r, read_keys := R\<rparr>)) (goto t p (a\<lparr>read_keys := R\<rparr>))"
    using tmatch_rel(2) [OF m] k r by (auto simp: tdata_def)
qed (simp_all add: transfer_same tmatch_control [OF m] del: transfer_goto transfer_upd)

lemma sim_store:
  assumes m: "tmatch obs h c a" and k: "queueKind (tq c) = Some k" and r: "store_table obs h k (tab a) r"
    and step: "cstep l a (goto t p a)" and l: "l \<noteq> Wild"
  shows "\<exists>a'. cstep l a a' \<and> tmatch obs h (goto t p (c\<lparr>tstore := r\<rparr>)) a'"
proof -
  have "c\<lparr>tstore := r, read_keys := read_keys a\<rparr> = c\<lparr>tstore := r\<rparr>" using tmatch_control(4) [OF m] by simp
  then show ?thesis using sim_keep [OF m k r, of l t p "read_keys a"] step l by simp
qed

text \<open>A step that removes the first entry.\<close>

lemma sim_pop:
  assumes m: "tmatch obs h c a" and k: "queueKind (tq c) = Some k"
    and r: "store_table obs h k ((tab a)(unat (minKey (tq c)) := None)) r"
    and step: "cstep Run a (goto t p ((pop x a)\<lparr>erase_log := E\<rparr>))"
    and out: "ds = (if x = Taken then [tab a (minK a)] else [])" and v: "tab a (minK a) \<noteq> None"
  shows "\<exists>a'. cstep Run a a' \<and> tmatch obs h (goto t p (c\<lparr>tstore := r, tout := tout c @ ds, erase_log := E\<rparr>)) a'"
proof (rule tmatch_step [OF m step])
  show "tdata obs h (goto t p (c\<lparr>tstore := r, tout := tout c @ ds, erase_log := E\<rparr>)) (goto t p ((pop x a)\<lparr>erase_log := E\<rparr>))"
    using tmatch_rel(2) [OF m] k r v by (auto simp: tdata_def pop_def out)
qed (simp_all add: transfer_same tmatch_control [OF m] pop_def del: transfer_goto transfer_upd)

lemma sim_remove:
  assumes m: "tmatch obs h c a" and k: "queueKind (tq c) = Some k"
    and r: "store_table obs h k ((tab a)(unat (minKey (tq c)) := None)) r" and step: "cstep Run a (goto t p (pop x a))"
    and out: "ds = (if x = Taken then [tab a (minK a)] else [])" and v: "tab a (minK a) \<noteq> None"
  shows "\<exists>a'. cstep Run a a' \<and> tmatch obs h (goto t p (c\<lparr>tstore := r, tout := tout c @ ds\<rparr>)) a'"
proof -
  have c: "c\<lparr>tstore := r, tout := tout c @ ds, erase_log := erase_log a\<rparr> = c\<lparr>tstore := r, tout := tout c @ ds\<rparr>"
    using tmatch_control(5) [OF m] by simp
  have "(pop x a)\<lparr>erase_log := erase_log a\<rparr> = pop x a" by (simp add: pop_def)
  then have "cstep Run a (goto t p ((pop x a)\<lparr>erase_log := erase_log a\<rparr>))" using step by (simp only:)
  from sim_pop [OF m k r this out v] show ?thesis unfolding c .
qed

lemma sim_put_store:
  assumes m: "tmatch obs h c a" and room: "roomy c" and k: "queueKind (tq c) = Some k"
    and t: "pcs c t = PutLocked v" and r: "store_table obs h k ((tab a)(unat (maxKey (tq c)) \<mapsto> v)) r"
  shows "\<exists>a'. cstep Run a a' \<and> tmatch obs h (goto t PutStored (c\<lparr>tq := (tq c)\<lparr>maxKey := maxKey (tq c) + 1\<rparr>,
    tstore := r, tin := tin c @ [v]\<rparr>)) a'"
proof (rule tmatch_step [OF m])
  let ?a = "goto t PutStored (a\<lparr>tab := (tab a)(maxK a \<mapsto> v), maxK := maxK a + 1, accepted_log := accepted_log a @ [v]\<rparr>)"
  show "cstep Run a ?a" by (rule cstep.put_store) (simp add: tmatch_control [OF m] t)
  show "tdata obs h (goto t PutStored (c\<lparr>tq := (tq c)\<lparr>maxKey := maxKey (tq c) + 1\<rparr>, tstore := r, tin := tin c @ [v]\<rparr>)) ?a"
    using tmatch_rel(2) [OF m] k r tmatch_next(2) [OF m room] by (auto simp: tdata_def)
qed (simp_all add: transfer_same tmatch_control [OF m] del: transfer_goto transfer_upd)

lemma first_entry:
  assumes m: "tmatch obs h c a" and t: "take_crit (pcs c t)" "\<not> removing (pcs c t)" and pos: "0 < cnt a"
  shows "tab a (minK a) \<noteq> None"
proof -
  have a: "mutex a" "contents a" "pcs a = pcs c" using m by (simp_all add: tmatch_def transfer_same)
  then have "removed a = 0" using removed_own(1) [OF a(1), of t] t by simp
  then show ?thesis using first_present(1) [OF a(2) _ pos] by simp
qed

context rocksdb_spec
begin

text \<open>Each store call, with both outcomes.\<close>

lemma sim_puts:
  assumes m: "tmatch obs h c a" and room: "roomy c" and t: "pcs c t = PutLocked (slice_of val)" and k: "queueKind (tq c) = Some k"
    and call: "StoreImpl_put eng (Some x) k (Some (putU64BE (maxKey (tq c)))) val (tstore c) = Some (Some st, r)"
  shows "st = SC_Ok \<Longrightarrow> \<exists>a'. cstep Run a a' \<and> tmatch obs h (goto t PutStored (c\<lparr>tq := (tq c)\<lparr>maxKey := maxKey (tq c) + 1\<rparr>,
      tstore := r, tin := tin c @ [slice_of val]\<rparr>)) a'"
    "st \<noteq> SC_Ok \<Longrightarrow> \<exists>a'. cstep Run a a' \<and> tmatch obs h (goto t (PutCounted (- 1)) (c\<lparr>tstore := r\<rparr>)) a'"
proof -
  have "store_table obs h k (if st = 0 then (tab a)(unat (maxKey (tq c)) \<mapsto> slice_of val) else tab a) r"
    using table_put [OF tmatch_data(1) [OF m k], of x "maxKey (tq c)" val] call tmatch_next(1) [OF m room] by simp
  then show "st = SC_Ok \<Longrightarrow> \<exists>a'. cstep Run a a' \<and> tmatch obs h (goto t PutStored (c\<lparr>tq := (tq c)\<lparr>maxKey := maxKey (tq c) + 1\<rparr>,
      tstore := r, tin := tin c @ [slice_of val]\<rparr>)) a'"
    and "st \<noteq> SC_Ok \<Longrightarrow> \<exists>a'. cstep Run a a' \<and> tmatch obs h (goto t (PutCounted (- 1)) (c\<lparr>tstore := r\<rparr>)) a'"
    using sim_put_store [OF m room k t, of r] sim_store [OF m k, of r Run t] cstep.put_fail [of a t] t
    by (simp_all add: tmatch_control [OF m])
qed

lemma sim_takes:
  assumes m: "tmatch obs h c a" and t: "pcs c t = TakeReady md" and md: "md \<noteq> ReadNext" and k: "queueKind (tq c) = Some k"
    and call: "StoreImpl_singleRemoveIfPresent eng (Some x) k len (Some (putU64BE (minKey (tq c)))) (tstore c) =
      Some (p, Some st, len', r)"
  shows "st = SC_Ok \<Longrightarrow> \<exists>a'. cstep Run a a' \<and>
      tmatch obs h (goto t TakeRemoved (c\<lparr>tstore := r, tout := tout c @ [array_bytes p r]\<rparr>)) a'"
    "st \<noteq> SC_Ok \<Longrightarrow> \<exists>a'. cstep Fault a a' \<and> tmatch obs h (goto t TakeUnlock (c\<lparr>tstore := r\<rparr>)) a'"
proof -
  note d = tmatch_data [OF m k]
  have "store_table obs h k (if st = 0 then (tab a)(unat (minKey (tq c)) := None) else tab a) r"
    "st = 0 \<Longrightarrow> tab a (minK a) \<noteq> None \<and> array_bytes p r = tab a (minK a)"
    using table_take [OF d(1), of x len "minKey (tq c)"] call d(2) by auto
  then show "st = SC_Ok \<Longrightarrow> \<exists>a'. cstep Run a a' \<and>
      tmatch obs h (goto t TakeRemoved (c\<lparr>tstore := r, tout := tout c @ [array_bytes p r]\<rparr>)) a'"
    and "st \<noteq> SC_Ok \<Longrightarrow> \<exists>a'. cstep Fault a a' \<and> tmatch obs h (goto t TakeUnlock (c\<lparr>tstore := r\<rparr>)) a'"
    using sim_remove [OF m k, of r t TakeRemoved Taken] cstep.take_remove [of a t md]
      sim_store [OF m k, of r Fault t] cstep.take_fail [of a t md] t md
    by (simp_all add: tmatch_control [OF m])
qed

lemma sim_reads:
  assumes m: "tmatch obs h c a" and t: "pcs c t = TakeReady ReadNext" and k: "queueKind (tq c) = Some k"
    and call: "StoreImpl_get eng (Some x) k len (Some (putU64BE (minKey (tq c)))) (tstore c) = Some (p, Some st, len', r)"
  shows "st = SC_Ok \<Longrightarrow> \<exists>a'. cstep Run a a' \<and> tmatch obs h (goto t TakeUnlock (c\<lparr>tstore := r,
      read_keys := if pKey then insert (unat (minKey (tq c))) (read_keys c) else read_keys c\<rparr>)) a'"
    "st \<noteq> SC_Ok \<Longrightarrow> \<exists>a'. cstep Fault a a' \<and> tmatch obs h (goto t TakeUnlock (c\<lparr>tstore := r\<rparr>)) a'"
proof -
  note d = tmatch_data [OF m k]
  have r: "store_table obs h k (tab a) r" "st = 0 \<Longrightarrow> tab a (minK a) \<noteq> None"
    using table_get [OF d(1), of x len "minKey (tq c)"] call d(2) by auto
  show "\<exists>a'. cstep Run a a' \<and> tmatch obs h (goto t TakeUnlock (c\<lparr>tstore := r,
      read_keys := if pKey then insert (unat (minKey (tq c))) (read_keys c) else read_keys c\<rparr>)) a'" if "st = SC_Ok"
  proof -
    have "cstep Run a (goto t TakeUnlock (a\<lparr>read_keys := if pKey then insert (minK a) (read_keys a) else read_keys a\<rparr>))"
      by (rule cstep.read_get) (use r(2) that t in \<open>simp_all add: tmatch_control [OF m]\<close>)
    from sim_keep [OF m k r(1) this] show ?thesis unfolding d(2) tmatch_control(4) [OF m] by simp
  qed
  show "\<exists>a'. cstep Fault a a' \<and> tmatch obs h (goto t TakeUnlock (c\<lparr>tstore := r\<rparr>)) a'"
    by (rule sim_store [OF m k r(1)]) (use cstep.take_fail [of a t ReadNext] t in \<open>simp_all add: tmatch_control [OF m]\<close>)
qed

lemma sim_erases:
  assumes m: "tmatch obs h c a" and t: "pcs c t = EraseLocked j" "j = unat (minKey (tq c))" and k: "queueKind (tq c) = Some k"
    and call: "StoreImpl_singleRemove eng (Some SC_Ok) k (Some (putU64BE (minKey (tq c)))) (tstore c) = Some (Some st, r)"
  shows "st = SC_Ok \<Longrightarrow> \<exists>a'. cstep Run a a' \<and>
      tmatch obs h (goto t TakeRemoved (c\<lparr>tstore := r, erase_log := erase_log c @ [j]\<rparr>)) a'"
    "st \<noteq> SC_Ok \<Longrightarrow> \<exists>a'. cstep Run a a' \<and> tmatch obs h (goto t TakeUnlock (c\<lparr>tstore := r\<rparr>)) a'"
proof -
  note d = tmatch_data [OF m k]
  have "0 < cnt a" using known_erasing [OF d(6), of t j] t d(2) by (simp add: tmatch_control [OF m])
  then have "tab a (minK a) \<noteq> None" using first_entry [OF m, of t] t by simp
  moreover have "store_table obs h k (if st = 0 then (tab a)(unat (minKey (tq c)) := None) else tab a) r"
    using table_remove [OF d(1), of SC_Ok "minKey (tq c)"] call by auto
  ultimately show "st = SC_Ok \<Longrightarrow> \<exists>a'. cstep Run a a' \<and>
      tmatch obs h (goto t TakeRemoved (c\<lparr>tstore := r, erase_log := erase_log c @ [j]\<rparr>)) a'"
    and "st \<noteq> SC_Ok \<Longrightarrow> \<exists>a'. cstep Run a a' \<and> tmatch obs h (goto t TakeUnlock (c\<lparr>tstore := r\<rparr>)) a'"
    using sim_pop [OF m k, of r t TakeRemoved "erase_log c @ [j]" Erased "[]"] cstep.erase_remove [of a t j]
      sim_store [OF m k, of r Run t] cstep.erase_fail [of a t j] t d(2)
    by (simp_all add: tmatch_control [OF m])
qed

lemma sim_clears:
  assumes m: "tmatch obs h c a" and room: "roomy c" and t: "pcs c t = ClearTest" "0 < sint (kcount (tq c))"
    and k: "queueKind (tq c) = Some k"
    and call: "StoreImpl_singleRemove eng (Some x) k (Some (putU64BE (minKey (tq c)))) (tstore c) = Some (Some st, r)"
  shows "st = SC_Ok \<Longrightarrow> \<exists>a'. cstep Run a a' \<and> tmatch obs h (goto t ClearRemoved (c\<lparr>tstore := r\<rparr>)) a'"
    "st \<noteq> SC_Ok \<Longrightarrow> \<exists>a'. cstep Run a a' \<and> tmatch obs h (goto t ClearUnlock (c\<lparr>tstore := r\<rparr>)) a'"
proof -
  note d = tmatch_data [OF m k]
  have pos: "0 < cnt a" using t(2) tmatch_count [OF m room] by simp
  then have "tab a (minK a) \<noteq> None" using first_entry [OF m, of t] t by simp
  moreover have "store_table obs h k (if st = 0 then (tab a)(unat (minKey (tq c)) := None) else tab a) r"
    using table_remove [OF d(1), of x "minKey (tq c)"] call by auto
  ultimately show "st = SC_Ok \<Longrightarrow> \<exists>a'. cstep Run a a' \<and> tmatch obs h (goto t ClearRemoved (c\<lparr>tstore := r\<rparr>)) a'"
    and "st \<noteq> SC_Ok \<Longrightarrow> \<exists>a'. cstep Run a a' \<and> tmatch obs h (goto t ClearUnlock (c\<lparr>tstore := r\<rparr>)) a'"
    using sim_remove [OF m k, of r t ClearRemoved Cleared "[]"] cstep.clear_remove [of a t]
      sim_store [OF m k, of r Run t] cstep.clear_fail [of a t] t pos
    by (simp_all add: tmatch_control [OF m])
qed

lemma sim_step:
  assumes m: "tmatch obs h c a" and room: "roomy c" and step: "tstep eng l c c'" and l: "l \<noteq> Wild"
  shows "\<exists>a'. cstep l a a' \<and> tmatch obs h c' a'"
  using step
proof cases
  case control
  then show ?thesis using sim_control [OF m room _ l] by blast
next
  case put_store
  then show ?thesis using sim_puts(1) [OF m room] by blast
next
  case put_fail
  then show ?thesis using sim_puts(2) [OF m room] by simp
next
  case put_count
  then show ?thesis using sim_put_count [OF m room] by blast
next
  case take_remove
  then show ?thesis using sim_takes(1) [OF m] by blast
next
  case take_fail
  then show ?thesis using sim_takes(2) [OF m] by blast
next
  case read_get
  then show ?thesis using sim_reads(1) [OF m] by blast
next
  case read_fail
  then show ?thesis using sim_reads(2) [OF m] by blast
next
  case (take_count t)
  then show ?thesis
    using sim_advance [OF m, of t "TakeCounted (cnt a)"] cstep.take_count [of a t] tmatch_count [OF m room]
    by (simp add: tmatch_control [OF m])
next
  case erase_remove
  then show ?thesis using sim_erases(1) [OF m] by blast
next
  case erase_fail
  then show ?thesis using sim_erases(2) [OF m] by blast
next
  case clear_remove
  then show ?thesis using sim_clears(1) [OF m room] by blast
next
  case clear_fail
  then show ?thesis using sim_clears(2) [OF m room] by blast
next
  case (clear_count t)
  then show ?thesis
    using sim_advance [OF m, of t ClearTest] cstep.clear_count [of a t] by (simp add: tmatch_control [OF m])
qed

lemma sim_start:
  assumes "tstart obs h c"
  shows "tmatch obs h c (conc_init (unat (minKey (tq c))) (tin c))"
proof -
  let ?a = "conc_init (unat (minKey (tq c))) (tin c)"
  have inv: "kueue_inv obs h (tin c) (tq c) (tstore c)" using assms by (simp add: tstart_def)
  then have rp: "kueue_repr (obs (rdb (tstore c))) h (tin c) (tq c)" by (simp add: kueue_inv_def)
  note r = kueue_reprD [OF rp]
  have "unat (maxKey (tq c)) < 2 ^ LENGTH(64)" by (rule unsigned_less)
  then have "cells (obs (rdb (tstore c))) h = key_cells (tab ?a)"
    using r(4,7) queue_cells_key [of "minKey (tq c)" "tin c"] by simp
  moreover have "mutex ?a" "contents ?a" "known_keys ?a" using inv_start [of ?a] by (auto simp: conc_start_def)
  moreover have "transfer c ?a = ?a" using assms by (simp add: transfer_same tstart_def conc_init_def)
  ultimately show ?thesis
    using inv r(1,4,6) assms by (auto simp: tmatch_def tdata_def store_table_def kueue_inv_def conc_init_def tstart_def)
qed

end

sublocale rocksdb_spec \<subseteq> threads: simulation "tstart obs h" "trun eng" conc_start cstep "tmatch obs h" "- {Wild}" for h
proof
  fix c
  assume "tstart obs h c"
  then show "\<exists>a. conc_start a \<and> tmatch obs h c a" using sim_start by (auto simp: conc_start_def)
next
  fix c a l c'
  assume "tmatch obs h c a" "trun eng l c c'" "l \<in> - {Wild}"
  then show "\<exists>a'. cstep l a a' \<and> tmatch obs h c' a'" using sim_step by (auto simp: trun_def)
qed

context rocksdb_spec
begin

lemma sim_reach: "reach (tstart obs h) (trun eng) L c \<Longrightarrow> Wild \<notin> L \<Longrightarrow> \<exists>a. reachable L a \<and> tmatch obs h c a"
  by (rule threads.reach_match) auto

end

section \<open>Every call returns\<close>

text \<open>Some thread can go on, with a step of its own program.\<close>

definition tgoes :: "'d rocksdb \<Rightarrow> 'd tstate \<Rightarrow> bool" where
  "tgoes eng c \<longleftrightarrow> (\<exists>l c'. (l = Run \<or> l = Fault) \<and> tstep eng l c c')"

lemma goes_ctl: "ctl (sint (kcount (tq c))) (unat (minKey (tq c))) Run c c' \<Longrightarrow> tgoes eng c"
  unfolding tgoes_def using tstep.control by blast

lemma goes_step: "tstep eng Run c c' \<Longrightarrow> tgoes eng c" "tstep eng Fault c c' \<Longrightarrow> tgoes eng c"
  unfolding tgoes_def by blast+

context rocksdb_spec
begin

text \<open>The store calls return with either outcome, so their steps exist.\<close>

lemma goes_store:
  assumes m: "tmatch obs h c a"
  shows "pcs c t = PutLocked v \<Longrightarrow> tgoes eng c" "pcs c t = TakeReady md \<Longrightarrow> tgoes eng c"
    "pcs c t = EraseLocked (unat (minKey (tq c))) \<Longrightarrow> tgoes eng c"
    "pcs c t = ClearTest \<Longrightarrow> 0 < sint (kcount (tq c)) \<Longrightarrow> tgoes eng c"
proof -
  obtain k where k: "queueKind (tq c) = Some k" "store_table obs h k (tab a) (tstore c)"
    using m by (auto simp: tmatch_def tdata_def)
  obtain st r where p: "StoreImpl_put eng (Some 0) k (Some (putU64BE (maxKey (tq c)))) (Some v) (tstore c) = Some (Some st, r)"
    using table_put [OF k(2)] by blast
  show "tgoes eng c" if "pcs c t = PutLocked v"
    using goes_step(1) [OF tstep.put_store [OF _ k(1) p]] goes_step(1) [OF tstep.put_fail [OF _ k(1) p]] that
    by (cases "st = SC_Ok") auto
  obtain st r p len where q: "StoreImpl_singleRemoveIfPresent eng (Some 0) k (Some 0) (Some (putU64BE (minKey (tq c)))) (tstore c) =
      Some (p, Some st, len, r)" using table_take [OF k(2)] by blast
  obtain st' r' p' len' where g: "StoreImpl_get eng (Some 0) k (Some 0) (Some (putU64BE (minKey (tq c)))) (tstore c) =
      Some (p', Some st', len', r')" using table_get [OF k(2)] by blast
  show "tgoes eng c" if "pcs c t = TakeReady md"
  proof (cases "md = ReadNext")
    case True
    then show ?thesis
      using goes_step(1) [OF tstep.read_get [OF _ k(1) g]] goes_step(2) [OF tstep.read_fail [OF _ k(1) g]] that
      by (cases "st' = SC_Ok") auto
  next
    case False
    then show ?thesis
      using goes_step(1) [OF tstep.take_remove [OF that False k(1) q]] goes_step(2) [OF tstep.take_fail [OF that False k(1) q]]
      by (cases "st = SC_Ok") auto
  qed
  obtain st r where d: "StoreImpl_singleRemove eng (Some SC_Ok) k (Some (putU64BE (minKey (tq c)))) (tstore c) = Some (Some st, r)"
    using table_remove [OF k(2)] by blast
  show "tgoes eng c" if "pcs c t = EraseLocked (unat (minKey (tq c)))"
    using goes_step(1) [OF tstep.erase_remove [OF that refl k(1) d]] goes_step(1) [OF tstep.erase_fail [OF that refl k(1) d]]
    by (cases "st = SC_Ok") auto
  show "tgoes eng c" if "pcs c t = ClearTest" "0 < sint (kcount (tq c))"
    using goes_step(1) [OF tstep.clear_remove [OF that k(1) d]] goes_step(1) [OF tstep.clear_fail [OF that k(1) d]]
    by (cases "st = SC_Ok") auto
qed

lemma take_crit_goes:
  assumes m: "tmatch obs h c a" and t: "take_crit (pcs c t)"
  shows "tgoes eng c"
proof -
  obtain cn where n: "notify c cn" using notify_total by blast
  show ?thesis
  proof (cases "pcs c t")
    case SignalLocked
    then show ?thesis using goes_ctl [OF ctl.sig_notify] n by blast
  next
    case SignalUnlock
    then show ?thesis using goes_ctl [OF ctl.sig_unlock] by blast
  next
    case (TakeTest md)
    then show ?thesis using goes_ctl [OF ctl.take_go] goes_ctl [OF ctl.take_wait] by blast
  next
    case TakeRemoved
    then show ?thesis using goes_step(1) [OF tstep.take_count] by blast
  next
    case (TakeCounted i)
    then show ?thesis using goes_ctl [OF ctl.take_notify [of c t i]] goes_ctl [OF ctl.take_quiet [of c t i]] n by (cases "i > 1") auto
  next
    case TakeUnlock
    then show ?thesis using goes_ctl [OF ctl.take_unlock] by blast
  next
    case (EraseLocked j)
    then show ?thesis using goes_ctl [OF ctl.erase_late] goes_store(3) [OF m] by blast
  next
    case ClearTest
    then show ?thesis using goes_store(4) [OF m] goes_ctl [OF ctl.clear_done [of c t]] by (meson not_less)
  next
    case ClearRemoved
    then show ?thesis using goes_step(1) [OF tstep.clear_count] by blast
  next
    case ClearUnlock
    then show ?thesis using goes_ctl [OF ctl.clear_unlock_take] by blast
  qed (use t goes_store(2) [OF m] in auto)
qed

text \<open>
  A thread that wants the mutex of the takers, whose owner goes on; and then also one that wants the mutex
  of the putters, whose owner may in turn want the other.
\<close>

lemma want_take_goes:
  assumes m: "tmatch obs h c a"
    and t: "takeOwner c = None \<Longrightarrow> ctl (sint (kcount (tq c))) (unat (minKey (tq c))) Run c c'"
  shows "tgoes eng c"
proof (cases "takeOwner c")
  case None
  then show ?thesis using goes_ctl [OF t] by blast
next
  case (Some u)
  have "mutex a" "pcs a = pcs c" "takeOwner a = takeOwner c" using m by (auto simp: tmatch_def transfer_same)
  with Some have "take_crit (pcs c u)" by (simp add: mutex_def)
  then show ?thesis by (rule take_crit_goes [OF m])
qed

lemma put_crit_goes:
  assumes m: "tmatch obs h c a" and t: "put_crit (pcs c t)"
  shows "tgoes eng c"
proof (cases "pcs c t")
  case PutStored
  then show ?thesis using goes_step(1) [OF tstep.put_count] by blast
next
  case (PutCounted i)
  then show ?thesis using goes_ctl [OF ctl.put_unlock] by blast
next
  case ClearPutLocked
  then show ?thesis using want_take_goes [OF m] ctl.clear_lock_take by blast
next
  case ClearPutUnlock
  then show ?thesis using goes_ctl [OF ctl.clear_unlock_put] by blast
qed (use t goes_store(1) [OF m] take_crit_goes [OF m, of t] in auto)

lemma want_put_goes:
  assumes m: "tmatch obs h c a"
    and t: "putOwner c = None \<Longrightarrow> ctl (sint (kcount (tq c))) (unat (minKey (tq c))) Run c c'"
  shows "tgoes eng c"
proof (cases "putOwner c")
  case None
  then show ?thesis using goes_ctl [OF t] by blast
next
  case (Some u)
  have "mutex a" "pcs a = pcs c" "putOwner a = putOwner c" using m by (auto simp: tmatch_def transfer_same)
  with Some have "put_crit (pcs c u)" by (simp add: mutex_def)
  then show ?thesis by (rule put_crit_goes [OF m])
qed

lemma busy_goes:
  assumes m: "tmatch obs h c a" and t: "pcs c t \<noteq> Idle" "\<not> waiting (pcs c t)"
  shows "tgoes eng c"
proof (cases "take_crit (pcs c t) \<or> put_crit (pcs c t)")
  case True
  then show ?thesis using take_crit_goes [OF m] put_crit_goes [OF m] by blast
next
  case False
  show ?thesis
  proof (cases "pcs c t")
    case (PutWait v)
    then show ?thesis using want_put_goes [OF m] ctl.put_lock by blast
  next
    case Signal
    then show ?thesis using want_take_goes [OF m] ctl.sig_lock by blast
  next
    case (TakeWait md)
    then show ?thesis using want_take_goes [OF m] ctl.take_lock by blast
  next
    case (Woken md)
    then show ?thesis using want_take_goes [OF m] ctl.take_lock by blast
  next
    case (EraseTest j)
    then show ?thesis using goes_ctl [OF ctl.erase_other] goes_ctl [OF ctl.erase_same] by blast
  next
    case (EraseWait j)
    then show ?thesis using want_take_goes [OF m] ctl.erase_lock by blast
  next
    case ClearWait
    then show ?thesis using want_put_goes [OF m] ctl.clear_lock_put by blast
  qed (use t False in auto)
qed

end

text \<open>What the matching abstract state says about the column family and the counter.\<close>

lemma tmatch_contents:
  assumes m: "tmatch obs h c a"
  shows "cells (obs (rdb (tstore c))) h =
      queue_cells (minKey (tq c) + of_nat (removed c)) (map (\<lambda>k. the (tab a k)) [minK a + removed c ..< maxK a])"
    "cnt a + int (stored c) = int (maxK a - (minK a + removed c)) + int (removed c)"
proof -
  have d: "unat (maxKey (tq c)) = maxK a" "unat (minKey (tq c)) = minK a" "contents a" "pcs a = pcs c"
    using m by (auto simp: tmatch_def tdata_def transfer_same)
  have r: "removed a = removed c" "stored a = stored c" using d(4) by (simp_all add: removed_def stored_def)
  let ?n = "minKey (tq c) + of_nat (removed c)" and ?msgs = "map (\<lambda>k. the (tab a k)) [minK a + removed c ..< maxK a]"
  have le: "minK a + removed c \<le> maxK a" using contents_keys [OF d(3)] r by simp
  have "maxK a < 2 ^ 64" using unat_u64_less [of "maxKey (tq c)"] d(1) by simp
  then have n: "unat ?n = minK a + removed c" "unat ?n + length ?msgs < 2 ^ 64"
    using unat_plus_of_nat [of "minKey (tq c)" "removed c"] d(2) le by simp_all
  have "tab a k = tab (conc_init (unat ?n) ?msgs) k" for k
    using d(3) r le n(1) unfolding contents_def conc_init_def
    by (cases "minK a + removed c \<le> k \<and> k < maxK a") auto
  then have "tab a = tab (conc_init (unat ?n) ?msgs)" by blast
  moreover have "cells (obs (rdb (tstore c))) h = key_cells (tab a)"
    using m by (auto simp: tmatch_def tdata_def store_table_def)
  ultimately show "cells (obs (rdb (tstore c))) h = queue_cells ?n ?msgs" using queue_cells_key [OF n(2)] by simp
  show "cnt a + int (stored c) = int (maxK a - (minK a + removed c)) + int (removed c)"
    using d(3) r le by (simp add: contents_def)
qed

section \<open>A run on the in-memory engine\<close>

definition ex_threads :: "memdb tstate" where
  "ex_threads = \<lparr>putOwner = None, takeOwner = None, pcs = (\<lambda>_. Idle), read_keys = {}, erase_log = [],
     tq = ex_kueue 2, tstore = ex_qstore, tin = [[9], [8]], tout = []\<rparr>"

lemma ex_threads_start: "tstart mem_obs 6 ex_threads"
  by (simp add: tstart_def ex_threads_def ex_queue)

lemma ex_take:
  "\<exists>p len r. StoreImpl_singleRemoveIfPresent mem_engine (Some 0) (InKinds ''q'') (Some 0) (Some (putU64BE 0)) ex_qstore =
     Some (p, Some SC_Ok, len, r) \<and> array_bytes p r = Some [9]"
proof -
  have "map_option (\<lambda>(p, st, len, r). (st, array_bytes p r))
      (StoreImpl_singleRemoveIfPresent mem_engine (Some 0) (InKinds ''q'') (Some 0) (Some (putU64BE 0)) ex_qstore) =
    Some (Some SC_Ok, Some [9])"
    by code_simp
  then show ?thesis by (auto simp del: SC_Ok_def)
qed

lemma ex_threads_run:
  "\<exists>c. reach (tstart mem_obs 6) (trun mem_engine) {Call, Run} c \<and> roomy c \<and> pcs c 0 = TakeRemoved \<and> tout c = [Some [9]]"
proof -
  let ?R = "reach (tstart mem_obs 6) (trun mem_engine) {Call, Run}" and ?c = ex_threads
  let ?c1 = "goto 0 (TakeWait TakeForever) ?c"
  let ?c2 = "goto 0 (TakeTest TakeForever) (?c1\<lparr>takeOwner := Some 0\<rparr>)"
  let ?c3 = "goto 0 (TakeReady TakeForever) ?c2"
  obtain p len r where t: "StoreImpl_singleRemoveIfPresent mem_engine (Some 0) (InKinds ''q'') (Some 0)
      (Some (putU64BE 0)) ex_qstore = Some (p, Some SC_Ok, len, r)" "array_bytes p r = Some [9]"
    using ex_take by blast
  have q: "tq ?c = ex_kueue 2" "tstore ?c = ex_qstore" "pcs ?c = (\<lambda>_. Idle)" "takeOwner ?c = None" "tout ?c = []"
    by (simp_all add: ex_threads_def)
  have k: "kcount (ex_kueue 2) = 2" "minKey (ex_kueue 2) = 0" "maxKey (ex_kueue 2) = 2"
    "queueKind (ex_kueue 2) = Some (InKinds ''q'')" by (simp_all add: ex_kueue_def KueueImpl_init_def MIN_KEY_def)
  have room: "tq c = ex_kueue 2 \<Longrightarrow> roomy c" for c :: "memdb tstate" using k(3) by (simp add: roomy_def)
  have step: "?R c \<Longrightarrow> tq c = ex_kueue 2 \<Longrightarrow> tstep mem_engine l c c' \<Longrightarrow> l \<in> {Call, Run} \<Longrightarrow> ?R c'" for c l c'
    using room by (auto intro: reach.step simp: trun_def)
  have "?R ?c" using ex_threads_start by (rule reach.start)
  then have "?R ?c1" by (rule step [where l = Call]) (auto simp: q intro!: tstep.control ctl.take_call)
  then have "?R ?c2" by (rule step [where l = Run]) (auto simp: q intro!: tstep.control ctl.take_lock)
  then have "?R ?c3" by (rule step [where l = Run]) (auto simp: q k intro!: tstep.control ctl.take_go)
  then have "?R (goto 0 TakeRemoved (?c3\<lparr>tstore := r, tout := tout ?c3 @ [array_bytes p r]\<rparr>))"
  proof (rule step [where l = Run])
    show "tstep mem_engine Run ?c3 (goto 0 TakeRemoved (?c3\<lparr>tstore := r, tout := tout ?c3 @ [array_bytes p r]\<rparr>))"
      by (rule tstep.take_remove [where m = TakeForever and k = "InKinds ''q''" and x = 0 and st = SC_Ok])
        (use t(1) in \<open>simp_all add: q k del: SC_Ok_def\<close>)
  qed (simp_all add: q)
  then show ?thesis
    by (intro exI [where x = "goto 0 TakeRemoved (?c3\<lparr>tstore := r, tout := tout ?c3 @ [array_bytes p r]\<rparr>)"])
      (simp add: q room t(2))
qed

section \<open>Properties\<close>

text \<open>
  C17: the threads of the library refine the abstract queue.  For every engine with the documented
  behaviour, every state that any number of threads reaches by steps of the real operations on 64-bit words
  and the real store, from a queue with any messages, is matched by a reachable state of the abstract
  concurrent queue: same program points and mutexes, the column family is its table, keys and counter are
  its numbers, the arrays handed out are the messages it took.  The run must not use up \<open>2 ^ 63\<close> keys,
  and \<^verbatim>\<open>erase\<close> is called with keys from \<^verbatim>\<open>readNext\<close>.
\<close>

theorem threads_refine:
  assumes "rocksdb_spec eng obs pending" "reach (tstart obs h) (trun eng) L c" "Wild \<notin> L"
  shows "\<exists>a. reachable L a \<and> tmatch obs h c a"
  using rocksdb_spec.sim_reach [OF assms(1,2)] assms(3) by blast

theorem threads_refine_witness:
  "\<exists>c a. tout c = [Some [9]] \<and> reachable {Call, Run} a \<and> tmatch mem_obs 6 c a"
proof -
  obtain c where c: "reach (tstart mem_obs 6) (trun mem_engine) {Call, Run} c" "tout c = [Some [9]]"
    using ex_threads_run by blast
  have "Wild \<notin> {Call, Run}" by simp
  from threads_refine [OF mem.rocksdb_spec_axioms c(1) this] c(2) show ?thesis by blast
qed

text \<open>
  C38: what this means for the code.  In every such state at most one thread is in the critical section of
  each mutex; the messages accepted are those that left, in order, followed by the contents of the column
  family, and the arrays that \<^verbatim>\<open>take\<close> returned are those of them that were taken; the counter is the number
  of messages stored up to the one just being put or removed; no thread is stuck: as long as a thread is inside
  a call and not waiting for a message, the system has a step, so there is neither a deadlock of the two mutexes
  nor an undefined operation; and, where no store call of a taker fails and \<^verbatim>\<open>readNext\<close> is not used, a thread that
  waits while the counter is positive is not forgotten.
\<close>

theorem threads_safe:
  assumes "rocksdb_spec eng obs pending" "reach (tstart obs h) (trun eng) L c" "Wild \<notin> L"
  shows "(\<forall>t u. put_crit (pcs c t) \<and> put_crit (pcs c u) \<longrightarrow> t = u) \<and>
    (\<forall>t u. take_crit (pcs c t) \<and> take_crit (pcs c u) \<longrightarrow> t = u) \<and>
    (\<exists>out rest. tin c = map snd out @ rest \<and> tout c = map (Some \<circ> snd) (filter (\<lambda>x. fst x = Taken) out) \<and>
       cells (obs (rdb (tstore c))) h = queue_cells (minKey (tq c) + of_nat (removed c)) rest \<and>
       (roomy c \<longrightarrow> sint (kcount (tq c)) + int (stored c) = int (length rest) + int (removed c))) \<and>
    (\<forall>t. pcs c t \<noteq> Idle \<and> \<not> waiting (pcs c t) \<longrightarrow> tgoes eng c) \<and>
    (\<forall>u. L \<inter> {Fault, Peek} = {} \<and> roomy c \<and> waiting (pcs c u) \<and> 0 < sint (kcount (tq c)) \<longrightarrow>
       (\<exists>t. will_act (pcs c t)))"
proof -
  obtain a where a: "reachable L a" and m: "tmatch obs h c a"
    using rocksdb_spec.sim_reach [OF assms(1,2)] assms(3) by blast
  have d: "mutex a" "contents a" "pcs a = pcs c" "tin c = accepted_log a"
    "tout c = map (Some \<circ> snd) (filter (\<lambda>x. fst x = Taken) (out_log a))"
    using m by (auto simp: tmatch_def tdata_def transfer_same)
  have "removed a = removed c" using d(3) by (simp add: removed_def)
  with d(2) have log: "accepted_log a = map snd (out_log a) @ map (\<lambda>k. the (tab a k)) [minK a + removed c ..< maxK a]"
    by (simp add: contents_def)
  have act: "\<exists>t. will_act (pcs c t)" if "L \<inter> {Fault, Peek} = {}" "roomy c" "waiting (pcs c u)" "0 < sint (kcount (tq c))" for u
    using reachable_wakeup [OF a] that assms(3) d(3) tmatch_count [OF m] by (auto simp: no_lost_wakeup_def)
  show ?thesis
  proof (intro conjI)
    show "\<forall>t u. put_crit (pcs c t) \<and> put_crit (pcs c u) \<longrightarrow> t = u" "\<forall>t u. take_crit (pcs c t) \<and> take_crit (pcs c u) \<longrightarrow> t = u"
      using crit_unique [OF d(1)] d(3) by auto
    show "\<forall>t. pcs c t \<noteq> Idle \<and> \<not> waiting (pcs c t) \<longrightarrow> tgoes eng c" using rocksdb_spec.busy_goes [OF assms(1) m] by blast
  qed (use log d(4,5) act tmatch_contents [OF m] tmatch_count [OF m] in \<open>auto intro!: exI [where x = "out_log a"]\<close>)
qed

theorem threads_safe_witness:
  "\<exists>c. tout c = [Some [9]] \<and> pcs c 0 = TakeRemoved \<and> tgoes mem_engine c \<and>
     (\<exists>out rest. tin c = map snd out @ rest \<and> tout c = map (Some \<circ> snd) (filter (\<lambda>x. fst x = Taken) out) \<and>
        cells (mem_obs (rdb (tstore c))) 6 = queue_cells (minKey (tq c) + of_nat (removed c)) rest)"
proof -
  obtain c where c: "reach (tstart mem_obs 6) (trun mem_engine) {Call, Run} c" "tout c = [Some [9]]" "pcs c 0 = TakeRemoved"
    using ex_threads_run by blast
  have "Wild \<notin> {Call, Run}" by simp
  note s = threads_safe [OF mem.rocksdb_spec_axioms c(1) this]
  have "tgoes mem_engine c" using s c(3) by (elim conjE allE [where x = 0]) simp
  moreover obtain out rest where "tin c = map snd out @ rest" "tout c = map (Some \<circ> snd) (filter (\<lambda>x. fst x = Taken) out)"
    "cells (mem_obs (rdb (tstore c))) 6 = queue_cells (minKey (tq c) + of_nat (removed c)) rest" using s by blast
  ultimately show ?thesis using c(2,3) by (intro exI [where x = c] conjI exI [where x = out] exI [where x = rest])
qed

end
