(* ===== verification/Store_Wal.thy ===== *)
theory Store_Wal
  imports Store_Lifecycle
begin

text \<open>
  When the store synchronises the write-ahead log.  \<open>counting\<close> is any engine to which a count of the successful
  \<^verbatim>\<open>Commit\<close> calls and of the \<^verbatim>\<open>FlushWAL(true)\<close> calls is added; it behaves as the engine otherwise.  \<open>wal_step\<close> says
  what one operation does to these counts and to the two fields of the store that steer the synchronisation.
\<close>

section \<open>An engine that counts calls\<close>

record wal_calls =
  commits :: nat
  syncs :: nat

definition lift_state :: "('d \<Rightarrow> 'd) \<Rightarrow> 'd \<times> 'c \<Rightarrow> 'd \<times> 'c" where
  "lift_state f x = (f (fst x), snd x)"

definition lift_call :: "('d \<Rightarrow> 'r \<times> 'd) \<Rightarrow> 'd \<times> 'c \<Rightarrow> 'r \<times> 'd \<times> 'c" where
  "lift_call f x = (let (r, d) = f (fst x) in (r, d, snd x))"

definition lift_call2 :: "('d \<Rightarrow> 'r \<times> 'q \<times> 'd) \<Rightarrow> 'd \<times> 'c \<Rightarrow> 'r \<times> 'q \<times> 'd \<times> 'c" where
  "lift_call2 f x = (let (r, q, d) = f (fst x) in (r, q, d, snd x))"

definition lift_call3 :: "('d \<Rightarrow> 'r \<times> 'q \<times> 'p \<times> 'd) \<Rightarrow> 'd \<times> 'c \<Rightarrow> 'r \<times> 'q \<times> 'p \<times> 'd \<times> 'c" where
  "lift_call3 f x = (let (r, q, p, d) = f (fst x) in (r, q, p, d, snd x))"

definition count_commit :: "('d \<Rightarrow> Status \<times> 'd) \<Rightarrow> 'd \<times> wal_calls \<Rightarrow> Status \<times> 'd \<times> wal_calls" where
  "count_commit f x =
     (let (st, d) = f (fst x)
      in (st, d, if Status_ok st then (snd x)\<lparr>commits := commits (snd x) + 1\<rparr> else snd x))"

definition count_sync :: "bool \<Rightarrow> ('d \<Rightarrow> Status \<times> 'd) \<Rightarrow> 'd \<times> wal_calls \<Rightarrow> Status \<times> 'd \<times> wal_calls" where
  "count_sync sync f x =
     (let (st, d) = f (fst x) in (st, d, if sync then (snd x)\<lparr>syncs := syncs (snd x) + 1\<rparr> else snd x))"

definition counting :: "'d rocksdb \<Rightarrow> ('d \<times> wal_calls) rocksdb" where
  "counting eng = \<lparr>
     lib_consts = lib_consts eng,
     DBOptions_ctor = DBOptions_ctor eng,
     ColumnFamilyOptions_ctor = ColumnFamilyOptions_ctor eng,
     DBOptions_OptimizeForSmallDb = DBOptions_OptimizeForSmallDb eng,
     DBOptions_IncreaseParallelism = DBOptions_IncreaseParallelism eng,
     ColumnFamilyOptions_OptimizeForSmallDb = ColumnFamilyOptions_OptimizeForSmallDb eng,
     ColumnFamilyOptions_OptimizeLevelStyleCompaction = ColumnFamilyOptions_OptimizeLevelStyleCompaction eng,
     NewSstFileManager = (\<lambda>env. lift_call (NewSstFileManager eng env)),
     NewBlockBasedTableFactory = (\<lambda>bo. lift_call (NewBlockBasedTableFactory eng bo)),
     ListColumnFamilies = (\<lambda>dbo path. lift_call2 (ListColumnFamilies eng dbo path)),
     TransactionDB_Open = (\<lambda>dbo tdo path ns. lift_call3 (TransactionDB_Open eng dbo tdo path ns)),
     EnableFileDeletions = (\<lambda>p. lift_call (EnableFileDeletions eng p)),
     CreateColumnFamily = (\<lambda>p cfo n. lift_call2 (CreateColumnFamily eng p cfo n)),
     BeginTransaction = (\<lambda>p wo to old. lift_call (BeginTransaction eng p wo to old)),
     Tx_Put = (\<lambda>t h k v. lift_call (Tx_Put eng t h k v)),
     Tx_Delete = (\<lambda>t h k. lift_call (Tx_Delete eng t h k)),
     Tx_SingleDelete = (\<lambda>t h k. lift_call (Tx_SingleDelete eng t h k)),
     Tx_Commit = (\<lambda>t. count_commit (Tx_Commit eng t)),
     Tx_destroy = (\<lambda>t. lift_state (Tx_destroy eng t)),
     WriteBatch_DeleteRange = WriteBatch_DeleteRange eng,
     TransactionDB_Write = (\<lambda>p wo opt wb. lift_call (TransactionDB_Write eng p wo opt wb)),
     DB_Get_ts = (\<lambda>p ro h k ts. lift_call2 (DB_Get_ts eng p ro h k ts)),
     NewIterator = (\<lambda>p ro h. lift_call (NewIterator eng p ro h)),
     It_SeekToFirst = (\<lambda>i. lift_state (It_SeekToFirst eng i)),
     It_SeekToLast = (\<lambda>i. lift_state (It_SeekToLast eng i)),
     It_Valid = (\<lambda>i x. It_Valid eng i (fst x)),
     It_key = (\<lambda>i x. It_key eng i (fst x)),
     It_status = (\<lambda>i x. It_status eng i (fst x)),
     It_destroy = (\<lambda>i. lift_state (It_destroy eng i)),
     FlushWAL = (\<lambda>p sync. count_sync sync (FlushWAL eng p sync)),
     DB_Flush_cf = (\<lambda>p fo h. lift_call (DB_Flush_cf eng p fo h)),
     DefaultColumnFamily = (\<lambda>p x. DefaultColumnFamily eng p (fst x)),
     CompactRange = (\<lambda>p co h. lift_call (CompactRange eng p co h)),
     Handle_destroy = (\<lambda>h. lift_state (Handle_destroy eng h)),
     DB_destroy = (\<lambda>p. lift_state (DB_destroy eng p)),
     GetRocksVersionAsString = GetRocksVersionAsString eng,
     GetRocksBuildProperties = GetRocksBuildProperties eng\<rparr>"

section \<open>The effect of an operation on the log\<close>

text \<open>
  \<open>b\<close> tells whether the operation committed a transaction.  If it did, it is counted, and the log is synchronised if
  985 milliseconds have passed since the last time or it is the 16384th one since then.
\<close>

definition wal_step :: "bool \<Rightarrow> ('d \<times> wal_calls) StoreImpl \<Rightarrow> ('d \<times> wal_calls) StoreImpl \<Rightarrow> bool" where
  "wal_step b s s' \<longleftrightarrow>
     commits (snd (rdb s')) = commits (snd (rdb s)) + (if b then 1 else 0) \<and>
     (if b \<and> (985 \<le> to_millis (clock s (reads s) - lastSync s) \<or> unat (totalSinceLastSync s) + 1 = 16384)
      then syncs (snd (rdb s')) = syncs (snd (rdb s)) + 1 \<and> totalSinceLastSync s' = 0 \<and>
           lastSync s' = clock s (reads s + 1)
      else syncs (snd (rdb s')) = syncs (snd (rdb s)) \<and>
           unat (totalSinceLastSync s') = unat (totalSinceLastSync s) + (if b then 1 else 0) \<and>
           lastSync s' = lastSync s)"

definition wal_same :: "('d \<times> wal_calls) StoreImpl \<Rightarrow> ('d \<times> wal_calls) StoreImpl \<Rightarrow> bool" where
  "wal_same s s' \<longleftrightarrow> snd (rdb s') = snd (rdb s) \<and> totalSinceLastSync s' = totalSinceLastSync s \<and>
     lastSync s' = lastSync s \<and> clock s' = clock s \<and> reads s' = reads s \<and> open_flag s' = open_flag s \<and>
     txnDb s' = txnDb s \<and> kinds s' = kinds s"

section \<open>Lemmas\<close>

lemma lift_simps [simp]:
  "snd (lift_state u x) = snd x"
  "lift_call f x = (r, y) \<Longrightarrow> snd y = snd x"
  "lift_call2 g x = (r, q, y) \<Longrightarrow> snd y = snd x"
  "snd (snd (lift_call f x)) = snd x"
  by (auto simp: lift_state_def lift_call_def lift_call2_def split: prod.splits)

lemma wal_same_refl [simp]: "wal_same s s"
  by (simp add: wal_same_def)

lemma wal_step_same: "wal_same s s' \<Longrightarrow> wal_step False s s'"
  by (simp add: wal_same_def wal_step_def)

lemma wal_step_shift: "wal_same s s1 \<Longrightarrow> wal_step b s1 s2 \<Longrightarrow> wal_same s2 s' \<Longrightarrow> wal_step b s s'"
  by (simp add: wal_same_def wal_step_def)

lemma live_kind_wal_same: "wal_same s s' \<Longrightarrow> live_kind s k h \<Longrightarrow> live_kind s' k h"
  by (auto simp: wal_same_def live_kind_def deref_kind_def)

lemma wal_same_lock [simp]:
  "wal_same s (s'\<lparr>monitor := b\<rparr>) = wal_same s s'" "wal_same (s\<lparr>monitor := b\<rparr>) s' = wal_same s s'"
  "wal_same s (unlock s') = wal_same s s'"
  by (simp_all add: wal_same_def unlock_def)

lemma next_count:
  assumes "unat (n :: u64) < 16384"
  shows "unat (n + 1) = unat n + 1" "16384 dvd unat (n + 1) \<longleftrightarrow> unat n + 1 = 16384"
proof -
  show s: "unat (n + 1) = unat n + 1" using assms by (simp add: unat_word_ariths)
  have "16384 dvd m \<longleftrightarrow> m = 16384" if "0 < m" "m \<le> 16384" for m :: nat
    using that by (auto dest: dvd_imp_le)
  from this [of "unat n + 1"] show "16384 dvd unat (n + 1) \<longleftrightarrow> unat n + 1 = 16384" using assms s by simp
qed

lemma occasionalWalSync_step:
  assumes s: "open_flag s" "txnDb s = Some db" "unat (totalSinceLastSync s) < 16384" and s1: "wal_same s s1"
    and d: "snd d = (snd (rdb s))\<lparr>commits := commits (snd (rdb s)) + 1\<rparr>"
  shows "\<exists>s'. StoreImpl_occasionalWalSync (counting eng) (s1\<lparr>rdb := d\<rparr>) = Some s' \<and> wal_step True s s'"
proof -
  have 1: "open_flag (s1\<lparr>rdb := d\<rparr>)" "txnDb (s1\<lparr>rdb := d\<rparr>) = Some db" using s s1 by (simp_all add: wal_same_def)
  have sync: "snd (snd (FlushWAL (counting eng) db True x)) = (snd x)\<lparr>syncs := syncs (snd x) + 1\<rparr>" for x
    by (simp add: counting_def count_sync_def Let_def split: prod.splits)
  show ?thesis unfolding wal_sync_policy [OF 1]
    using s1 d next_count [OF s(3)] by (simp add: wal_step_def wal_same_def sync)
qed

lemma reusableTx_same:
  assumes "txnDb s = Some db"
  shows "\<exists>old s1. StoreImpl_reusableTx (counting eng) s = Some (old, s1) \<and> wal_same s s1"
  using assms
  by (auto simp: StoreImpl_reusableTx_def wal_same_def counting_def split: prod.splits)

lemma deleteIfNewTx_same: "wal_same s (StoreImpl_deleteIfNewTx (counting eng) tx s)"
  by (auto simp: StoreImpl_deleteIfNewTx_def wal_same_def counting_def split: option.splits)

text \<open>One transaction: it is committed exactly if the code is 0, and then counted.\<close>

lemma in_tx_wal:
  assumes s: "open_flag s" "txnDb s = Some db" "unat (totalSinceLastSync s) < 16384" and k: "live_kind s k h"
    and call: "\<And>t d. snd (snd (call t h d)) = snd d"
  shows "\<exists>c s'. StoreImpl_in_tx (counting eng) call (assign 0 status) k s = Some (assign c status, s') \<and>
    wal_step (c = 0) s s'"
proof -
  let ?eng = "counting eng"
  obtain ki where ki: "deref_kind s k = Some (Impl ki)" "khandle ki = Some h"
    using k by (auto simp: live_kind_def)
  obtain old s1 where s1: "StoreImpl_reusableTx ?eng s = Some (old, s1)" "wal_same s s1"
    using reusableTx_same [OF s(2)] by blast
  obtain tx d2 where tx: "BeginTransaction ?eng db (writeOptions s1) (txnOpts s1) old (rdb s1) = (tx, d2)" by (meson surj_pair)
  then have d2: "snd d2 = snd (rdb s)" using s1(2) by (simp add: counting_def wal_same_def)
  note simps = StoreImpl_in_tx_def ki toKindImpl_def KindImpl_handle_def s(2) s1(1) tx assign_twice [simplified]
  show ?thesis
  proof (cases tx)
    case None
    let ?s' = "StoreImpl_deleteIfNewTx ?eng tx (s1\<lparr>rdb := d2\<rparr>)"
    have "wal_same (s1\<lparr>rdb := d2\<rparr>) ?s'" by (rule deleteIfNewTx_same)
    then have "wal_step False s ?s'" using s1(2) d2 by (intro wal_step_same) (simp add: wal_same_def)
    moreover have "SC_NoTransaction \<noteq> 0" by simp
    ultimately show ?thesis using None
      by (intro exI [where x = SC_NoTransaction] exI [where x = ?s']) (simp add: simps)
  next
    case (Some t)
    obtain st d3 where c: "call t h d2 = (st, d3)" by (meson surj_pair)
    then have d3: "snd d3 = snd (rdb s)" using call [of t d2] d2 by simp
    obtain st2 d4 where cm: "Tx_Commit ?eng t d3 = (st2, d4)" by (meson surj_pair)
    then have d4: "snd d4 = (if Status_ok st2 then (snd (rdb s))\<lparr>commits := commits (snd (rdb s)) + 1\<rparr> else snd (rdb s))"
      using d3 by (auto simp: counting_def count_commit_def Let_def split: prod.splits)
    show ?thesis
    proof (cases "Status_ok st \<and> Status_ok st2")
      case True
      with d4 have "snd d4 = (snd (rdb s))\<lparr>commits := commits (snd (rdb s)) + 1\<rparr>" by simp
      from occasionalWalSync_step [OF s s1(2) this] obtain s2
        where s2: "StoreImpl_occasionalWalSync ?eng (s1\<lparr>rdb := d4\<rparr>) = Some s2" "wal_step True s s2" by blast
      have "wal_step True s (StoreImpl_deleteIfNewTx ?eng tx s2)"
        by (rule wal_step_shift [OF wal_same_refl s2(2) deleteIfNewTx_same])
      then show ?thesis using True Some c cm s2(1)
        by (intro exI [where x = 0] exI [where x = "StoreImpl_deleteIfNewTx ?eng tx s2"]) (simp add: simps)
    next
      case False
      let ?st = "if Status_ok st then st2 else st" and ?d = "if Status_ok st then d4 else d3"
      let ?s' = "StoreImpl_deleteIfNewTx ?eng tx (s1\<lparr>rdb := ?d\<rparr>)"
      have "wal_same (s1\<lparr>rdb := ?d\<rparr>) ?s'" by (rule deleteIfNewTx_same)
      then have "wal_step False s ?s'"
        using s1(2) d3 d4 False by (intro wal_step_same) (auto simp: wal_same_def split: if_splits)
      moreover have "Status_code ?st \<noteq> 0" using False by auto
      ultimately show ?thesis using Some c cm False
        by (intro exI [where x = "Status_code ?st"] exI [where x = ?s']) (auto simp: simps)
    qed
  qed
qed

text \<open>The shape of \<^verbatim>\<open>put\<close>, \<^verbatim>\<open>remove\<close> and \<^verbatim>\<open>singleRemove\<close>: lock, check, one transaction, unlock.\<close>

lemma locked_wal:
  assumes s: "store_wf s" "open_flag s" "live_kind s k h"
    and call: "\<And>t d. snd (snd (call t h d)) = snd d"
  shows "\<exists>c s'. StoreImpl_in_tx (counting eng) call (assign 0 status) k (s\<lparr>monitor := True\<rparr>) = Some (assign c status, s') \<and>
    wal_step (c = 0) s (unlock s')"
proof -
  obtain db where db: "txnDb s = Some db" "unat (totalSinceLastSync s) < 16384" using s(1,2) by (auto simp: store_wf_def)
  obtain c s' where t: "StoreImpl_in_tx (counting eng) call (assign 0 status) k (s\<lparr>monitor := True\<rparr>) = Some (assign c status, s')"
    "wal_step (c = 0) (s\<lparr>monitor := True\<rparr>) s'"
    using in_tx_wal [of "s\<lparr>monitor := True\<rparr>" db k h call eng status] s db call by auto
  then have "wal_step (c = 0) s (unlock s')" by (simp add: wal_step_def unlock_def)
  with t show ?thesis by blast
qed

lemma live_calls:
  assumes "store_wf s" "open_flag s" "live_kind s k h"
  shows "synchronize s = Some (s\<lparr>monitor := True\<rparr>)" "bad_args False k s = Some False"
    "StoreImpl_validateOpen status (s\<lparr>monitor := b\<rparr>) = (True, assign 0 status, s\<lparr>monitor := b\<rparr>)"
  using assms
  by (auto simp: store_wf_def synchronize_def live_kind_def bad_args_def KindImpl_isValid_def validateOpen_open)

lemma put_wal:
  assumes s: "store_wf s" "open_flag s" "live_kind s k h"
  shows "\<exists>c s'. StoreImpl_put (counting eng) status k (Some key) val s = Some (assign c status, s') \<and> wal_step (c = 0) s s'"
    "\<exists>c s'. StoreImpl_remove (counting eng) status k (Some key) s = Some (assign c status, s') \<and> wal_step (c = 0) s s'"
    "\<exists>c s'. StoreImpl_singleRemove (counting eng) status k (Some key) s = Some (assign c status, s') \<and> wal_step (c = 0) s s'"
proof -
  note ok = live_calls [OF s]
  have keep: "snd (snd (Tx_Put (counting eng) t h k v d)) = snd d" "snd (snd (Tx_Delete (counting eng) t h k d)) = snd d"
    "snd (snd (Tx_SingleDelete (counting eng) t h k d)) = snd d" for t h k v d by (simp_all add: counting_def)
  show "\<exists>c s'. StoreImpl_put (counting eng) status k (Some key) val s = Some (assign c status, s') \<and> wal_step (c = 0) s s'"
    using locked_wal [OF s, of "\<lambda>t h d. Tx_Put (counting eng) t h key (slice_of val) d" eng status] keep ok
    by (auto simp: StoreImpl_put_def StoreImpl_put'_def)
  show "\<exists>c s'. StoreImpl_remove (counting eng) status k (Some key) s = Some (assign c status, s') \<and> wal_step (c = 0) s s'"
    using locked_wal [OF s, of "\<lambda>t h d. Tx_Delete (counting eng) t h key d" eng status] keep ok
    by (auto simp: StoreImpl_remove_def StoreImpl_remove'_def)
  show "\<exists>c s'. StoreImpl_singleRemove (counting eng) status k (Some key) s = Some (assign c status, s') \<and> wal_step (c = 0) s s'"
    using locked_wal [OF s, of "\<lambda>t h d. Tx_SingleDelete (counting eng) t h key d" eng status] keep ok
    by (auto simp: StoreImpl_singleRemove_def StoreImpl_singleRemove'_def)
qed

lemma get'_wal:
  assumes s: "txnDb s = Some db" "live_kind s k h"
  shows "\<exists>r c len' s1. StoreImpl_get' (counting eng) (assign 0 status) k len key s = Some (r, assign c status, len', s1) \<and>
    wal_same s s1"
proof -
  obtain ki where ki: "deref_kind s k = Some (Impl ki)" "khandle ki = Some h"
    using s(2) by (auto simp: live_kind_def)
  obtain st v d where g: "DB_Get (counting eng) db (readOptions s) h key (rdb s) = (st, v, d)"
    by (cases "DB_Get (counting eng) db (readOptions s) h key (rdb s)") blast
  then have d: "snd d = snd (rdb s)" by (simp add: DB_Get_def counting_def)
  have "wal_same s (s\<lparr>rdb := d\<rparr>)" "wal_same s (snd (new_copy v (s\<lparr>rdb := d\<rparr>)))"
    using d by (simp_all add: wal_same_def new_copy_def)
  then show ?thesis using ki s(1) g
    by (cases "Status_ok st"; cases "v = []")
       (auto simp: StoreImpl_get'_def toKindImpl_def KindImpl_handle_def assign_twice [simplified] split: prod.splits)
qed

lemma after_get:
  assumes s: "store_wf s" "open_flag s" "live_kind s k h" and s1: "wal_same (s\<lparr>monitor := True\<rparr>) s1"
    and call: "\<And>t d. snd (snd (call t h d)) = snd d"
  shows "\<exists>c s'. StoreImpl_in_tx (counting eng) call (Some 0) k s1 = Some (Some c, s') \<and> wal_step (c = 0) s (unlock s')"
proof -
  obtain db where db: "txnDb s = Some db" "unat (totalSinceLastSync s) < 16384" using s(1,2) by (auto simp: store_wf_def)
  then have "open_flag s1" "txnDb s1 = Some db" "unat (totalSinceLastSync s1) < 16384"
    using s s1 by (simp_all add: wal_same_def)
  moreover have "wal_same s s1" using s1 by simp
  then have "live_kind s1 k h" using s(3) by (rule live_kind_wal_same)
  ultimately obtain c s' where "StoreImpl_in_tx (counting eng) call (Some 0) k s1 = Some (Some c, s')" "wal_step (c = 0) s1 s'"
    using in_tx_wal [of s1 db k h call eng "Some 0"] call by auto
  moreover from this have "wal_step (c = 0) s (unlock s')"
    using s1 by (intro wal_step_shift [of s s1 _ s']) simp_all
  ultimately show ?thesis by blast
qed

text \<open>The operations that read first: a failed read is not counted.\<close>

lemma if_present_wal:
  assumes s: "store_wf s" "open_flag s" "live_kind s k h"
  shows "\<exists>c r len' s'. StoreImpl_updateIfPresent (counting eng) status k (Some len) (Some key) val s =
      Some (r, assign c status, len', s') \<and> wal_step (c = 0) s s'"
    "\<exists>c r len' s'. StoreImpl_removeIfPresent (counting eng) status k (Some len) (Some key) s =
      Some (r, assign c status, len', s') \<and> wal_step (c = 0) s s'"
    "\<exists>c r len' s'. StoreImpl_singleRemoveIfPresent (counting eng) status k (Some len) (Some key) s =
      Some (r, assign c status, len', s') \<and> wal_step (c = 0) s s'"
proof -
  note ok = live_calls [OF s] and twice = assign_twice [simplified]
  obtain db where db: "txnDb (s\<lparr>monitor := True\<rparr>) = Some db" using s(1,2) by (auto simp: store_wf_def)
  have lk: "live_kind (s\<lparr>monitor := True\<rparr>) k h" using s(3) by (auto simp: live_kind_def deref_kind_def)
  obtain r g len' s1 where g: "StoreImpl_get' (counting eng) (Some 0) k (Some 0) key (s\<lparr>monitor := True\<rparr>) = Some (r, Some g, len', s1)"
    and s1: "wal_same (s\<lparr>monitor := True\<rparr>) s1"
    using get'_wal [OF db lk, of eng "Some 0" "Some 0" key] by auto
  have same: "wal_step False s (unlock s1)" using s1 by (intro wal_step_same) simp
  have keep: "snd (snd (Tx_Put (counting eng) t h k v d)) = snd d" "snd (snd (Tx_Delete (counting eng) t h k d)) = snd d"
    "snd (snd (Tx_SingleDelete (counting eng) t h k d)) = snd d" for t h k v d by (simp_all add: counting_def)
  note call = after_get [OF s s1, where eng = eng]
  show "\<exists>c r len' s'. StoreImpl_updateIfPresent (counting eng) status k (Some len) (Some key) val s =
      Some (r, assign c status, len', s') \<and> wal_step (c = 0) s s'"
    using call [of "\<lambda>t h d. Tx_Put (counting eng) t h key (slice_of val) d"] keep ok g same
    by (cases "g = 0") (auto simp: StoreImpl_updateIfPresent_def StoreImpl_put'_def twice)
  show "\<exists>c r len' s'. StoreImpl_removeIfPresent (counting eng) status k (Some len) (Some key) s =
      Some (r, assign c status, len', s') \<and> wal_step (c = 0) s s'"
    using call [of "\<lambda>t h d. Tx_Delete (counting eng) t h key d"] keep ok g same
    by (cases "g = 0") (auto simp: StoreImpl_removeIfPresent_def StoreImpl_remove'_def twice)
  show "\<exists>c r len' s'. StoreImpl_singleRemoveIfPresent (counting eng) status k (Some len) (Some key) s =
      Some (r, assign c status, len', s') \<and> wal_step (c = 0) s s'"
    using call [of "\<lambda>t h d. Tx_SingleDelete (counting eng) t h key d"] keep ok g same
    by (cases "g = 0") (auto simp: StoreImpl_singleRemoveIfPresent_def StoreImpl_singleRemove'_def twice)
qed

lemma absent_wal:
  assumes s: "store_wf s" "open_flag s" "live_kind s k h"
  shows "\<exists>c s'. StoreImpl_putIfAbsent (counting eng) status k (Some key) val s = Some (assign c status, s') \<and> wal_step (c = 0) s s'"
    "\<exists>c r len' s'. StoreImpl_get (counting eng) status k (Some len) (Some key) s = Some (r, assign c status, len', s') \<and>
      wal_step False s s'"
proof -
  note ok = live_calls [OF s] and twice = assign_twice [simplified]
  obtain db where db: "txnDb (s\<lparr>monitor := True\<rparr>) = Some db" using s(1,2) by (auto simp: store_wf_def)
  have lk: "live_kind (s\<lparr>monitor := True\<rparr>) k h" using s(3) by (auto simp: live_kind_def deref_kind_def)
  obtain r g len' s1 where g: "StoreImpl_get' (counting eng) (Some 0) k (Some 0) key (s\<lparr>monitor := True\<rparr>) = Some (r, Some g, len', s1)"
    and s1: "wal_same (s\<lparr>monitor := True\<rparr>) s1"
    using get'_wal [OF db lk, of eng "Some 0" "Some 0" key] by auto
  have same: "wal_step False s (unlock s1)" using s1 by (intro wal_step_same) simp
  have keep: "snd (snd (Tx_Put (counting eng) t h k v d)) = snd d" for t h k v d by (simp add: counting_def)
  show "\<exists>c s'. StoreImpl_putIfAbsent (counting eng) status k (Some key) val s = Some (assign c status, s') \<and> wal_step (c = 0) s s'"
    using after_get [OF s s1, of "\<lambda>t h d. Tx_Put (counting eng) t h key (slice_of val) d" eng] keep ok g same
    by (cases "g = 0"; cases "g = SC_NotFound") (auto simp: StoreImpl_putIfAbsent_def StoreImpl_put'_def twice)
  obtain r2 c2 len2 s2 where "StoreImpl_get' (counting eng) (assign 0 status) k (Some 0) key (s\<lparr>monitor := True\<rparr>) =
      Some (r2, assign c2 status, len2, s2)" "wal_same (s\<lparr>monitor := True\<rparr>) s2"
    using get'_wal [OF db lk, of eng status "Some 0" key] by auto
  moreover from this have "wal_step False s (unlock s2)" by (intro wal_step_same) simp
  ultimately show "\<exists>c r len' s'. StoreImpl_get (counting eng) status k (Some len) (Some key) s = Some (r, assign c status, len', s') \<and>
      wal_step False s s'"
    using ok by (auto simp: StoreImpl_get_def)
qed

lemma range_wal:
  assumes s: "store_wf s" "open_flag s" "live_kind s k h"
  shows "\<exists>c s'. StoreImpl_removeRange (counting eng) status k (Some a) (Some b) s = Some (assign c status, s') \<and> wal_step False s s'"
proof -
  note ok = live_calls [OF s] and twice = assign_twice [simplified]
  obtain db where db: "txnDb s = Some db" using s(1,2) by (auto simp: store_wf_def)
  obtain ki where ki: "deref_kind (s\<lparr>monitor := True\<rparr>) k = Some (Impl ki)" "khandle ki = Some h"
    using s(3) by (auto simp: live_kind_def deref_kind_def)
  obtain st wb where w: "WriteBatch_DeleteRange (counting eng) h a b [] = (st, wb)" by fastforce
  obtain st2 d where t: "TransactionDB_Write (counting eng) db (writeOptions s)
      (TransactionDBWriteOptimizations_default\<lparr>skip_concurrency_control := True\<rparr>) wb (rdb s) = (st2, d)" by (meson surj_pair)
  then have "snd d = snd (rdb s)" by (simp add: counting_def)
  then have "wal_step False s (unlock (s\<lparr>monitor := True, rdb := d\<rparr>))" "wal_step False s (unlock (s\<lparr>monitor := True\<rparr>))"
    by (simp_all add: wal_step_def unlock_def)
  then show ?thesis using ok db ki w t
    by (cases "Status_ok st"; cases "Status_ok st2")
       (auto simp: StoreImpl_removeRange_def toKindImpl_def KindImpl_handle_def twice)
qed

section \<open>A store on the counting engine\<close>

text \<open>The store of the examples, one transaction before the 16384th.\<close>

definition ex_wal_store :: "(memdb \<times> wal_calls) StoreImpl" where
  "ex_wal_store = \<lparr>rdb = (rdb ex_store, \<lparr>commits = 0, syncs = 0\<rparr>),
     heap = (\<lambda>_. None), next_addr = 0, clock = (\<lambda>_. 0), reads = 0, cpus = 4, open_flag = True,
     monitor = False, options = options ex_store, txnDbOptions = txnDbOptions ex_store,
     txnOpts = txnOpts ex_store, columnFamilyOptions = columnFamilyOptions ex_store,
     writeOptions = WriteOptions_default, readOptions = ReadOptions_default,
     flushOptions = FlushOptions_default, flushOptionsNoWait = FlushOptions_default\<lparr>fo_wait := False\<rparr>,
     txnDb = Some 0, reusable_tx = None, sstFileManager = None, kinds = kinds ex_store,
     path = ''db'', version = '''', code = 0, totalSinceLastSync = 16383, lastSync = 0\<rparr>"

lemma ex_wal_store_ok: "store_wf ex_wal_store" "open_flag ex_wal_store" "live_kind ex_wal_store (InKinds ''default'') 5"
  by (simp_all add: ex_wal_store_def ex_store_def store_wf_def heap_fresh_def live_kind_def deref_kind_def)

section \<open>Property\<close>

text \<open>
  C21: the WAL policy of the store, for every engine.  Each operation that runs a transaction (\<^verbatim>\<open>put\<close>, \<^verbatim>\<open>remove\<close>,
  \<^verbatim>\<open>singleRemove\<close>, \<^verbatim>\<open>putIfAbsent\<close> and the three operations on a present key) commits it exactly if it reports 0.  It is
  counted then, and \<^verbatim>\<open>FlushWAL(true)\<close> is called exactly when at least 985 milliseconds have passed since the last
  synchronisation or when this is the 16384th transaction since; the call resets the counter and the time.  An
  operation that does not commit leaves counter and time alone and does not synchronise.  Nor does \<^verbatim>\<open>get\<close>, and nor
  does \<^verbatim>\<open>removeRange\<close>, which writes without a transaction: range removals are not counted, so any number of
  them can stand in the log unsynchronised until the next transaction.
\<close>

theorem store_wal_sync_policy:
  fixes s :: "('d \<times> wal_calls) StoreImpl"
  assumes "store_wf s" "open_flag s" "live_kind s k h"
  shows "(\<exists>c s'. StoreImpl_put (counting eng) status k (Some key) val s = Some (assign c status, s') \<and> wal_step (c = 0) s s') \<and>
    (\<exists>c s'. StoreImpl_remove (counting eng) status k (Some key) s = Some (assign c status, s') \<and> wal_step (c = 0) s s') \<and>
    (\<exists>c s'. StoreImpl_singleRemove (counting eng) status k (Some key) s = Some (assign c status, s') \<and> wal_step (c = 0) s s') \<and>
    (\<exists>c s'. StoreImpl_putIfAbsent (counting eng) status k (Some key) val s = Some (assign c status, s') \<and> wal_step (c = 0) s s') \<and>
    (\<exists>c r len' s'. StoreImpl_updateIfPresent (counting eng) status k (Some len) (Some key) val s =
      Some (r, assign c status, len', s') \<and> wal_step (c = 0) s s') \<and>
    (\<exists>c r len' s'. StoreImpl_removeIfPresent (counting eng) status k (Some len) (Some key) s =
      Some (r, assign c status, len', s') \<and> wal_step (c = 0) s s') \<and>
    (\<exists>c r len' s'. StoreImpl_singleRemoveIfPresent (counting eng) status k (Some len) (Some key) s =
      Some (r, assign c status, len', s') \<and> wal_step (c = 0) s s') \<and>
    (\<exists>c r len' s'. StoreImpl_get (counting eng) status k (Some len) (Some key) s =
      Some (r, assign c status, len', s') \<and> wal_step False s s') \<and>
    (\<exists>c s'. StoreImpl_removeRange (counting eng) status k (Some a) (Some b) s = Some (assign c status, s') \<and> wal_step False s s')"
  by (intro conjI put_wal [OF assms] if_present_wal [OF assms] absent_wal [OF assms] range_wal [OF assms])

theorem store_wal_sync_policy_witness:
  "\<exists>c s'. StoreImpl_put (counting mem_engine) (Some 7) (InKinds ''default'') (Some [1]) (Some [2]) ex_wal_store = Some (Some c, s') \<and>
    (c = 0 \<longrightarrow> commits (snd (rdb s')) = 1 \<and> syncs (snd (rdb s')) = 1 \<and> totalSinceLastSync s' = 0)"
  using store_wal_sync_policy [OF ex_wal_store_ok, of mem_engine "Some 7" "[1]" "Some [2]", THEN conjunct1]
  by (auto simp: wal_step_def ex_wal_store_def)

end
