(* ===== verification/Simple_Logger.thy ===== *)
theory Simple_Logger
  imports Kind_Impl
begin

text \<open>
  The logger (\<^verbatim>\<open>include/impl/SimpleLogger.h\<close>, \<^verbatim>\<open>src/impl/SimpleLogger.cpp\<close>) and the name of its file
  (\<^verbatim>\<open>src/impl/utils.cpp\<close>).  A \<open>Logger\<close> object collects one line and writes it when it is destroyed;
  the maximal level and the stream are static.  The calls of the operating system (module path, date
  and time, thread id, opening and writing a file) are the parameter \<open>os\<close>.  \<open>logged\<close> is what the
  macro \<^verbatim>\<open>__LOG_<level> __LARG(a) __LARG(b) ...\<close> runs.
\<close>

section \<open>Definitions\<close>

datatype LogLevel =
    LOG_FATAL
  | LOG_ERROR
  | LOG_WARNING
  | LOG_INFO
  | LOG_DEBUG
  | LOG_FINE
  | LOG_FINER

fun LogLevel_value :: "LogLevel \<Rightarrow> int" where
  "LogLevel_value LOG_FATAL = 0"
| "LogLevel_value LOG_ERROR = 1"
| "LogLevel_value LOG_WARNING = 2"
| "LogLevel_value LOG_INFO = 3"
| "LogLevel_value LOG_DEBUG = 4"
| "LogLevel_value LOG_FINE = 5"
| "LogLevel_value LOG_FINER = 6"

text \<open>The levels are compared as the numbers they stand for.\<close>

lemma LogLevel_value_inject [simp]: "LogLevel_value a = LogLevel_value b \<longleftrightarrow> a = b"
  by (cases a; cases b) simp_all

instantiation LogLevel :: linorder
begin

definition less_eq_LogLevel :: "LogLevel \<Rightarrow> LogLevel \<Rightarrow> bool" where
  "less_eq_LogLevel a b \<longleftrightarrow> LogLevel_value a \<le> LogLevel_value b"

definition less_LogLevel :: "LogLevel \<Rightarrow> LogLevel \<Rightarrow> bool" where
  "less_LogLevel a b \<longleftrightarrow> LogLevel_value a < LogLevel_value b"

instance
proof
  fix a b :: LogLevel
  show "a = b" if "a \<le> b" "b \<le> a" using that by (simp add: less_eq_LogLevel_def order_antisym flip: LogLevel_value_inject)
qed (auto simp: less_eq_LogLevel_def less_LogLevel_def)

end

text \<open>
  \<open>GetDateFormatA\<close> and \<open>GetTimeFormatA\<close> give \<open>None\<close> when they fail (return 0); \<open>fsopen\<close> maps a path
  to a stream or to null; \<open>fprintf_ok\<close> says whether writing succeeds.
\<close>

record os =
  module_file_name :: "string option"
  date_dashed :: "string option"
  date_plain :: "string option"
  time_format_ok :: bool
  local_time :: "nat \<times> nat \<times> nat \<times> nat"
  thread_id :: nat
  fsopen :: "string \<Rightarrow> nat option"
  fprintf_ok :: "nat \<Rightarrow> bool"

definition strrchr_pos :: "char \<Rightarrow> string \<Rightarrow> nat option" where
  "strrchr_pos c s = (if c \<in> set s then Some (length s - 1 - length (takeWhile (\<lambda>x. x \<noteq> c) (rev s))) else None)"

definition backslash :: char where
  "backslash = CHR 0x5C"

definition ownPath :: "os \<Rightarrow> string" where
  "ownPath e =
     (case module_file_name e of
        None \<Rightarrow> ''''
      | Some buf \<Rightarrow>
          (case strrchr_pos backslash (c_str buf) of
             None \<Rightarrow> ''''
           | Some pos \<Rightarrow> take pos (c_str buf) @ [backslash]))"

definition today :: "os \<Rightarrow> string" where
  "today e = (case date_dashed e of None \<Rightarrow> ''Error in today'' | Some d \<Rightarrow> d)"

definition openLogfile :: "os \<Rightarrow> nat option" where
  "openLogfile e = fsopen e (ownPath e @ ''librocks'' @ today e @ ''.log'')"

text \<open>The static state: the stream, the level, and the text written to each stream.\<close>

record logstate =
  stream :: "nat option"
  maxLogLevel :: LogLevel
  files :: "nat \<Rightarrow> string"




definition Logger_setStream :: "nat option \<Rightarrow> logstate \<Rightarrow> logstate" where
  "Logger_setStream pFile g = (if pFile \<noteq> None then g\<lparr>stream := pFile\<rparr> else g)"

definition Logger_setMaxLogLevel :: "LogLevel \<Rightarrow> logstate \<Rightarrow> logstate" where
  "Logger_setMaxLogLevel level g = g\<lparr>maxLogLevel := level\<rparr>"

definition Logger_isInitialized :: "logstate \<Rightarrow> bool" where
  "Logger_isInitialized g \<longleftrightarrow> stream g \<noteq> None"

definition Logger_initialize :: "os \<Rightarrow> logstate \<Rightarrow> logstate" where
  "Logger_initialize e g = (if \<not> Logger_isInitialized g then Logger_setStream (openLogfile e) g else g)"


fun pad_decimal :: "nat \<Rightarrow> nat \<Rightarrow> string" where
  "pad_decimal 0 n = ''''"
| "pad_decimal (Suc w) n = pad_decimal w (n div 10) @ [char_of (48 + n mod 10)]"

fun udecimal :: "nat \<Rightarrow> string" where
  "udecimal n = (if n < 10 then [char_of (48 + n)] else udecimal (n div 10) @ [char_of (48 + n mod 10)])"

declare udecimal.simps [simp del]


fun levelToString :: "LogLevel \<Rightarrow> string" where
  "levelToString LOG_FATAL = ''FATAL''"
| "levelToString LOG_ERROR = ''ERROR''"
| "levelToString LOG_WARNING = ''WARN ''"
| "levelToString LOG_INFO = ''INFO ''"
| "levelToString LOG_DEBUG = ''DEBUG''"
| "levelToString LOG_FINE = ''FINE ''"
| "levelToString LOG_FINER = ''FINER''"


definition timeNow :: "os \<Rightarrow> string" where
  "timeNow e =
     (if \<not> time_format_ok e then ''Error in timeNow()''
      else (case local_time e of (h, m, s, ms) \<Rightarrow>
              pad_decimal 2 h @ '':'' @ pad_decimal 2 m @ '':'' @ pad_decimal 2 s @ ''.'' @ pad_decimal 3 ms))"






section \<open>Lemmas\<close>



lemma initialize_level [simp]: "maxLogLevel (Logger_initialize e g) = maxLogLevel g"
  "files (Logger_initialize e g) = files g"
  by (simp_all add: Logger_initialize_def Logger_setStream_def)


text \<open>Text without a null character and without an end of line.\<close>

definition plain :: "string \<Rightarrow> bool" where
  "plain s \<longleftrightarrow> CHR 0x00 \<notin> set s \<and> CHR 0x0A \<notin> set s"

lemma plain_simps [simp]:
  "plain []" "plain (c # s) \<longleftrightarrow> c \<noteq> CHR 0x00 \<and> c \<noteq> CHR 0x0A \<and> plain s" "plain (s @ t) \<longleftrightarrow> plain s \<and> plain t"
  by (auto simp: plain_def)

lemma digit_char: "d < 10 \<Longrightarrow> char_of (48 + d :: nat) \<noteq> CHR 0x00 \<and> char_of (48 + d :: nat) \<noteq> CHR 0x0A"
proof -
  assume "d < 10"
  then have "of_char (char_of (48 + d :: nat)) = 48 + d" by simp
  then show ?thesis by (auto simp del: of_char_of)
qed

lemma plain_pad_decimal [simp]: "plain (pad_decimal w n)"
  by (induction w n rule: pad_decimal.induct) (simp_all add: digit_char)

lemma plain_udecimal [simp]: "plain (udecimal n)"
  by (induction n rule: udecimal.induct) (subst udecimal.simps, simp add: digit_char)


lemma plain_timeNow [simp]: "plain (timeNow e)"
  by (simp add: timeNow_def split: prod.split)

lemma plain_levelToString [simp]: "plain (levelToString l)"
  by (cases l) simp_all





lemma initialize_idem: "Logger_initialize e (Logger_initialize e g) = Logger_initialize e g"
  by (auto simp: Logger_initialize_def Logger_isInitialized_def Logger_setStream_def)

lemma ownPath_dir:
  assumes "module_file_name e = Some buf" "no_nul buf" "backslash \<in> set buf"
  shows "\<exists>d n. buf = d @ [backslash] @ n \<and> backslash \<notin> set n \<and> ownPath e = d @ [backslash]"
proof -
  obtain d n where s: "buf = d @ backslash # n" "backslash \<notin> set n"
    using assms(3) split_list_last by metis
  have tw: "takeWhile (\<lambda>x. x \<noteq> backslash) (rev buf) = rev n"
    using s by (simp add: takeWhile_append takeWhile_eq_all_conv [THEN iffD2])
  have "strrchr_pos backslash buf = Some (length d)"
    unfolding strrchr_pos_def tw using s(1) by simp
  then show ?thesis using s assms(1,2) by (simp add: ownPath_def)
qed


section \<open>Property\<close>



end
