(* ===== verification/Rocks_Interval_Set.thy ===== *)
theory Rocks_Interval_Set
  imports Rocks_Slice
begin

text \<open>
  The specialisations of \<^verbatim>\<open>Interval\<close> and \<^verbatim>\<open>IntervalSet\<close> for slices (\<^verbatim>\<open>include/rocksdb/data_structure.h\<close>): a sorted
  vector of half-open intervals, of which the last may be unbounded, with merging insertion.  The virtual function
  \<^verbatim>\<open>Comparator::Compare\<close> is the argument \<open>cmp\<close>, a total preorder by its documentation (the locale
  \<open>comparator_order\<close>).  An iterator into the vector is an index; \<open>End::INF\<close> is \<open>None\<close>.  The pointer to the comparator
  in every interval is that of the set, and the property bag is never accessed.
\<close>

section \<open>Intervals\<close>

record Interval =
  iv_start :: Slice
  iv_end :: "Slice option"

definition Interval_ctor :: "Slice \<Rightarrow> Slice \<Rightarrow> Interval" where
  "Interval_ctor s e = \<lparr>iv_start = s, iv_end = Some e\<rparr>"

definition Interval_ctor_inf :: "Slice \<Rightarrow> Interval" where
  "Interval_ctor_inf s = \<lparr>iv_start = s, iv_end = None\<rparr>"

definition Interval_has_end :: "Interval \<Rightarrow> bool" where
  "Interval_has_end i \<longleftrightarrow> iv_end i \<noteq> None"

definition Interval_equal_pair :: "(data \<Rightarrow> data \<Rightarrow> nat) \<Rightarrow> Interval \<Rightarrow> Slice \<times> Slice \<Rightarrow> bool option" where
  "Interval_equal_pair mag i p = do {
     b \<leftarrow> Slice_equal mag (iv_start i) (fst p);
     if b then (case iv_end i of None \<Rightarrow> Some False | Some e \<Rightarrow> Slice_equal mag e (snd p)) else Some False
   }"

definition Interval_equal :: "(Slice \<Rightarrow> Slice \<Rightarrow> int) \<Rightarrow> Interval \<Rightarrow> Interval \<Rightarrow> bool" where
  "Interval_equal cmp i j =
     (if cmp (iv_start i) (iv_start j) \<noteq> 0 then False
      else case (iv_end i, iv_end j) of
             (None, None) \<Rightarrow> True
           | (Some e, Some f) \<Rightarrow> cmp e f = 0
           | _ \<Rightarrow> False)"

definition Interval_less :: "(Slice \<Rightarrow> Slice \<Rightarrow> int) \<Rightarrow> Interval \<Rightarrow> Interval \<Rightarrow> bool" where
  "Interval_less cmp i j \<longleftrightarrow> cmp (iv_start i) (iv_start j) < 0"

section \<open>Interval sets\<close>

record IntervalSet =
  is_intervals :: "Interval list"
  is_prop :: bool

definition IntervalSet_ctor :: "bool \<Rightarrow> IntervalSet" where
  "IntervalSet_ctor fail_on_intersect = \<lparr>is_intervals = [], is_prop = fail_on_intersect\<rparr>"

definition IntervalSet_empty :: "IntervalSet \<Rightarrow> bool" where
  "IntervalSet_empty S \<longleftrightarrow> is_intervals S = []"

definition IntervalSet_clear :: "IntervalSet \<Rightarrow> IntervalSet" where
  "IntervalSet_clear S = S\<lparr>is_intervals := []\<rparr>"

definition IntervalSet_size :: "IntervalSet \<Rightarrow> nat" where
  "IntervalSet_size S = length (is_intervals S)"

fun findPosition :: "(Slice \<Rightarrow> Slice \<Rightarrow> int) \<Rightarrow> Interval \<Rightarrow> Interval list \<Rightarrow> nat" where
  "findPosition cmp i [] = 0"
| "findPosition cmp i (it # its) =
     (if cmp (iv_start it) (iv_start i) \<ge> 0 then 0 else Suc (findPosition cmp i its))"

text \<open>The loop of an unbounded interval over the intervals it swallows; \<open>None\<close> is \<^verbatim>\<open>return false\<close>.\<close>

fun swallow_loop :: "(Slice \<Rightarrow> Slice \<Rightarrow> int) \<Rightarrow> bool \<Rightarrow> Interval list \<Rightarrow> Slice \<Rightarrow> Slice option" where
  "swallow_loop cmp prop [] new_start = Some new_start"
| "swallow_loop cmp prop (it # its) new_start =
     (if cmp (iv_start it) new_start < 0
      then if prop then None else swallow_loop cmp prop its (iv_start it)
      else swallow_loop cmp prop its new_start)"

text \<open>
  The loop of a bounded interval over the intervals it reaches: \<open>it\<close> is the index of the first interval of the list
  argument and \<open>n\<close> the length of the vector.  It returns \<open>it\<close>, \<^verbatim>\<open>erase_end\<close>, the new bounds and \<^verbatim>\<open>inf_end\<close>.
\<close>

fun merge_loop :: "(Slice \<Rightarrow> Slice \<Rightarrow> int) \<Rightarrow> nat \<Rightarrow> Interval list \<Rightarrow> nat \<Rightarrow> nat \<Rightarrow> Slice \<Rightarrow> Slice \<Rightarrow>
    nat \<times> nat \<times> Slice \<times> Slice \<times> bool" where
  "merge_loop cmp n [] it erase_end new_start new_end = (it, erase_end, new_start, new_end, False)"
| "merge_loop cmp n (x # xs) it erase_end new_start new_end =
     (if cmp new_end (iv_start x) \<ge> 0
      then if (case iv_end x of Some e \<Rightarrow> cmp e new_start < 0 | None \<Rightarrow> False)
           then merge_loop cmp n xs (it + 1) (it + 1) new_start new_end
           else let new_start = (if cmp (iv_start x) new_start < 0 then iv_start x else new_start)
                in case iv_end x of
                     Some e \<Rightarrow> merge_loop cmp n xs (it + 1) (it + 1) new_start (if cmp new_end e < 0 then e else new_end)
                   | None \<Rightarrow> (it, n, new_start, new_end, True)
      else (it, erase_end, new_start, new_end, False))"

text \<open>The search for an unbounded interval further on, which sets \<^verbatim>\<open>inf_end\<close> and \<^verbatim>\<open>erase_end\<close>.\<close>

fun unbounded_loop :: "nat \<Rightarrow> Interval list \<Rightarrow> nat \<Rightarrow> bool \<Rightarrow> nat \<times> bool" where
  "unbounded_loop n [] erase_end inf_end = (erase_end, inf_end)"
| "unbounded_loop n (x # xs) erase_end inf_end =
     (if \<not> Interval_has_end x then (n, True) else unbounded_loop n xs erase_end inf_end)"

definition insert_at :: "(Slice \<Rightarrow> Slice \<Rightarrow> int) \<Rightarrow> Interval \<Rightarrow> Interval list \<Rightarrow> Interval list" where
  "insert_at cmp i ivs = (let pos = findPosition cmp i ivs in take pos ivs @ i # drop pos ivs)"

definition insertImpl :: "(Slice \<Rightarrow> Slice \<Rightarrow> int) \<Rightarrow> Interval \<Rightarrow> IntervalSet \<Rightarrow> bool \<times> IntervalSet" where
  "insertImpl cmp i S =
     (let ivs = is_intervals S; n = length ivs; it = findPosition cmp i ivs;
          overlap = (it \<noteq> 0 \<and> \<not> (case iv_end (ivs ! (it - 1)) of Some e \<Rightarrow> cmp e (iv_start i) < 0 | None \<Rightarrow> False))
      in if (case iv_end i of Some e \<Rightarrow> cmp (iv_start i) e \<ge> 0 | None \<Rightarrow> False) then (False, S)
         else if overlap \<and> is_prop S then (False, S)
         else let it = (if overlap then it - 1 else it)
              in case iv_end i of
                None \<Rightarrow>
                  (case swallow_loop cmp (is_prop S) (drop it ivs) (iv_start i) of
                     None \<Rightarrow> (False, S)
                   | Some new_start \<Rightarrow>
                       if it \<noteq> n \<and> is_prop S then (False, S)
                       else (True, S\<lparr>is_intervals := insert_at cmp (Interval_ctor_inf new_start) (take it ivs)\<rparr>))
              | Some new_end \<Rightarrow>
                  (let (it', erase_end, new_start, new_end, inf_end) =
                         merge_loop cmp n (drop it ivs) it it (iv_start i) new_end;
                       (erase_end, inf_end) = unbounded_loop n (drop it' ivs) erase_end inf_end;
                       new_interval = (if inf_end then Interval_ctor_inf new_start else Interval_ctor new_start new_end)
                   in (True, S\<lparr>is_intervals := insert_at cmp new_interval (take it ivs @ drop erase_end ivs)\<rparr>)))"

definition IntervalSet_insert :: "(Slice \<Rightarrow> Slice \<Rightarrow> int) \<Rightarrow> Slice \<Rightarrow> Slice \<Rightarrow> IntervalSet \<Rightarrow> bool \<times> IntervalSet" where
  "IntervalSet_insert cmp s e S = insertImpl cmp (Interval_ctor s e) S"

definition IntervalSet_insert_inf :: "(Slice \<Rightarrow> Slice \<Rightarrow> int) \<Rightarrow> Slice \<Rightarrow> IntervalSet \<Rightarrow> bool \<times> IntervalSet" where
  "IntervalSet_insert_inf cmp s S = insertImpl cmp (Interval_ctor_inf s) S"

section \<open>The slices covered\<close>

definition range_set :: "(Slice \<Rightarrow> Slice \<Rightarrow> int) \<Rightarrow> Slice \<Rightarrow> Slice option \<Rightarrow> Slice set" where
  "range_set cmp s eo = {x. cmp s x \<le> 0 \<and> (\<forall>e. eo = Some e \<longrightarrow> cmp x e < 0)}"

definition iv_set :: "(Slice \<Rightarrow> Slice \<Rightarrow> int) \<Rightarrow> Interval \<Rightarrow> Slice set" where
  "iv_set cmp i = range_set cmp (iv_start i) (iv_end i)"

definition cover :: "(Slice \<Rightarrow> Slice \<Rightarrow> int) \<Rightarrow> Interval list \<Rightarrow> Slice set" where
  "cover cmp ivs = (\<Union>i \<in> set ivs. iv_set cmp i)"

definition iv_proper :: "(Slice \<Rightarrow> Slice \<Rightarrow> int) \<Rightarrow> Interval \<Rightarrow> bool" where
  "iv_proper cmp i \<longleftrightarrow> (case iv_end i of Some e \<Rightarrow> cmp (iv_start i) e < 0 | None \<Rightarrow> True)"

definition before :: "(Slice \<Rightarrow> Slice \<Rightarrow> int) \<Rightarrow> Interval \<Rightarrow> Interval \<Rightarrow> bool" where
  "before cmp i j \<longleftrightarrow> (case iv_end i of Some e \<Rightarrow> cmp e (iv_start j) < 0 | None \<Rightarrow> False)"

definition intervals_wf :: "(Slice \<Rightarrow> Slice \<Rightarrow> int) \<Rightarrow> Interval list \<Rightarrow> bool" where
  "intervals_wf cmp ivs \<longleftrightarrow> sorted_wrt (before cmp) ivs \<and> (\<forall>i \<in> set ivs. iv_proper cmp i)"

definition reaches :: "(Slice \<Rightarrow> Slice \<Rightarrow> int) \<Rightarrow> Slice \<Rightarrow> Interval list \<Rightarrow> bool" where
  "reaches cmp s xs \<longleftrightarrow> (\<forall>x \<in> set xs. \<forall>f. iv_end x = Some f \<longrightarrow> \<not> cmp f s < 0)"

text \<open>When an insertion fails in the mode \<^verbatim>\<open>fail_on_intersect\<close>.\<close>

definition blocked :: "(Slice \<Rightarrow> Slice \<Rightarrow> int) \<Rightarrow> Interval \<Rightarrow> Interval list \<Rightarrow> bool" where
  "blocked cmp i ivs \<longleftrightarrow> (\<exists>x \<in> set ivs. cmp (iv_start x) (iv_start i) < 0 \<and> \<not> before cmp x i) \<or>
     iv_end i = None \<and> (\<exists>x \<in> set ivs. \<not> cmp (iv_start x) (iv_start i) < 0)"

text \<open>The insertion from the place where it starts to merge: \<open>pre\<close> stays, \<open>xs\<close> is the rest of the vector.\<close>

definition insert_from :: "(Slice \<Rightarrow> Slice \<Rightarrow> int) \<Rightarrow> bool \<Rightarrow> Interval \<Rightarrow> Interval list \<Rightarrow> Interval list \<Rightarrow> bool \<times> IntervalSet" where
  "insert_from cmp p i pre xs =
     (let ivs = pre @ xs in
        (if (\<exists>x \<in> set xs. cmp (iv_start x) (iv_start i) < 0) \<and> p then (False, \<lparr>is_intervals = ivs, is_prop = p\<rparr>)
          else case iv_end i of
            None \<Rightarrow>
              (case swallow_loop cmp p xs (iv_start i) of
                 None \<Rightarrow> (False, \<lparr>is_intervals = ivs, is_prop = p\<rparr>)
               | Some s' \<Rightarrow>
                   if xs \<noteq> [] \<and> p then (False, \<lparr>is_intervals = ivs, is_prop = p\<rparr>)
                   else (True, \<lparr>is_intervals = insert_at cmp (Interval_ctor_inf s') pre, is_prop = p\<rparr>))
          | Some e \<Rightarrow>
              (let (it', ee, s', e', b) = merge_loop cmp (length ivs) xs (length pre) (length pre) (iv_start i) e;
                   (ee, b) = unbounded_loop (length ivs) (drop it' ivs) ee b;
                   new_interval = (if b then Interval_ctor_inf s' else Interval_ctor s' e')
               in (True, \<lparr>is_intervals = insert_at cmp new_interval (pre @ drop ee ivs), is_prop = p\<rparr>))))"

text \<open>
  What the loop of a bounded interval achieves on a sorted suffix \<open>xs\<close> of the vector: it has merged the prefix \<open>ys\<close>, and
  either stopped before the next interval or met the unbounded one.
\<close>

definition merged :: "(Slice \<Rightarrow> Slice \<Rightarrow> int) \<Rightarrow> nat \<Rightarrow> Interval list \<Rightarrow> nat \<Rightarrow> Slice \<Rightarrow> Slice \<Rightarrow>
    nat \<times> nat \<times> Slice \<times> Slice \<times> bool \<Rightarrow> bool" where
  "merged cmp n xs it s e r \<longleftrightarrow>
     (\<exists>ys zs ee s' e' b. xs = ys @ zs \<and> r = (it + length ys, ee, s', e', b) \<and> \<not> cmp s s' < 0 \<and> \<not> cmp e' e < 0 \<and>
        (\<forall>a. cmp a s < 0 \<and> (\<forall>x \<in> set xs. cmp a (iv_start x) < 0) \<longrightarrow> cmp a s' < 0) \<and>
        (\<forall>y \<in> set ys. iv_end y \<noteq> None) \<and>
        (if b then (\<exists>z. zs = [z] \<and> iv_end z = None) \<and> ee = n \<and> range_set cmp s' None = cover cmp xs \<union> range_set cmp s (Some e)
         else ee = it + length ys \<and> range_set cmp s' (Some e') = cover cmp ys \<union> range_set cmp s (Some e) \<and>
           (\<forall>z \<in> set zs. cmp e' (iv_start z) < 0)))"

text \<open>What the documentation of \<^verbatim>\<open>Compare\<close> promises.\<close>

locale comparator_order =
  fixes cmp :: "Slice \<Rightarrow> Slice \<Rightarrow> int"
  assumes flip: "cmp a b < 0 \<longleftrightarrow> cmp b a > 0"
    and trans: "cmp a b \<le> 0 \<Longrightarrow> cmp b c \<le> 0 \<Longrightarrow> cmp a c \<le> 0"
begin

lemma ge_iff: "cmp a b \<ge> 0 \<longleftrightarrow> \<not> cmp a b < 0"
  by linarith

lemma le_iff: "cmp a b \<le> 0 \<longleftrightarrow> \<not> cmp b a < 0"
  using flip [of b a] by linarith

lemma irrefl: "\<not> cmp a a < 0"
  using flip [of a a] by linarith

lemma less_le_trans: "cmp a b < 0 \<Longrightarrow> \<not> cmp c b < 0 \<Longrightarrow> cmp a c < 0"
  using trans [of b c a] le_iff by metis

lemma le_less_trans: "\<not> cmp b a < 0 \<Longrightarrow> cmp b c < 0 \<Longrightarrow> cmp a c < 0"
  using trans [of c a b] le_iff by metis

lemma less_trans: "cmp a b < 0 \<Longrightarrow> cmp b c < 0 \<Longrightarrow> cmp a c < 0"
  using less_le_trans flip by (metis less_asym)

lemma asym: "cmp a b < 0 \<Longrightarrow> \<not> cmp b a < 0"
  using flip by fastforce

lemmas order = irrefl less_le_trans le_less_trans less_trans asym

lemma in_range: "x \<in> range_set cmp s (Some e) \<longleftrightarrow> \<not> cmp x s < 0 \<and> cmp x e < 0"
  by (simp add: range_set_def le_iff)

lemma in_range_inf: "x \<in> range_set cmp s None \<longleftrightarrow> \<not> cmp x s < 0"
  by (simp add: range_set_def le_iff)

lemma less_min: "cmp x (if cmp s' s < 0 then s' else s) < 0 \<longleftrightarrow> cmp x s < 0 \<and> cmp x s' < 0"
  by (cases "cmp s' s < 0") (auto intro: less_trans less_le_trans)

lemma less_max: "cmp x (if cmp e e' < 0 then e' else e) < 0 \<longleftrightarrow> cmp x e < 0 \<or> cmp x e' < 0"
  by (cases "cmp e e' < 0") (auto intro: less_trans less_le_trans)

lemma merge_bounded:
  assumes "\<not> cmp e s' < 0" "\<not> cmp e' s < 0"
  shows "range_set cmp s (Some e) \<union> range_set cmp s' (Some e') =
    range_set cmp (if cmp s' s < 0 then s' else s) (Some (if cmp e e' < 0 then e' else e))"
proof -
  have "\<not> cmp x s' < 0 \<or> cmp x e < 0" "\<not> cmp x s < 0 \<or> cmp x e' < 0" for x
    using assms less_le_trans by blast+
  then show ?thesis unfolding set_eq_iff Un_iff in_range less_min less_max by blast
qed

lemma merge_unbounded:
  assumes "\<not> cmp e s' < 0"
  shows "range_set cmp s (Some e) \<union> range_set cmp s' None = range_set cmp (if cmp s' s < 0 then s' else s) None"
proof -
  have "\<not> cmp x s' < 0 \<or> cmp x e < 0" for x using assms less_le_trans by blast
  then show ?thesis unfolding set_eq_iff Un_iff in_range in_range_inf less_min by blast
qed

lemma before_start: "iv_proper cmp i \<Longrightarrow> before cmp i j \<Longrightarrow> cmp (iv_start i) (iv_start j) < 0"
  by (auto simp: iv_proper_def before_def split: option.splits intro: less_trans)

lemma wf_append: "intervals_wf cmp (xs @ ys) \<longleftrightarrow>
    intervals_wf cmp xs \<and> intervals_wf cmp ys \<and> (\<forall>x \<in> set xs. \<forall>y \<in> set ys. before cmp x y)"
  by (auto simp: intervals_wf_def sorted_wrt_append)

lemma wf_Cons: "intervals_wf cmp (x # xs) \<longleftrightarrow>
    iv_proper cmp x \<and> intervals_wf cmp xs \<and> (\<forall>y \<in> set xs. before cmp x y)"
  by (auto simp: intervals_wf_def)

lemma wf_Nil [simp]: "intervals_wf cmp []"
  by (simp add: intervals_wf_def)

lemma cover_append: "cover cmp (xs @ ys) = cover cmp xs \<union> cover cmp ys"
  by (auto simp: cover_def)

lemma cover_Cons: "cover cmp (x # xs) = iv_set cmp x \<union> cover cmp xs"
  by (auto simp: cover_def)

lemma cover_Nil [simp]: "cover cmp [] = {}"
  by (simp add: cover_def)

text \<open>Where an interval belongs in a sorted vector.\<close>

lemma findPosition_split:
  assumes "\<forall>p \<in> set pre. cmp (iv_start p) (iv_start i) < 0" "\<forall>z \<in> set zs. \<not> cmp (iv_start z) (iv_start i) < 0"
  shows "findPosition cmp i (pre @ zs) = length pre"
  using assms
proof (induction pre)
  case Nil
  then show ?case by (cases zs) (auto simp: ge_iff)
qed (simp add: ge_iff)

lemma insert_at_split:
  assumes "intervals_wf cmp pre" "\<forall>p \<in> set pre. before cmp p i" "\<forall>z \<in> set zs. \<not> cmp (iv_start z) (iv_start i) < 0"
  shows "insert_at cmp i (pre @ zs) = pre @ i # zs"
proof -
  have "findPosition cmp i (pre @ zs) = length pre"
    using assms before_start by (intro findPosition_split) (auto simp: intervals_wf_def)
  then show ?thesis by (simp add: insert_at_def)
qed

lemma wf_findPosition:
  "intervals_wf cmp ivs \<Longrightarrow>
     (\<forall>p \<in> set (take (findPosition cmp i ivs) ivs). cmp (iv_start p) (iv_start i) < 0) \<and>
     (\<forall>z \<in> set (drop (findPosition cmp i ivs) ivs). \<not> cmp (iv_start z) (iv_start i) < 0)"
proof (induction ivs)
  case (Cons x xs)
  have "\<not> cmp (iv_start y) (iv_start i) < 0" if "\<not> cmp (iv_start x) (iv_start i) < 0" "y \<in> set xs" for y
    using that Cons.prems before_start [of x y] less_trans [of "iv_start x" "iv_start y" "iv_start i"] by (auto simp: wf_Cons)
  with Cons show ?case by (auto simp: ge_iff wf_Cons)
qed simp

text \<open>The loops.\<close>

lemma reaches_min: "reaches cmp s xs \<Longrightarrow> reaches cmp (if cmp s' s < 0 then s' else s) xs"
  unfolding reaches_def less_min by blast

lemma swallow_loop_spec:
  "reaches cmp s xs \<Longrightarrow> (prop \<longrightarrow> (\<forall>x \<in> set xs. \<not> cmp (iv_start x) s < 0)) \<Longrightarrow>
     \<exists>s'. swallow_loop cmp prop xs s = Some s' \<and> range_set cmp s' None = cover cmp xs \<union> range_set cmp s None \<and>
       (\<forall>a. cmp a s < 0 \<and> (\<forall>x \<in> set xs. cmp a (iv_start x) < 0) \<longrightarrow> cmp a s' < 0)"
proof (induction xs arbitrary: s)
  case (Cons x xs)
  let ?s = "if cmp (iv_start x) s < 0 then iv_start x else s"
  have r: "range_set cmp ?s None = iv_set cmp x \<union> range_set cmp s None"
  proof (cases "iv_end x")
    case None
    show ?thesis unfolding iv_set_def None set_eq_iff Un_iff in_range_inf less_min by blast
  next
    case (Some f)
    then have "\<not> cmp f s < 0" using Cons.prems by (simp add: reaches_def)
    then have "\<not> cmp y s < 0 \<or> cmp y f < 0" for y using less_le_trans by blast
    then show ?thesis unfolding iv_set_def Some set_eq_iff Un_iff in_range in_range_inf less_min by blast
  qed
  have p: "\<not> (cmp (iv_start x) s < 0 \<and> prop)" using Cons.prems by auto
  have "reaches cmp ?s xs" using Cons.prems by (intro reaches_min) (simp add: reaches_def)
  moreover have "prop \<longrightarrow> (\<forall>x \<in> set xs. \<not> cmp (iv_start x) ?s < 0)"
    using Cons.prems(2) unfolding less_min by simp
  ultimately obtain s' where s': "swallow_loop cmp prop xs ?s = Some s'"
    "range_set cmp s' None = cover cmp xs \<union> range_set cmp ?s None"
    "\<forall>a. cmp a ?s < 0 \<and> (\<forall>x \<in> set xs. cmp a (iv_start x) < 0) \<longrightarrow> cmp a s' < 0"
    using Cons.IH [of ?s] by blast
  have "swallow_loop cmp prop (x # xs) s = Some s'" using s'(1) p by (simp split: if_splits)
  moreover have "range_set cmp s' None = cover cmp (x # xs) \<union> range_set cmp s None"
    unfolding s'(2) r cover_Cons by blast
  moreover have "\<forall>a. cmp a s < 0 \<and> (\<forall>y \<in> set (x # xs). cmp a (iv_start y) < 0) \<longrightarrow> cmp a s' < 0"
    using s'(3) unfolding less_min by simp
  ultimately show ?case by blast
qed simp

lemma merge_stop:
  assumes wf: "intervals_wf cmp (x # xs)" and stop: "cmp e (iv_start x) < 0"
  shows "merged cmp n (x # xs) it s e (it, it, s, e, False)"
proof -
  have "cmp e (iv_start y) < 0" if "y \<in> set xs" for y
    using that wf stop before_start [of x y] less_trans by (auto simp: wf_Cons)
  with stop show ?thesis unfolding merged_def
    by (intro exI [where x = "[]"] exI [where x = "x # xs"]) (auto simp: irrefl)
qed

lemma merge_last:
  assumes wf: "intervals_wf cmp (x # xs)" and stay: "\<not> cmp e (iv_start x) < 0" and None: "iv_end x = None"
  shows "merged cmp n (x # xs) it s e (it, n, if cmp (iv_start x) s < 0 then iv_start x else s, e, True)"
proof -
  let ?s = "if cmp (iv_start x) s < 0 then iv_start x else s"
  have xs: "xs = []" using wf None by (cases xs) (auto simp: wf_Cons before_def)
  have "\<not> cmp s ?s < 0" unfolding less_min using irrefl by blast
  moreover have "range_set cmp ?s None = cover cmp [x] \<union> range_set cmp s (Some e)"
    using merge_unbounded [OF stay, of s] None by (simp add: cover_Cons iv_set_def Un_commute)
  moreover have "cmp a s < 0 \<Longrightarrow> cmp a (iv_start x) < 0 \<Longrightarrow> cmp a ?s < 0" for a unfolding less_min by blast
  ultimately show ?thesis unfolding merged_def xs
    by (intro exI [where x = "[]"] exI [where x = "[x]"] exI [where x = n] exI [where x = ?s]
          exI [where x = e] exI [where x = True]) (auto simp: irrefl None)
qed

lemma merge_step:
  assumes "iv_end x = Some f" "\<not> cmp e (iv_start x) < 0" "\<not> cmp f s < 0"
    and IH: "merged cmp n xs (it + 1) (if cmp (iv_start x) s < 0 then iv_start x else s) (if cmp e f < 0 then f else e) r"
  shows "merged cmp n (x # xs) it s e r"
proof -
  let ?s = "if cmp (iv_start x) s < 0 then iv_start x else s" and ?e = "if cmp e f < 0 then f else e"
  obtain ys zs ee s' e' b where "xs = ys @ zs" "r = (it + 1 + length ys, ee, s', e', b)"
    "\<not> cmp ?s s' < 0" "\<not> cmp e' ?e < 0" and
    a: "\<forall>a. cmp a ?s < 0 \<and> (\<forall>x \<in> set xs. cmp a (iv_start x) < 0) \<longrightarrow> cmp a s' < 0" and
    "\<forall>y \<in> set ys. iv_end y \<noteq> None"
    "if b then (\<exists>z. zs = [z] \<and> iv_end z = None) \<and> ee = n \<and> range_set cmp s' None = cover cmp xs \<union> range_set cmp ?s (Some ?e)
     else ee = it + 1 + length ys \<and> range_set cmp s' (Some e') = cover cmp ys \<union> range_set cmp ?s (Some ?e) \<and>
       (\<forall>z \<in> set zs. cmp e' (iv_start z) < 0)"
    using IH unfolding merged_def by blast
  moreover have "range_set cmp ?s (Some ?e) = iv_set cmp x \<union> range_set cmp s (Some e)"
    using merge_bounded [OF assms(2,3)] assms(1) by (simp add: iv_set_def Un_commute)
  moreover have "\<not> cmp s s' < 0" if "\<not> cmp ?s s' < 0"
    using that less_le_trans [of s s' ?s] irrefl [of s] unfolding less_min by blast
  moreover have "\<not> cmp e' e < 0" if "\<not> cmp e' ?e < 0" using that unfolding less_max by blast
  moreover have "\<forall>a. cmp a s < 0 \<and> (\<forall>y \<in> set (x # xs). cmp a (iv_start y) < 0) \<longrightarrow> cmp a s' < 0"
    using a unfolding less_min by simp
  ultimately show ?thesis unfolding merged_def
    by (intro exI [where x = "x # ys"] exI [where x = zs] exI [where x = ee] exI [where x = s']
          exI [where x = e'] exI [where x = b]) (simp add: cover_Cons Un_ac assms(1) split: if_splits)
qed

lemma merge_loop_spec:
  "intervals_wf cmp xs \<Longrightarrow> cmp s e < 0 \<Longrightarrow> reaches cmp s xs \<Longrightarrow> merged cmp n xs it s e (merge_loop cmp n xs it it s e)"
proof (induction xs arbitrary: it s e)
  case Nil
  then show ?case by (auto simp: merged_def irrefl intro: exI [where x = False])
next
  case (Cons x xs)
  let ?s = "if cmp (iv_start x) s < 0 then iv_start x else s"
  consider "cmp e (iv_start x) < 0" | "\<not> cmp e (iv_start x) < 0" "iv_end x = None" |
    f where "\<not> cmp e (iv_start x) < 0" "iv_end x = Some f" by (cases "iv_end x") auto
  then show ?case
  proof cases
    case 1
    then show ?thesis using merge_stop [OF Cons.prems(1)] by simp
  next
    case 2
    then show ?thesis using merge_last [OF Cons.prems(1)] by simp
  next
    case (3 f)
    let ?e = "if cmp e f < 0 then f else e"
    have f: "\<not> cmp f s < 0" using Cons.prems(3) 3 by (simp add: reaches_def)
    have "cmp ?s e < 0" using Cons.prems(2) less_trans by (cases "cmp (iv_start x) s < 0") auto
    then have se: "cmp ?s ?e < 0" unfolding less_max by blast
    have "reaches cmp ?s xs" using Cons.prems(3) by (intro reaches_min) (simp add: reaches_def)
    with Cons.prems(1) have "merged cmp n xs (it + 1) ?s ?e (merge_loop cmp n xs (it + 1) (it + 1) ?s ?e)"
      by (intro Cons.IH se) (simp add: wf_Cons)
    from merge_step [OF 3(2,1) f this] show ?thesis using 3 f by (simp add: Let_def ge_iff)
  qed
qed

lemma unbounded_loop_eq:
  "unbounded_loop n zs ee b = (if \<exists>z \<in> set zs. iv_end z = None then (n, True) else (ee, b))"
  by (induction zs) (auto simp: Interval_has_end_def)

text \<open>Where the insertion starts to merge.\<close>

lemma overlap_split:
  assumes wf: "intervals_wf cmp ivs" and it0: "it0 = findPosition cmp i ivs"
    and overlap: "overlap = (it0 \<noteq> 0 \<and> \<not> before cmp (ivs ! (it0 - 1)) i)"
    and it: "it = (if overlap then it0 - 1 else it0)"
  shows "(\<forall>p \<in> set (take it ivs). before cmp p i) \<and> reaches cmp (iv_start i) (drop it ivs) \<and>
    (overlap \<longleftrightarrow> (\<exists>x \<in> set ivs. cmp (iv_start x) (iv_start i) < 0 \<and> \<not> before cmp x i)) \<and>
    (\<not> overlap \<longrightarrow> (\<forall>x \<in> set (drop it ivs). \<not> cmp (iv_start x) (iv_start i) < 0))"
proof -
  define zs where "zs = drop it0 ivs"
  have split: "ivs = take it0 ivs @ zs" by (simp add: zs_def)
  have pre: "\<forall>p \<in> set (take it0 ivs). cmp (iv_start p) (iv_start i) < 0"
    and zs: "\<forall>z \<in> set zs. \<not> cmp (iv_start z) (iv_start i) < 0"
    using wf_findPosition [OF wf, of i] by (auto simp: it0 zs_def)
  have proper: "\<forall>z \<in> set zs. iv_proper cmp z" using wf unfolding zs_def intervals_wf_def by (meson in_set_dropD)
  have r: "reaches cmp (iv_start i) zs"
    using zs proper by (auto simp: reaches_def iv_proper_def split: option.splits dest: less_trans)
  have le: "it0 \<le> length ivs" unfolding it0 by (induction ivs) auto
  show ?thesis
  proof (cases "it0 = 0")
    case True
    then show ?thesis using r zs split by (auto simp: overlap it zs_def)
  next
    case False
    define ps q where "ps = take (it0 - 1) ivs" and "q = ivs ! (it0 - 1)"
    have tk: "take it0 ivs = ps @ [q]"
      using False le take_Suc_conv_app_nth [of "it0 - 1" ivs] by (simp add: ps_def q_def)
    have dr: "drop (it0 - 1) ivs = q # zs"
      using False le Cons_nth_drop_Suc [of "it0 - 1" ivs] by (simp add: zs_def q_def)
    have ivs: "ivs = ps @ q # zs" using split tk by simp
    have q: "cmp (iv_start q) (iv_start i) < 0" using pre tk by simp
    have ps: "before cmp p i" if "p \<in> set ps" for p
    proof -
      have "before cmp p q" using wf that unfolding ivs wf_append by simp
      then show ?thesis using q less_trans by (auto simp: before_def split: option.splits)
    qed
    show ?thesis
    proof (cases "before cmp q i")
      case True
      have s: "set ivs = set ps \<union> {q} \<union> set zs" unfolding ivs by auto
      have "\<not> overlap" "it = it0" using True by (simp_all add: overlap it q_def)
      then show ?thesis using r zs ps True tk s by (auto simp: zs_def)
    next
      case f: False
      then have o: "overlap" "it = it0 - 1" using False by (simp_all add: overlap it q_def)
      have "reaches cmp (iv_start i) (q # zs)" using r f by (auto simp: reaches_def before_def)
      moreover have "q \<in> set ivs" unfolding ivs by simp
      moreover have "take it ivs = ps" "drop it ivs = q # zs" using o(2) dr by (simp_all only: ps_def)
      ultimately show ?thesis using o(1) ps q f by auto
    qed
  qed
qed

text \<open>The vectors that the two branches of the insertion leave.\<close>

lemma insert_unbounded:
  assumes wf: "intervals_wf cmp (pre @ xs)" and pre: "\<forall>p \<in> set pre. before cmp p i"
    and s: "\<forall>a. cmp a (iv_start i) < 0 \<and> (\<forall>x \<in> set xs. cmp a (iv_start x) < 0) \<longrightarrow> cmp a s' < 0"
  shows "insert_at cmp (Interval_ctor_inf s') pre = pre @ [Interval_ctor_inf s'] \<and>
    intervals_wf cmp (pre @ [Interval_ctor_inf s'])"
proof -
  have w: "intervals_wf cmp pre" using wf by (simp add: wf_append)
  have b: "before cmp p (Interval_ctor_inf s')" if "p \<in> set pre" for p
    using that wf pre s by (auto simp: wf_append before_def Interval_ctor_inf_def split: option.splits)
  then show ?thesis using w insert_at_split [of pre "Interval_ctor_inf s'" "[]"]
    by (auto simp: wf_append wf_Cons iv_proper_def Interval_ctor_inf_def)
qed

lemma insert_bounded:
  assumes wf: "intervals_wf cmp (pre @ xs)" and pre: "\<forall>p \<in> set pre. before cmp p i" and xs: "xs = ys @ zs"
    and s: "\<forall>a. cmp a (iv_start i) < 0 \<and> (\<forall>x \<in> set xs. cmp a (iv_start x) < 0) \<longrightarrow> cmp a s' < 0"
    and e: "cmp s' e' < 0" "\<forall>z \<in> set zs. cmp e' (iv_start z) < 0"
  shows "insert_at cmp (Interval_ctor s' e') (pre @ zs) = pre @ Interval_ctor s' e' # zs \<and>
    intervals_wf cmp (pre @ Interval_ctor s' e' # zs)"
proof -
  have b: "before cmp p (Interval_ctor s' e')" if "p \<in> set pre" for p
    using that wf pre s by (auto simp: wf_append before_def Interval_ctor_def split: option.splits)
  have "\<not> cmp (iv_start z) s' < 0" if "z \<in> set zs" for z
    using e that less_trans asym by blast
  then have "insert_at cmp (Interval_ctor s' e') (pre @ zs) = pre @ Interval_ctor s' e' # zs"
    using wf b by (intro insert_at_split) (auto simp: wf_append Interval_ctor_def)
  moreover have "intervals_wf cmp (pre @ Interval_ctor s' e' # zs)"
    using wf b e unfolding xs by (auto simp: wf_append wf_Cons iv_proper_def before_def Interval_ctor_def)
  ultimately show ?thesis by blast
qed

lemma pre_bounded: "\<forall>p \<in> set pre. before cmp p i \<Longrightarrow> x \<in> set (pre @ xs) \<and> iv_end x = None \<Longrightarrow> x \<in> set xs"
  by (auto simp: before_def)

lemma cover_unbounded:
  assumes "\<not> cmp s s' < 0" "\<not> cmp e' e < 0" "cmp s e < 0"
    and ys: "range_set cmp s' (Some e') = cover cmp ys \<union> range_set cmp s (Some e)"
    and zs: "\<forall>z \<in> set zs. cmp e' (iv_start z) < 0"
  shows "range_set cmp s' None = cover cmp (ys @ zs) \<union> range_set cmp s None"
proof -
  have se': "cmp s e' < 0" using assms(2,3) less_le_trans by blast
  then have "range_set cmp s' (Some e') \<union> range_set cmp s None = range_set cmp (if cmp s s' < 0 then s else s') None"
    using asym by (intro merge_unbounded) blast
  then have "range_set cmp s' None = cover cmp ys \<union> range_set cmp s (Some e) \<union> range_set cmp s None"
    using assms(1) ys by simp
  moreover have "range_set cmp s (Some e) \<subseteq> range_set cmp s None" by (auto simp: range_set_def)
  moreover have "iv_set cmp z \<subseteq> range_set cmp s None" if "z \<in> set zs" for z
  proof -
    have "cmp s (iv_start z) < 0" using zs that se' less_trans by blast
    then have "\<not> cmp x (iv_start z) < 0 \<Longrightarrow> \<not> cmp x s < 0" for x using less_trans by blast
    then show ?thesis by (auto simp: iv_set_def range_set_def le_iff)
  qed
  then have "cover cmp zs \<subseteq> range_set cmp s None" by (auto simp: cover_def)
  ultimately show ?thesis by (auto simp: cover_append)
qed

lemma bounded_result:
  assumes wf: "intervals_wf cmp (pre @ xs)" and pre: "\<forall>p \<in> set pre. before cmp p i"
    and r: "reaches cmp (iv_start i) xs" and se: "cmp (iv_start i) e < 0" and n: "n = length pre + length xs"
    and m: "merge_loop cmp n xs (length pre) (length pre) (iv_start i) e = (it', ee, s', e', b)"
    and u: "unbounded_loop n (drop it' (pre @ xs)) ee b = (ee', b')"
    and vs: "vs = insert_at cmp (if b' then Interval_ctor_inf s' else Interval_ctor s' e') (pre @ drop ee' (pre @ xs))"
  shows "intervals_wf cmp vs \<and> cover cmp vs = cover cmp (pre @ xs) \<union>
    range_set cmp (iv_start i) (if \<exists>x \<in> set (pre @ xs). iv_end x = None then None else Some e)"
proof -
  have wxs: "intervals_wf cmp xs" using wf by (simp add: wf_append)
  from merge_loop_spec [OF wxs se r, of n "length pre"] obtain ys zs where
    xs: "xs = ys @ zs" and it': "it' = length pre + length ys" and
    s': "\<not> cmp (iv_start i) s' < 0" "\<not> cmp e' e < 0" and
    a: "\<forall>a. cmp a (iv_start i) < 0 \<and> (\<forall>x \<in> set xs. cmp a (iv_start x) < 0) \<longrightarrow> cmp a s' < 0" and
    ys: "\<forall>y \<in> set ys. iv_end y \<noteq> None" and
    d: "if b then (\<exists>z. zs = [z] \<and> iv_end z = None) \<and> ee = n \<and>
          range_set cmp s' None = cover cmp xs \<union> range_set cmp (iv_start i) (Some e)
        else ee = length pre + length ys \<and> range_set cmp s' (Some e') = cover cmp ys \<union> range_set cmp (iv_start i) (Some e) \<and>
          (\<forall>z \<in> set zs. cmp e' (iv_start z) < 0)"
    unfolding m merged_def by blast
  have inf: "(\<exists>x \<in> set (pre @ xs). iv_end x = None) \<longleftrightarrow> (\<exists>z \<in> set zs. iv_end z = None)"
    using ys pre_bounded [OF pre] unfolding xs by auto
  have u': "(ee', b') = (if \<exists>z \<in> set zs. iv_end z = None then (n, True) else (ee, b))"
    using u by (simp add: it' xs unbounded_loop_eq)
  show ?thesis
  proof (cases "\<exists>z \<in> set zs. iv_end z = None")
    case True
    have "vs = pre @ [Interval_ctor_inf s']" "intervals_wf cmp vs"
      using insert_unbounded [OF wf pre a] u' True by (simp_all add: vs n)
    moreover have "range_set cmp s' None = cover cmp xs \<union> range_set cmp (iv_start i) None"
    proof (cases b)
      case True
      have "range_set cmp (iv_start i) None \<subseteq> range_set cmp s' None"
        using s'(1) less_le_trans by (auto simp: range_set_def le_iff)
      moreover have "range_set cmp (iv_start i) (Some e) \<subseteq> range_set cmp (iv_start i) None"
        by (auto simp: range_set_def)
      ultimately show ?thesis using d True by auto
    next
      case False
      then show ?thesis using d cover_unbounded [OF s' se] by (simp add: xs)
    qed
    ultimately show ?thesis using True unfolding inf
      by (simp add: cover_append cover_Cons iv_set_def Interval_ctor_inf_def Un_ac)
  next
    case False
    then have b: "\<not> b" using d by auto
    have "cmp s' e' < 0" using s' se le_less_trans less_le_trans by blast
    moreover have "drop ee' (pre @ xs) = zs" "b' = b" using u' False d b by (simp_all add: xs)
    ultimately have "vs = pre @ Interval_ctor s' e' # zs" "intervals_wf cmp vs"
      using insert_bounded [OF wf pre xs a, of e'] d b by (simp_all add: vs)
    then show ?thesis using d b unfolding inf if_not_P [OF False]
      by (simp add: xs cover_append cover_Cons iv_set_def Interval_ctor_def Un_ac)
  qed
qed

lemma findPosition_le: "findPosition cmp i ivs \<le> length ivs"
  by (induction ivs) auto

lemma insertImpl_cases:
  assumes wf: "intervals_wf cmp ivs" and i: "iv_proper cmp i"
  obtains pre xs where "ivs = pre @ xs" "\<forall>p \<in> set pre. before cmp p i" "reaches cmp (iv_start i) xs"
    "blocked cmp i ivs \<longleftrightarrow> (\<exists>x \<in> set xs. cmp (iv_start x) (iv_start i) < 0) \<or> iv_end i = None \<and> xs \<noteq> []"
    "insertImpl cmp i \<lparr>is_intervals = ivs, is_prop = p\<rparr> = insert_from cmp p i pre xs"
proof -
  define it0 where "it0 = findPosition cmp i ivs"
  define overlap where "overlap = (it0 \<noteq> 0 \<and> \<not> before cmp (ivs ! (it0 - 1)) i)"
  define it where "it = (if overlap then it0 - 1 else it0)"
  have le: "it \<le> length ivs" using findPosition_le [of i ivs] by (auto simp: it_def it0_def)
  note sp = overlap_split [OF wf it0_def overlap_def it_def]
  have set: "set ivs = set (take it ivs) \<union> set (drop it ivs)" by (metis append_take_drop_id set_append)
  have pre: "cmp (iv_start x) (iv_start i) < 0" if "x \<in> set (take it ivs)" for x
    using sp that wf by (intro before_start) (auto simp: intervals_wf_def dest: in_set_takeD)
  have o: "overlap \<longleftrightarrow> (\<exists>x \<in> set (drop it ivs). cmp (iv_start x) (iv_start i) < 0)"
    using sp set by blast
  have bl: "blocked cmp i ivs \<longleftrightarrow> (\<exists>x \<in> set (drop it ivs). cmp (iv_start x) (iv_start i) < 0) \<or> iv_end i = None \<and> drop it ivs \<noteq> []"
  proof -
    have "drop it ivs \<noteq> [] \<longleftrightarrow> (\<exists>x. x \<in> set (drop it ivs))" by (simp only: ex_in_conv set_empty)
    then show ?thesis unfolding blocked_def using sp o pre set by blast
  qed
  have eq: "insertImpl cmp i \<lparr>is_intervals = ivs, is_prop = p\<rparr> = insert_from cmp p i (take it ivs) (drop it ivs)"
  proof -
    have e: "\<not> (case iv_end i of Some e \<Rightarrow> cmp (iv_start i) e \<ge> 0 | None \<Rightarrow> False)"
      using i by (simp add: iv_proper_def ge_iff split: option.splits)
    have l: "length (take it ivs) = it" "(drop it ivs \<noteq> []) = (it \<noteq> length ivs)" using le by auto
    show ?thesis
      unfolding insertImpl_def insert_from_def IntervalSet.simps Let_def append_take_drop_id l o [symmetric]
        before_def [symmetric] it0_def [symmetric] overlap_def [symmetric] it_def [symmetric] if_not_P [OF e] ..
  qed
  have "\<forall>p \<in> set (take it ivs). before cmp p i" "reaches cmp (iv_start i) (drop it ivs)" using sp by blast+
  from that [OF append_take_drop_id [symmetric] this bl eq] show ?thesis .
qed

lemma swallow_result:
  assumes wf: "intervals_wf cmp (pre @ xs)" and pre: "\<forall>q \<in> set pre. before cmp q i" and r: "reaches cmp (iv_start i) xs"
    and p: "p \<longrightarrow> (\<forall>x \<in> set xs. \<not> cmp (iv_start x) (iv_start i) < 0)"
  obtains s' where "swallow_loop cmp p xs (iv_start i) = Some s'"
    "insert_at cmp (Interval_ctor_inf s') pre = pre @ [Interval_ctor_inf s']" "intervals_wf cmp (pre @ [Interval_ctor_inf s'])"
    "cover cmp (pre @ [Interval_ctor_inf s']) = cover cmp (pre @ xs) \<union> range_set cmp (iv_start i) None"
  using swallow_loop_spec [OF r p] insert_unbounded [OF wf pre]
  by (fastforce simp: cover_append cover_Cons iv_set_def Interval_ctor_inf_def Un_ac)

lemma insert_from_unbounded:
  assumes wf: "intervals_wf cmp (pre @ xs)" and pre: "\<forall>q \<in> set pre. before cmp q i" and r: "reaches cmp (iv_start i) xs"
    and e: "iv_end i = None"
  shows "\<exists>vs. insert_from cmp p i pre xs =
      (if p \<and> xs \<noteq> [] then (False, \<lparr>is_intervals = pre @ xs, is_prop = p\<rparr>) else (True, \<lparr>is_intervals = vs, is_prop = p\<rparr>)) \<and>
    intervals_wf cmp vs \<and> cover cmp vs = cover cmp (pre @ xs) \<union> range_set cmp (iv_start i) None"
proof (cases "p \<and> xs \<noteq> []")
  case True
  then have "insert_from cmp p i pre xs = (False, \<lparr>is_intervals = pre @ xs, is_prop = p\<rparr>)"
    by (simp add: insert_from_def Let_def e split: option.split)
  moreover obtain s' where "intervals_wf cmp (pre @ [Interval_ctor_inf s'])"
    "cover cmp (pre @ [Interval_ctor_inf s']) = cover cmp (pre @ xs) \<union> range_set cmp (iv_start i) None"
    by (rule swallow_result [OF wf pre r, of False]) simp
  ultimately show ?thesis using True by auto
next
  case False
  then obtain s' where "swallow_loop cmp p xs (iv_start i) = Some s'"
    "insert_at cmp (Interval_ctor_inf s') pre = pre @ [Interval_ctor_inf s']" "intervals_wf cmp (pre @ [Interval_ctor_inf s'])"
    "cover cmp (pre @ [Interval_ctor_inf s']) = cover cmp (pre @ xs) \<union> range_set cmp (iv_start i) None"
    using swallow_result [OF wf pre r, of p] by auto
  then show ?thesis using False
    by (intro exI [where x = "pre @ [Interval_ctor_inf s']"]) (auto simp: insert_from_def e)
qed

lemma insert_from_bounded:
  assumes wf: "intervals_wf cmp (pre @ xs)" and pre: "\<forall>q \<in> set pre. before cmp q i" and r: "reaches cmp (iv_start i) xs"
    and e: "iv_end i = Some e" "cmp (iv_start i) e < 0"
  shows "\<exists>vs. insert_from cmp p i pre xs =
      (if p \<and> (\<exists>x \<in> set xs. cmp (iv_start x) (iv_start i) < 0) then (False, \<lparr>is_intervals = pre @ xs, is_prop = p\<rparr>)
       else (True, \<lparr>is_intervals = vs, is_prop = p\<rparr>)) \<and>
    intervals_wf cmp vs \<and> cover cmp vs = cover cmp (pre @ xs) \<union>
      range_set cmp (iv_start i) (if \<exists>x \<in> set (pre @ xs). iv_end x = None then None else Some e)"
proof -
  let ?n = "length (pre @ xs)"
  obtain it' ee s' e' b where m: "merge_loop cmp ?n xs (length pre) (length pre) (iv_start i) e = (it', ee, s', e', b)"
    by (metis prod_cases5)
  obtain ee' b' where u: "unbounded_loop ?n (drop it' (pre @ xs)) ee b = (ee', b')" by fastforce
  let ?vs = "insert_at cmp (if b' then Interval_ctor_inf s' else Interval_ctor s' e') (pre @ drop ee' (pre @ xs))"
  have "insert_from cmp p i pre xs =
      (if p \<and> (\<exists>x \<in> set xs. cmp (iv_start x) (iv_start i) < 0) then (False, \<lparr>is_intervals = pre @ xs, is_prop = p\<rparr>)
       else (True, \<lparr>is_intervals = ?vs, is_prop = p\<rparr>))"
    unfolding insert_from_def Let_def e(1) option.case m prod.case u by (simp add: conj_commute)
  with bounded_result [OF wf pre r e(2) length_append m u refl] show ?thesis by blast
qed

lemma insertImpl_spec:
  assumes wf: "intervals_wf cmp ivs" and i: "iv_proper cmp i"
  shows "\<exists>vs. insertImpl cmp i \<lparr>is_intervals = ivs, is_prop = p\<rparr> =
      (if p \<and> blocked cmp i ivs then (False, \<lparr>is_intervals = ivs, is_prop = p\<rparr>) else (True, \<lparr>is_intervals = vs, is_prop = p\<rparr>)) \<and>
    intervals_wf cmp vs \<and>
    cover cmp vs = cover cmp ivs \<union> range_set cmp (iv_start i) (if \<exists>x \<in> set ivs. iv_end x = None then None else iv_end i)"
proof -
  obtain pre xs where ivs: "ivs = pre @ xs" and pre: "\<forall>q \<in> set pre. before cmp q i" and r: "reaches cmp (iv_start i) xs"
    and bl: "blocked cmp i ivs \<longleftrightarrow> (\<exists>x \<in> set xs. cmp (iv_start x) (iv_start i) < 0) \<or> iv_end i = None \<and> xs \<noteq> []"
    and eq: "insertImpl cmp i \<lparr>is_intervals = ivs, is_prop = p\<rparr> = insert_from cmp p i pre xs"
    by (rule insertImpl_cases [OF wf i, of p]) blast
  have wf': "intervals_wf cmp (pre @ xs)" using wf ivs by simp
  show ?thesis
  proof (cases "iv_end i")
    case None
    then have "blocked cmp i ivs \<longleftrightarrow> xs \<noteq> []" using bl by auto
    then show ?thesis
      using insert_from_unbounded [OF wf' pre r None, of p] unfolding ivs eq [unfolded ivs] None by (simp only: if_cancel)
  next
    case (Some e)
    then have "cmp (iv_start i) e < 0" using i by (simp add: iv_proper_def)
    moreover have "blocked cmp i ivs \<longleftrightarrow> (\<exists>x \<in> set xs. cmp (iv_start x) (iv_start i) < 0)" using bl Some by simp
    ultimately show ?thesis
      using insert_from_bounded [OF wf' pre r Some, of p] unfolding ivs eq [unfolded ivs] Some by (simp only:)
  qed
qed

end

text \<open>The order of the default comparator; on readable slices it has the sign of \<^verbatim>\<open>Slice::compare\<close>.\<close>

definition bytewise :: "Slice \<Rightarrow> Slice \<Rightarrow> int" where
  "bytewise a b = lex_sign (slice_bytes a) (slice_bytes b)"

lemma Slice_compare_bytewise:
  "slice_wf a \<Longrightarrow> slice_wf b \<Longrightarrow> \<exists>r. Slice_compare mag a b = Some r \<and> sgn r = bytewise a b"
  by (simp add: bytewise_def Slice_compare_sign)

interpretation bytewise_order: comparator_order bytewise
  by unfold_locales (auto simp: bytewise_def lex_sign_def split: if_splits)

section \<open>Properties\<close>

text \<open>
  C27: insertion into an \<^verbatim>\<open>IntervalSet\<close> of slices, for every comparator that is a total preorder and every vector of
  sorted, proper intervals with gaps between them.  An empty interval is refused.  In the mode \<^verbatim>\<open>fail_on_intersect\<close> the
  insertion is refused, without any change, exactly when an interval that starts before the new one reaches it or, for an
  unbounded one, when any interval starts at or after it.  Otherwise it reports true and leaves again a vector of
  that form, which covers what it covered before and the new interval; but when the set has an unbounded interval, it
  covers everything from the start of the new interval on.

  The class comment promises more of \<^verbatim>\<open>fail_on_intersect\<close>: that a range which is not disjoint from the others is always
  refused.  The code does not keep this, and the last conjunct says so: a bounded range before which no interval
  starts is accepted in this mode as well, however many of the later intervals it runs into, and it is merged with them.
\<close>

theorem interval_set_insert:
  assumes "comparator_order cmp" "intervals_wf cmp ivs"
  shows "(\<exists>vs. insertImpl cmp i \<lparr>is_intervals = ivs, is_prop = p\<rparr> =
      (if \<not> iv_proper cmp i \<or> p \<and> blocked cmp i ivs then (False, \<lparr>is_intervals = ivs, is_prop = p\<rparr>)
       else (True, \<lparr>is_intervals = vs, is_prop = p\<rparr>)) \<and>
    (iv_proper cmp i \<longrightarrow> intervals_wf cmp vs \<and> cover cmp vs = cover cmp ivs \<union>
       (if \<exists>x \<in> set ivs. iv_end x = None then {x. cmp (iv_start i) x \<le> 0} else iv_set cmp i))) \<and>
    (iv_proper cmp i \<and> iv_end i \<noteq> None \<and> (\<forall>x \<in> set ivs. \<not> cmp (iv_start x) (iv_start i) < 0) \<longrightarrow>
      fst (insertImpl cmp i \<lparr>is_intervals = ivs, is_prop = True\<rparr>))"
proof (cases "iv_proper cmp i")
  case True
  have "range_set cmp (iv_start i) (if \<exists>x \<in> set ivs. iv_end x = None then None else iv_end i) =
      (if \<exists>x \<in> set ivs. iv_end x = None then {x. cmp (iv_start i) x \<le> 0} else iv_set cmp i)"
    by (auto simp: range_set_def iv_set_def)
  moreover have "fst (insertImpl cmp i \<lparr>is_intervals = ivs, is_prop = True\<rparr>)"
    if "iv_end i \<noteq> None" "\<forall>x \<in> set ivs. \<not> cmp (iv_start x) (iv_start i) < 0"
  proof -
    have "\<not> blocked cmp i ivs" using that by (auto simp: blocked_def)
    with comparator_order.insertImpl_spec [OF assms True, of True] show ?thesis by auto
  qed
  ultimately show ?thesis using comparator_order.insertImpl_spec [OF assms True, of p]
    by (simp only: True not_True_eq_False simp_thms) blast
next
  case False
  then obtain e where "iv_end i = Some e" "cmp (iv_start i) e \<ge> 0" by (auto simp: iv_proper_def split: option.splits)
  then have "insertImpl cmp i \<lparr>is_intervals = ivs, is_prop = p\<rparr> = (False, \<lparr>is_intervals = ivs, is_prop = p\<rparr>)"
    by (simp add: insertImpl_def Let_def)
  with False show ?thesis by simp
qed

theorem interval_set_insert_witness:
  "\<exists>vs. insertImpl bytewise (Interval_ctor (Slice_of_string [4]) (Slice_of_string [6]))
      \<lparr>is_intervals = [Interval_ctor (Slice_of_string [1]) (Slice_of_string [5])], is_prop = False\<rparr> =
      (True, \<lparr>is_intervals = vs, is_prop = False\<rparr>) \<and>
    cover bytewise vs = cover bytewise [Interval_ctor (Slice_of_string [1]) (Slice_of_string [5])] \<union>
      iv_set bytewise (Interval_ctor (Slice_of_string [4]) (Slice_of_string [6]))"
proof -
  have "intervals_wf bytewise [Interval_ctor (Slice_of_string [1]) (Slice_of_string [5])]"
    "iv_proper bytewise (Interval_ctor (Slice_of_string [4]) (Slice_of_string [6]))" by code_simp+
  with interval_set_insert [OF bytewise_order.comparator_order_axioms, of "[Interval_ctor (Slice_of_string [1]) (Slice_of_string [5])]"
      "Interval_ctor (Slice_of_string [4]) (Slice_of_string [6])" False]
  show ?thesis by (auto simp: Interval_ctor_def)
qed

text \<open>
  A bounded interval merges with an unbounded one that it does not meet: after \<open>[10, \<infinity>)\<close>, the insertion of \<open>[1, 2)\<close> leaves
  \<open>[1, \<infinity>)\<close>.
\<close>

theorem interval_set_swallows_gap:
  "IntervalSet_insert bytewise (Slice_of_string [1]) (Slice_of_string [2])
     (snd (IntervalSet_insert_inf bytewise (Slice_of_string [10]) (IntervalSet_ctor False))) =
   (True, \<lparr>is_intervals = [Interval_ctor_inf (Slice_of_string [1])], is_prop = False\<rparr>)"
  by code_simp

text \<open>
  In the mode \<^verbatim>\<open>fail_on_intersect\<close> a bounded interval that runs into a later one is merged with it all the same: after
  \<open>[5, 8)\<close>, the insertion of \<open>[1, 6)\<close> reports true and leaves \<open>[1, 8)\<close>.
\<close>

theorem interval_set_merges_in_fail_mode:
  "IntervalSet_insert bytewise (Slice_of_string [1]) (Slice_of_string [6])
     (snd (IntervalSet_insert bytewise (Slice_of_string [5]) (Slice_of_string [8]) (IntervalSet_ctor True))) =
   (True, \<lparr>is_intervals = [Interval_ctor (Slice_of_string [1]) (Slice_of_string [8])], is_prop = True\<rparr>)"
  by code_simp

end
