(* ===== verification/Spec2Isabelle.thy ===== *)
theory Spec2Isabelle
  imports Entry_Points Kueue_Refine Store_Wal Simple_Logger Rocks_Interval_Set
begin

text \<open>
  A verification of \<^verbatim>\<open>librocks\<close>, a Windows DLL that wraps RocksDB in a key-value store and in persistent
  message queues, and of its C++ client.

  \<^bold>\<open>The program.\<close>  \<^verbatim>\<open>openStore\<close> and \<^verbatim>\<open>openKueueManager\<close> (\<^verbatim>\<open>src/impl/librocks.cpp\<close>) are the two entry
  points.  A store (\<^verbatim>\<open>StoreImpl\<close>) holds a RocksDB \<^verbatim>\<open>TransactionDB\<close> and a map of kinds (\<^verbatim>\<open>KindImpl\<close>), one
  per column family; every write but \<^verbatim>\<open>removeRange\<close> runs in a transaction, and the write-ahead log is synchronised now
  and then.  A queue (\<^verbatim>\<open>KueueImpl\<close>) keeps its messages as the values of one kind under consecutive big-endian
  64-bit keys, with two mutexes, an atomic counter and a condition variable; a manager
  (\<^verbatim>\<open>KueueManagerImpl\<close>) owns a store and its queues by name.  The client \<^verbatim>\<open>KVStore\<close> turns status codes
  into \<^verbatim>\<open>RocksException\<close> and returned arrays into \<^verbatim>\<open>bytes\<close>.

  \<^bold>\<open>Conventions.\<close>  An object is a record, a method a function that takes and returns it; out-parameters
  are optional cells (\<open>None\<close> is a null pointer) that are passed in and returned.  A pointer argument and its length are
  one optional list of bytes, so a null pointer has the length 0.  A method returns an
  \<open>option\<close>: \<open>None\<close> is undefined behaviour (a null or dangling dereference, a double release, locking a
  mutex twice in one thread), so a theorem with \<open>= Some\<close> excludes it.  Status codes are integers as in
  \<^verbatim>\<open>StatusCode.h\<close>, exceptions are the left values of a sum type.  Arrays made by \<^verbatim>\<open>new char[]\<close> live in an
  explicit heap, so that ownership and leaks can be stated.  Keys, counters and the WAL counter are
  words of their width.  RocksDB is given by its headers only: the calls the store makes are the fields of
  the record \<open>rocksdb\<close>, an argument of every method, over an unknown state \<open>'d\<close>.  Their documented
  behaviour, failures included (also the seek of an iterator may fail), is the locale \<open>rocksdb_spec\<close>, extended by \<open>rocksdb_durable\<close> with what a
  database keeps when it is closed; \<open>mem_engine\<close> is a concrete engine with scripted failures that
  satisfies both, and witnesses run on it.

  \<^bold>\<open>Theories.\<close>
  \<^item> \<open>Prelude\<close>: machine types, out-parameters, heap, clock, shared lemmas.
  \<^item> \<open>Rocks_Status\<close> (\<^verbatim>\<open>include/api/StatusCode.h\<close>, \<^verbatim>\<open>include/rocksdb/status.h\<close>, \<^verbatim>\<open>assign\<close> of \<^verbatim>\<open>utils.h\<close>),
    \<open>Rocks_Slice\<close> (\<^verbatim>\<open>slice.h\<close>, \<^verbatim>\<open>cleanable.h\<close>), \<open>Rocks_Options\<close>, \<open>Rocks_DB_Options\<close>, \<open>Rocks_CF_Options\<close>
    (the option structs with their default values, from \<^verbatim>\<open>options.h\<close>, \<^verbatim>\<open>advanced_options.h\<close>, \<^verbatim>\<open>table.h\<close>
    and the headers of their field types, and \<^verbatim>\<open>BlockBasedTableConfig.h\<close>).  A struct with many fields is
    a record of sub-records \<open>_A\<close>, \<open>_B\<close>, ... in the order of the header.  \<open>Rocks_Enum_Set\<close>: the bit set
    \<^verbatim>\<open>SmallEnumSet\<close> (\<^verbatim>\<open>data_structure.h\<close>) of two of the options, and that it is a set (C40); its bit counts,
    which have no body in the repository, are parameters with the locale \<open>bit_counts\<close>.
    \<open>Rocks_Interval_Set\<close>: the merging set of intervals of slices of the same header, for every comparator with the
    locale \<open>comparator_order\<close>; what an insertion leaves (C27), which in the mode \<^verbatim>\<open>fail_on_intersect\<close> is not what the class
    comment says, and two runs in which it does not do what it promises.  The magnitudes of \<^verbatim>\<open>memcmp\<close>, of which only the
    sign is specified, are a parameter.
  \<^item> \<open>Rocks_Engine\<close>: the RocksDB calls as a parameter, their contract, the in-memory engine.  What a reader
    sees of a key is a \<open>cell\<close>, which also records whether the key was written more than once, because
    \<^verbatim>\<open>SingleDelete\<close> is only specified for keys written once.
  \<^item> \<open>Kind_Impl\<close>, \<open>Store_Impl\<close>: every method of \<^verbatim>\<open>KindImpl\<close> and \<^verbatim>\<open>StoreImpl\<close>.  \<open>Store_Spec\<close>: the invariant
    \<open>store_wf\<close>, and for each reading or writing method that it returns, keeps the invariant, and has
    exactly its effect or none (C3, C4, C9, C10, C12); \<open>seek_ok\<close> is the failure of an iterator that \<^verbatim>\<open>findMinKey\<close> and
    \<^verbatim>\<open>findMaxKey\<close> overlook.  \<open>Store_Lifecycle\<close>: opening, closing, kinds, refusals, removals, flushing (C11, C22 to C26, C28).
    \<open>Store_Wal\<close>: any engine with a count of its commits and synchronisations, and when each operation of the store
    synchronises the log (C21).  \<open>Store_Durable\<close>: the tie between kinds and named column
    families, and that a store and the queues in it survive destruction and reopening (C29).
  \<^item> \<open>U64_Codec\<close>: the queue's keys; round trip and order (C19).  \<open>Kueue_Impl\<close>: every method of \<^verbatim>\<open>KueueImpl\<close>
    as one thread runs it.  \<open>Kueue_Spec\<close>: the relation \<open>kueue_inv\<close> between a queue object, its column
    family and the list of its messages, and every method against it (C5, C6, C13 to C16).
    \<open>Kueue_Fifo\<close>: construction from the stored messages, and the FIFO contract as the locale \<open>fifo\<close>, of
    which the queue is an instance (C1, C18).  \<open>Kueue_Manager\<close>: the manager (C31).
    \<open>Manager_Session\<close>: a program that uses any number of queues of a manager and restarts in between, as a
    fold over its operations; the invariant \<open>session_inv\<close> ties the manager, its cached queues and the column
    families to one list of messages per name, and gives FIFO order per name over the whole run (C30).
  \<^item> \<open>Kueue_Threads\<close>: put, both takes, readNext, erase and clear in any number of threads as a step relation,
    with mutual exclusion and the relation of keys, counter and stored messages as invariants.  The steps
    that touch no data (locking, waiting, notifying, the tests) are the relation \<open>ctl\<close>, for any state with
    the control fields; keys and counter are unbounded and the store is a table here.
    \<open>Kueue_Conc\<close>: FIFO order, no lost wake-up without failing store calls and readNext, and, by running
    schedules, a reachable lost wake-up with either and an erase that succeeds twice (C7, C8, C33, C37).
    \<open>Kueue_Refine\<close>: the same threads with 64-bit keys and counter and the operations of \<open>Store_Impl\<close> for
    the data; the locale \<open>simulation\<close> with its instance says that this system refines the abstract one for
    every engine (C17), and so mutual exclusion, FIFO order, the contents of the column family and freedom
    from deadlock hold of it (C38).
  \<^item> \<open>Librocks\<close>: the entry points; \<open>Entry_Points\<close>: the three ways to open a database agree (C20).  \<open>Client_Bytes\<close>, \<open>Rocks_Exception\<close>, \<open>KV_Store\<close>: the client (C32, C34).
    \<open>KV_Spec\<close>: the map contract as the locale \<open>kv_map\<close>, of which the client on one kind is an instance (C2), and the
    ordered set of kinds (C36).
  \<^item> \<open>Simple_Logger\<close>: the logger and its file name, with the operating system as a parameter (C39).
  \<open>Rocks_Slice\<close> holds C35.

  \<^bold>\<open>Bounds.\<close>  The only fuel is that of a \<^verbatim>\<open>for\<close> loop over a \<^verbatim>\<open>SmallEnumSet\<close>, \<open>M + 2\<close> rounds for the
  enumerators \<open>0\<close> to \<open>M\<close>, which is shown to be enough.  The loop of \<^verbatim>\<open>clear\<close> terminates by the signed counter, \<^verbatim>\<open>SkipUnset\<close> by its position, all other
  loops are structural.  A put needs a free key and a counter below the signed maximum; \<open>kueue_room\<close> is that bound.
  With threads, a run is considered while it has used fewer than \<open>2 ^ 63\<close> keys (\<open>roomy\<close>), which is what the
  signed counter can hold; likewise a session puts fewer than \<open>2 ^ 63\<close> messages into all its queues together,
  its restarts find a database that the library can open, and the seeks with which a queue is found again do not fail
  (\<open>session_relies\<close>).

  The restart theorems are about an orderly end of the process: the store writes with the WAL enabled and
  without \<^verbatim>\<open>manual_wal_flush\<close>, so deleting the database loses nothing, although \<^verbatim>\<open>close\<close> never synchronises
  the log (C25); what a crash of the machine loses is not stated.

  \<^bold>\<open>Not modelled.\<close>  The RocksDB library itself, whose code is not in the repository; the other headers of
  RocksDB that \<^verbatim>\<open>librocks\<close> does not use; the test program and the export macros; the two log statements in
  \<^verbatim>\<open>open_\<close>, which change no state of the store; the data race of the unlocked test in
  \<^verbatim>\<open>erase\<close>, which is a plain read in the model with threads; memory exhaustion and exceptions of the standard library.
\<close>

end
